(* ===== verification/JS_Prelude.thy ===== *)
theory JS_Prelude
  imports Main "HOL-Library.Word"
begin

unbundle bit_operations_syntax

text \<open>
  Shared vocabulary of the development: JavaScript numbers in the 32-bit contexts of the
  bitwise operators (\<^verbatim>\<open>core/util/int.js\<close> exports two of them as functions), the
  \<open>Uint8Array\<close> operations the client uses, the error values the code throws, and a
  state-and-exception computation type with its composition operators.

  A JavaScript number that only ever holds integers is an \<open>int\<close> (or \<open>nat\<close> where it is a
  count or an index); a bitwise operator first reduces its operands to 32 bits, which is
  written out here. A \<open>Uint8Array\<close> is a \<open>byte list\<close>: reading outside it gives
  \<open>undefined\<close> (\<open>None\<close>, or 0 under a bitwise operator), writing outside it is ignored (as
  \<open>list_update\<close> does), and storing a number keeps its low eight bits.
\<close>

named_theorems exec_simps "unfolding the state-and-exception combinators"
named_theorems queue_simps "how the queue operations act on the abstract byte queue"

section \<open>Numbers under the bitwise operators\<close>

type_synonym byte = "8 word"

definition toUnsigned32bit :: "int \<Rightarrow> int" where
  "toUnsigned32bit toConvert = take_bit 32 toConvert"

definition toSigned32bit :: "int \<Rightarrow> int" where
  "toSigned32bit toConvert = signed_take_bit 31 toConvert"

text \<open>The operators \<open><<\<close>, \<open>>>\<close>, \<open>>>>\<close>, \<open>&\<close>, \<open>|\<close>, \<open>^\<close>; a shift count is taken modulo 32.\<close>

definition js_shl :: "int \<Rightarrow> nat \<Rightarrow> int" where
  "js_shl a n = toSigned32bit (push_bit (n mod 32) a)"

definition js_sar :: "int \<Rightarrow> nat \<Rightarrow> int" where
  "js_sar a n = drop_bit (n mod 32) (toSigned32bit a)"

definition js_shr :: "int \<Rightarrow> nat \<Rightarrow> int" where
  "js_shr a n = drop_bit (n mod 32) (toUnsigned32bit a)"

definition js_and :: "int \<Rightarrow> int \<Rightarrow> int" where
  "js_and a b = toSigned32bit a AND toSigned32bit b"

definition js_or :: "int \<Rightarrow> int \<Rightarrow> int" where
  "js_or a b = toSigned32bit a OR toSigned32bit b"

definition js_xor :: "int \<Rightarrow> int \<Rightarrow> int" where
  "js_xor a b = toSigned32bit a XOR toSigned32bit b"

definition js_not :: "int \<Rightarrow> int" where
  "js_not a = NOT (toSigned32bit a)"

lemmas js_num_defs = js_shl_def js_sar_def js_shr_def js_and_def js_or_def js_xor_def
  js_not_def toSigned32bit_def toUnsigned32bit_def

lemma toSigned32bit_id: "- (2 ^ 31) \<le> x \<Longrightarrow> x < 2 ^ 31 \<Longrightarrow> toSigned32bit x = x"
  unfolding toSigned32bit_def by (rule signed_take_bit_int_eq_self) simp_all

lemma toSigned32bit_nonneg: "0 \<le> x \<Longrightarrow> x < 2147483648 \<Longrightarrow> toSigned32bit x = x"
  by (rule toSigned32bit_id) simp_all

lemma toUnsigned32bit_id: "0 \<le> x \<Longrightarrow> x < 2 ^ 32 \<Longrightarrow> toUnsigned32bit x = x"
  unfolding toUnsigned32bit_def by (rule take_bit_int_eq_self) simp_all

lemma toSigned32bit_eq: "toSigned32bit x = (x + 2 ^ 31) mod 2 ^ 32 - 2 ^ 31"
  unfolding toSigned32bit_def
  by (simp add: signed_take_bit_eq_take_bit_shift take_bit_eq_mod)

lemma toSigned32bit_high: "2 ^ 31 \<le> x \<Longrightarrow> x < 2 ^ 32 \<Longrightarrow> toSigned32bit x = x - 2 ^ 32"
proof -
  assume a: "2 ^ 31 \<le> x" "x < 2 ^ 32"
  have "(x + 2 ^ 31) mod 2 ^ 32 = (x - 2 ^ 31 + 2 ^ 32) mod 2 ^ 32" by (simp add: algebra_simps)
  also have "\<dots> = (x - 2 ^ 31) mod 2 ^ 32" by (rule mod_add_self2)
  also have "\<dots> = x - 2 ^ 31" using a by (intro mod_pos_pos_trivial) simp_all
  finally show ?thesis unfolding toSigned32bit_eq by simp
qed

lemma toSigned32bit_range: "- (2 ^ 31) \<le> toSigned32bit x \<and> toSigned32bit x < 2 ^ 31"
  unfolding toSigned32bit_eq by (simp add: pos_mod_bound)

lemma toUnsigned32bit_range: "0 \<le> toUnsigned32bit x \<and> toUnsigned32bit x < 2 ^ 32"
  unfolding toUnsigned32bit_def using take_bit_int_less_exp [of 32 x] by simp

section \<open>Errors and computations\<close>

text \<open>What the code throws: the exceptions of the typed-array constructors, \<open>TypeError\<close>,
  \<open>URIError\<close>, and the code's own \<open>new Error(msg)\<close>.\<close>

datatype js_error = RangeError | TypeError | URIError | JsError string

text \<open>A computation over a state: an exception keeps the state reached so far, since the
  code's assignments before the \<open>throw\<close> stay visible to whoever catches it.\<close>

type_synonym ('s, 'a) exec = "'s \<Rightarrow> (js_error + 'a) \<times> 's"

definition ret :: "'a \<Rightarrow> ('s, 'a) exec" where
  "ret a = (\<lambda>s. (Inr a, s))"

definition throw :: "js_error \<Rightarrow> ('s, 'a) exec" where
  "throw e = (\<lambda>s. (Inl e, s))"

definition bindx :: "('s, 'a) exec \<Rightarrow> ('a \<Rightarrow> ('s, 'b) exec) \<Rightarrow> ('s, 'b) exec" where
  "bindx m f = (\<lambda>s. case m s of (r, s') \<Rightarrow> (case r of Inl e \<Rightarrow> (Inl e, s') | Inr a \<Rightarrow> f a s'))"

definition thenx :: "('s, 'a) exec \<Rightarrow> ('s, 'b) exec \<Rightarrow> ('s, 'b) exec" where
  "thenx m n = bindx m (\<lambda>_. n)"

definition modify :: "('s \<Rightarrow> 's) \<Rightarrow> ('s, unit) exec" where
  "modify f = (\<lambda>s. (Inr (), f s))"

definition gets :: "('s \<Rightarrow> 'a) \<Rightarrow> ('s, 'a) exec" where
  "gets f = (\<lambda>s. (Inr (f s), s))"

text \<open>Running a computation of a component on one field of a larger state.\<close>

definition zoom :: "('s \<Rightarrow> 't) \<Rightarrow> ('t \<Rightarrow> 's \<Rightarrow> 's) \<Rightarrow> ('t, 'a) exec \<Rightarrow> ('s, 'a) exec" where
  "zoom get put m = (\<lambda>s. case m (get s) of (r, t) \<Rightarrow> (r, put t s))"

declare ret_def [exec_simps] throw_def [exec_simps] bindx_def [exec_simps]
  thenx_def [exec_simps] modify_def [exec_simps] gets_def [exec_simps] zoom_def [exec_simps]

text \<open>Steps that cannot fail.\<close>

lemma bindx_gets: "bindx (gets f) g s = g (f s) s"
  by (simp add: bindx_def gets_def)

lemma thenx_modify: "thenx (modify f) n s = n (f s)"
  by (simp add: thenx_def bindx_def modify_def)

lemma thenx_ok: "fst (m s) = Inr a \<Longrightarrow> thenx m n s = n (snd (m s))"
  by (cases "m s") (simp add: thenx_def bindx_def)

lemma bindx_ok: "m s = (Inr a, s') \<Longrightarrow> bindx m f s = f a s'"
  by (simp add: bindx_def)

lemma thenx_run: "m s = (Inr a, t) \<Longrightarrow> thenx m n s = n t"
  by (simp add: thenx_ok)

lemma run_modify: "modify f c = (Inr (), f c)"
  by (simp add: modify_def)

lemma thenx_assoc: "thenx (bindx m f) n = bindx m (\<lambda>a. thenx (f a) n)" "thenx (thenx m k) n = thenx m (thenx k n)"
  by (rule ext, simp add: thenx_def bindx_def split: prod.split sum.split)+

lemmas exec_steps = bindx_gets thenx_modify thenx_ok

section \<open>Uint8Array\<close>

definition to_byte :: "int \<Rightarrow> byte" where
  "to_byte v = word_of_int v"

text \<open>\<open>buf[off] = v0; buf[off + 1] = v1; ...\<close>, one element after the other.\<close>

primrec write_at :: "'a list \<Rightarrow> nat \<Rightarrow> 'a list \<Rightarrow> 'a list" where
  "write_at buf off [] = buf"
| "write_at buf off (v # vs) = write_at (buf[off := v]) (Suc off) vs"

text \<open>\<open>new Uint8Array(buf.buffer, off, len)\<close>, the view of a slice, and \<open>dst.set(src, off)\<close>.\<close>

definition ta_view :: "'a list \<Rightarrow> nat \<Rightarrow> nat \<Rightarrow> js_error + 'a list" where
  "ta_view buf off len =
     (if off + len \<le> length buf then Inr (take len (drop off buf)) else Inl RangeError)"

definition ta_set :: "'a list \<Rightarrow> nat \<Rightarrow> 'a list \<Rightarrow> js_error + 'a list" where
  "ta_set dst off src =
     (if off + length src \<le> length dst then Inr (write_at dst off src) else Inl RangeError)"

lemma length_write_at [simp]: "length (write_at buf off vs) = length buf"
  by (induction vs arbitrary: buf off) simp_all

lemma take_write_at_before: "n \<le> off \<Longrightarrow> take n (write_at buf off vs) = take n buf"
  by (induction vs arbitrary: buf off) simp_all

lemma write_at_fits:
  "off + length vs \<le> length buf \<Longrightarrow>
   write_at buf off vs = take off buf @ vs @ drop (off + length vs) buf"
proof (induction vs arbitrary: buf off)
  case Nil
  then show ?case by simp
next
  case (Cons v vs)
  then have "write_at (buf[off := v]) (Suc off) vs =
      take (Suc off) (buf[off := v]) @ vs @ drop (Suc off + length vs) (buf[off := v])"
    by simp
  moreover have "take (Suc off) (buf[off := v]) = take off buf @ [v]"
    using Cons.prems by (simp add: take_Suc_conv_app_nth)
  ultimately show ?case by simp
qed

lemma take_write_at:
  "off + length vs \<le> length buf \<Longrightarrow> take (off + length vs) (write_at buf off vs) = take off buf @ vs"
  by (simp add: write_at_fits)

lemma write_at_append: "write_at buf off (us @ vs) = write_at (write_at buf off us) (off + length us) vs"
  by (induction us arbitrary: buf off) simp_all

lemma drop_write_at:
  "off + length vs \<le> length buf \<Longrightarrow> drop off (write_at buf off vs) = vs @ drop (off + length vs) buf"
  by (simp add: write_at_fits)

lemma ta_set_Inr:
  "ta_set dst off src = Inr d \<Longrightarrow> d = take off dst @ src @ drop (off + length src) dst"
  by (auto simp: ta_set_def write_at_fits split: if_splits)

section \<open>Big-endian integers\<close>

text \<open>The wire format of the protocol's integers, as the code writes them (low eight bits
  of shifted values) and the number a byte sequence stands for.\<close>

definition be16 :: "int \<Rightarrow> byte list" where
  "be16 x = [to_byte (drop_bit 8 x), to_byte x]"

definition be32 :: "int \<Rightarrow> byte list" where
  "be32 x = [to_byte (drop_bit 24 x), to_byte (drop_bit 16 x), to_byte (drop_bit 8 x), to_byte x]"

definition of_be :: "byte list \<Rightarrow> int" where
  "of_be bs = foldl (\<lambda>a b. a * 256 + uint b) 0 bs"

lemma length_be [simp]: "length (be16 x) = 2" "length (be32 x) = 4"
  by (simp_all add: be16_def be32_def)

lemma uint_byte_range [simp]: "0 \<le> uint (b :: byte)" "uint (b :: byte) < 256"
  using uint_bounded [of b] by simp_all

lemma uint_to_byte: "uint (to_byte v) = v mod 256"
  by (simp add: to_byte_def uint_word_of_int)

lemma uint_to_byte_id: "0 \<le> v \<Longrightarrow> v < 256 \<Longrightarrow> uint (to_byte v) = v"
  by (simp add: uint_to_byte)

lemma to_byte_uint [simp]: "to_byte (uint b) = b"
  by (simp add: to_byte_def)

lemma to_byte_inj: "to_byte a = to_byte b \<longleftrightarrow> a mod 256 = b mod 256"
  using uint_to_byte by (metis to_byte_uint uint_to_byte)

lemma of_be_be16: "of_be (be16 x) = x mod 2 ^ 16"
  using zmod_zmult2_eq [of 256 x 256]
  by (simp add: of_be_def be16_def uint_to_byte drop_bit_eq_div)

lemma of_be_be32: "of_be (be32 x) = x mod 2 ^ 32"
proof -
  have step: "x mod (2 ^ k * 256) = 2 ^ k * (x div 2 ^ k mod 256) + x mod 2 ^ k" for k
    by (rule zmod_zmult2_eq) simp
  have "of_be (be32 x) = 2 ^ 24 * (x div 2 ^ 24 mod 256) + (2 ^ 16 * (x div 2 ^ 16 mod 256)
      + (2 ^ 8 * (x div 2 ^ 8 mod 256) + x mod 256))"
    by (simp add: of_be_def be32_def uint_to_byte drop_bit_eq_div)
  also have "2 ^ 8 * (x div 2 ^ 8 mod 256) + x mod 256 = x mod 2 ^ 16"
    using step [of 8] by simp
  also have "2 ^ 16 * (x div 2 ^ 16 mod 256) + x mod 2 ^ 16 = x mod 2 ^ 24"
    using step [of 16] by simp
  also have "2 ^ 24 * (x div 2 ^ 24 mod 256) + x mod 2 ^ 24 = x mod 2 ^ 32"
    using step [of 24] by simp
  finally show ?thesis .
qed

lemma of_be_4: "of_be [a, b, c, d] = uint a * 2 ^ 24 + uint b * 2 ^ 16 + uint c * 2 ^ 8 + uint d"
  by (simp add: of_be_def)

lemma of_be_4_range: "0 \<le> of_be [a, b, c, d] \<and> of_be [a, b, c, d] < 2 ^ 32"
proof -
  have "uint a < 256" "uint b < 256" "uint c < 256" "uint d < 256"
    by (rule uint_byte_range)+
  then show ?thesis
    using uint_byte_range(1) [of a] uint_byte_range(1) [of b] uint_byte_range(1) [of c]
      uint_byte_range(1) [of d]
    unfolding of_be_4 by (simp del: uint_byte_range)
qed

text \<open>The shifts with which the code takes a number apart select the same bytes.\<close>

lemma to_byte_cong: "take_bit 8 a = take_bit 8 b \<Longrightarrow> to_byte a = to_byte b"
  by (simp add: to_byte_inj take_bit_eq_mod)

lemma to_byte_sar:
  assumes "n \<le> 24"
  shows "to_byte (js_sar v n) = to_byte (drop_bit n v)"
proof (rule to_byte_cong, rule bit_eqI)
  fix k
  show "bit (take_bit 8 (js_sar v n)) k = bit (take_bit 8 (drop_bit n v)) k"
    using assms
    by (auto simp: js_sar_def toSigned32bit_def bit_take_bit_iff bit_drop_bit_eq bit_signed_take_bit_iff)
qed

lemma to_byte_toSigned [simp]: "to_byte (toSigned32bit v) = to_byte v"
  using to_byte_sar [of 0 v] by (simp add: js_sar_def)

lemma js_and_255: "js_and v 255 = take_bit 8 (toSigned32bit v)"
proof -
  have "toSigned32bit 255 = mask 8" by (simp add: toSigned32bit_id mask_eq_exp_minus_1)
  then show ?thesis by (simp add: js_and_def take_bit_eq_mask)
qed

lemma to_byte_and255: "to_byte (js_and v 255) = to_byte v"
proof -
  have "to_byte (js_and v 255) = to_byte (toSigned32bit v)"
    unfolding js_and_255 by (rule to_byte_cong) simp
  then show ?thesis by simp
qed

lemma sent_be16: "[to_byte (js_sar x 8), to_byte x] = be16 x"
  by (simp add: be16_def to_byte_sar)

lemma sent_be32:
  "[to_byte (js_sar x 24), to_byte (js_sar x 16), to_byte (js_sar x 8), to_byte x] = be32 x"
  by (simp add: be32_def to_byte_sar)

text \<open>Left shifts of a byte: the sign appears only when the byte reaches bit 31.\<close>

lemma js_shl_byte: "n \<le> 16 \<Longrightarrow> js_shl (uint (b :: byte)) n = uint b * 2 ^ n"
proof -
  assume n: "n \<le> 16"
  have "(2::int) ^ n \<le> 2 ^ 16" using n by (rule power_increasing) simp
  moreover have "0 \<le> uint b" by (rule uint_byte_range)
  moreover have "uint b \<le> 255" using uint_byte_range(2) [of b] by linarith
  ultimately have "uint b * 2 ^ n \<le> 255 * 2 ^ 16" by (intro mult_mono) simp_all
  moreover have "0 \<le> uint b * 2 ^ n" by simp
  ultimately have "toSigned32bit (uint b * 2 ^ n) = uint b * 2 ^ n"
    by (intro toSigned32bit_nonneg) simp_all
  with n show ?thesis by (simp add: js_shl_def push_bit_eq_mult)
qed

lemma js_shl_byte_24: "js_shl (uint (b :: byte)) 24 = toSigned32bit (uint b * 2 ^ 24)"
  by (simp add: js_shl_def push_bit_eq_mult)

lemma toSigned32bit_add_low:
  assumes "0 \<le> r" "r < 2 ^ 24"
  shows "toSigned32bit (uint (a :: byte) * 2 ^ 24) + r = toSigned32bit (uint a * 2 ^ 24 + r)"
proof (cases "uint a < 128")
  case True
  have "0 \<le> uint a" by (rule uint_byte_range)
  then have "0 \<le> uint a * 2 ^ 24 + r" using assms by simp
  moreover have "uint a * 2 ^ 24 + r < 2147483648" using True assms by simp
  ultimately have "toSigned32bit (uint a * 2 ^ 24 + r) = uint a * 2 ^ 24 + r"
    by (rule toSigned32bit_nonneg)
  moreover have "toSigned32bit (uint a * 2 ^ 24) = uint a * 2 ^ 24"
    using True by (intro toSigned32bit_nonneg) simp_all
  ultimately show ?thesis by simp
next
  case False
  have "uint a < 256" by (rule uint_byte_range)
  with False assms show ?thesis by (simp add: toSigned32bit_high del: uint_byte_range)
qed

lemma be32_toSigned: "be32 (toSigned32bit v) = be32 v"
proof -
  have "to_byte (drop_bit n (toSigned32bit v)) = to_byte (drop_bit n v)" if "n \<le> 24" for n
    using that to_byte_sar [of n v] to_byte_sar [of n "toSigned32bit v"]
    by (simp add: js_sar_def toSigned32bit_def)
  then show ?thesis by (simp add: be32_def)
qed

text \<open>On non-negative 32-bit numbers the operators are division, remainder and addition.\<close>

lemma js_and_nonneg:
  "0 \<le> a \<Longrightarrow> a < 2147483648 \<Longrightarrow> 0 \<le> b \<Longrightarrow> b < 2147483648 \<Longrightarrow> js_and a b = a AND b"
  by (simp add: js_and_def toSigned32bit_nonneg)

lemma js_and_mask:
  assumes "0 \<le> a" "a < 2147483648" "n \<le> 31"
  shows "js_and a (2 ^ n - 1) = a mod 2 ^ n"
proof -
  have "(2::int) ^ n \<le> 2 ^ 31" using assms(3) by (rule power_increasing) simp
  then have "js_and a (2 ^ n - 1) = a AND (2 ^ n - 1)"
    using assms by (intro js_and_nonneg) simp_all
  then show ?thesis by (simp add: take_bit_eq_mod flip: take_bit_eq_mask mask_eq_exp_minus_1)
qed

lemma js_sar_nonneg: "0 \<le> a \<Longrightarrow> a < 2147483648 \<Longrightarrow> n < 32 \<Longrightarrow> js_sar a n = a div 2 ^ n"
  by (simp add: js_sar_def toSigned32bit_nonneg drop_bit_eq_div)

lemma js_shl_nonneg: "0 \<le> a \<Longrightarrow> a * 2 ^ n < 2147483648 \<Longrightarrow> n < 32 \<Longrightarrow> js_shl a n = a * 2 ^ n"
  by (simp add: js_shl_def push_bit_eq_mult toSigned32bit_nonneg)

lemma js_or_disjoint:
  assumes "0 \<le> a" "0 \<le> c" "c < 2 ^ n" "a * 2 ^ n + c < 2147483648"
  shows "js_or (a * 2 ^ n) c = a * 2 ^ n + c"
proof -
  have "0 \<le> a * 2 ^ n" using assms(1) by simp
  then have "a * 2 ^ n < 2147483648" "c < 2147483648" using assms by linarith+
  then have "js_or (a * 2 ^ n) c = push_bit n a OR c"
    using assms by (simp add: js_or_def toSigned32bit_nonneg push_bit_eq_mult)
  also have "\<dots> = push_bit n a + c"
  proof (rule disjunctive_add [symmetric])
    fix k
    have "c = take_bit n c" using assms by (simp add: take_bit_int_eq_self)
    then show "\<not> bit (push_bit n a) k \<or> \<not> bit c k"
      by (metis bit_push_bit_iff bit_take_bit_iff linorder_not_le)
  qed
  finally show ?thesis by (simp add: push_bit_eq_mult)
qed

lemmas js_and_masks = js_and_mask [of _ 2, simplified] js_and_mask [of _ 4, simplified]
  js_and_mask [of _ 6, simplified] js_and_mask [of _ 7, simplified] js_and_mask [of _ 8, simplified]

end
