(* ===== verification/Byte_Queue.thy ===== *)
theory Byte_Queue
  imports JS_Prelude
begin

text \<open>
  The interface through which the protocol code reads its input: an abstract queue of
  unread bytes (\<open>unread\<close>), the test for "enough bytes" with its optional step back
  (\<open>rQwait\<close>), the big-endian readers (\<open>_rQshift\<close>), the slice reader (\<open>rQshiftBytes\<close>) and
  \<open>rQskipBytes\<close>. Every reader moves the queue by \<open>adv\<close>. The laws say what each operation
  does to the abstract queue; the lemmas derived from them are what the decoders and the
  message handlers use. The model of \<^verbatim>\<open>core/websock.js\<close> interprets the locale.
\<close>

text \<open>The number \<open>_rQshift(n)\<close> computes from the first bytes: unsigned for one and two
  bytes, and for four bytes the signed 32-bit reading, since \<open>b << 24\<close> is signed.\<close>

definition shift_value :: "nat \<Rightarrow> byte list \<Rightarrow> int" where
  "shift_value n bs =
     (if n = 4 then toSigned32bit (of_be (take 4 bs)) else of_be (take n bs))"

lemma shift_value_1: "shift_value 1 (b # bs) = uint b"
  by (simp add: shift_value_def of_be_def)

lemma shift_value_2: "shift_value 2 (a # b # bs) = uint a * 256 + uint b"
  by (simp add: shift_value_def of_be_def numeral_2_eq_2)

lemma take_4: "take 4 (a # b # c # d # bs) = [a, b, c, d]"
  by (simp add: numeral_eq_Suc)

lemma shift_value_be16: "shift_value 2 (be16 x @ bs) = x mod 2 ^ 16"
  by (simp add: shift_value_def of_be_be16)

lemma shift_value_be32: "shift_value 4 (be32 x @ bs) = toSigned32bit x"
proof -
  have "toSigned32bit (x mod 2 ^ 32) = toSigned32bit x"
    by (simp add: toSigned32bit_eq mod_add_left_eq)
  then show ?thesis by (simp add: shift_value_def of_be_be32)
qed

lemma shift_value_8_range: "bs \<noteq> [] \<Longrightarrow> 0 \<le> shift_value 1 bs \<and> shift_value 1 bs < 256"
  by (cases bs) (simp_all add: shift_value_1 [simplified])

locale byte_queue =
  fixes ok :: "'s \<Rightarrow> bool"
    and unread :: "'s \<Rightarrow> byte list"
    and adv :: "nat \<Rightarrow> 's \<Rightarrow> 's"
    and wait :: "int \<Rightarrow> nat \<Rightarrow> ('s, bool) exec"
    and shift :: "nat \<Rightarrow> ('s, int) exec"
    and shift_bytes :: "int \<Rightarrow> ('s, byte list) exec"
  assumes adv_ok: "ok s \<Longrightarrow> n \<le> length (unread s) \<Longrightarrow> ok (adv n s)"
    and adv_unread: "ok s \<Longrightarrow> n \<le> length (unread s) \<Longrightarrow> unread (adv n s) = drop n (unread s)"
    and adv_adv: "adv j (adv n s) = adv (n + j) s"
    and adv_0: "adv 0 s = s"
    and wait_here: "ok s \<Longrightarrow> wait m 0 s = (Inr (int (length (unread s)) < m), s)"
    and wait_back: "ok s \<Longrightarrow> k \<le> length (unread s) \<Longrightarrow> 0 < k \<Longrightarrow>
      wait m k (adv k s) = (if int (length (unread s)) - int k < m then (Inr True, s)
                            else (Inr False, adv k s))"
    and shift: "ok s \<Longrightarrow> n \<le> length (unread s) \<Longrightarrow> n \<in> {1, 2, 4} \<Longrightarrow>
      shift n s = (Inr (shift_value n (unread s)), adv n s)"
    and shift_bytes: "ok s \<Longrightarrow> n \<le> length (unread s) \<Longrightarrow>
      shift_bytes (int n) s = (Inr (take n (unread s)), adv n s)"
begin

text \<open>A read after a move: the forms the simplifier uses on a chain of readers.\<close>

lemma shift_adv:
  "ok s \<Longrightarrow> k + n \<le> length (unread s) \<Longrightarrow> n \<in> {1, 2, 4} \<Longrightarrow>
   shift n (adv k s) = (Inr (shift_value n (drop k (unread s))), adv (k + n) s)"
  using shift [of "adv k s" n] adv_ok [of s k] adv_unread [of s k] by (simp add: adv_adv)

lemma shift_bytes_adv:
  "ok s \<Longrightarrow> k + n \<le> length (unread s) \<Longrightarrow>
   shift_bytes (int n) (adv k s) = (Inr (take n (drop k (unread s))), adv (k + n) s)"
  using shift_bytes [of "adv k s" n] adv_ok [of s k] adv_unread [of s k] by (simp add: adv_adv)

lemma wait_adv:
  "ok s \<Longrightarrow> k \<le> length (unread s) \<Longrightarrow>
   wait n 0 (adv k s) = (Inr (int (length (unread s)) - int k < n), adv k s)"
  using wait_here [of "adv k s" n] adv_ok [of s k] adv_unread [of s k] by (simp add: of_nat_diff)

lemma unread_adv_append:
  "ok s \<Longrightarrow> unread s = xs @ ys \<Longrightarrow> unread (adv (length xs) s) = ys"
  using adv_unread [of s "length xs"] by simp

text \<open>Reading a number and giving it back leaves the queue as it was.\<close>

lemma shift_then_back:
  assumes "ok s" "n \<le> length (unread s)" "n \<in> {1, 2, 4}"
    and "int (length (unread s)) - int n < m"
  shows "bindx (shift n) (\<lambda>v. wait m n) s = (Inr True, s)"
  using assms shift [of s n] wait_back [of s n m] by (auto simp: bindx_def)

end

text \<open>A queue that is also fed from the network: what arrives is appended.\<close>

locale fed_byte_queue = byte_queue +
  fixes fits :: "byte list \<Rightarrow> 's \<Rightarrow> bool"
    and feed :: "byte list \<Rightarrow> ('s, unit) exec"
  assumes feed_ok: "ok s \<Longrightarrow> fits d s \<Longrightarrow>
    \<exists>s'. feed d s = (Inr (), s') \<and> ok s' \<and> unread s' = unread s @ d"
begin

text \<open>A test that failed for lack of data succeeds once the missing bytes have come.\<close>

lemma wait_after_feed:
  assumes "ok s" "fits d s" "n \<le> int (length (unread s) + length d)"
  shows "\<exists>s'. bindx (feed d) (\<lambda>_. wait n 0) s = (Inr False, s') \<and> unread s' = unread s @ d"
proof -
  from feed_ok [OF assms(1,2)] obtain s' where
    s': "feed d s = (Inr (), s')" "ok s'" "unread s' = unread s @ d" by blast
  with assms(3) show ?thesis by (auto simp: bindx_def wait_here)
qed

end

end
