(* ===== verification/Websock_Queues.thy ===== *)
theory Websock_Queues
  imports Byte_Queue
begin

text \<open>
  The model of \<^verbatim>\<open>core/websock.js\<close>: the receive queue (a \<open>Uint8Array\<close> with a read index
  and a write index that is compacted and grown), the send queue (a fixed \<open>Uint8Array\<close>
  flushed to the channel), and the channel's life cycle. The channel itself is the
  environment: \<open>ws_channel\<close> is its \<open>readyState\<close> (\<open>None\<close> for no channel) and \<open>ws_sent\<close>
  records the messages handed to its \<open>send\<close>.
\<close>

section \<open>State\<close>

datatype ready_state = CONNECTING | OPEN | CLOSING | CLOSED | OtherState

datatype ws_event = EvMessage | EvOpen | EvClose | EvError

record websock =
  ws_channel :: "ready_state option"
  ws_onmessage :: bool                \<comment> \<open>\<open>_recvMessage\<close> is bound to the channel\<close>
  ws_handler :: "ws_event \<Rightarrow> bool"    \<comment> \<open>a handler is installed (\<open>on\<close>), or none (\<open>off\<close>)\<close>
  ws_sent :: "byte list list"
  rQi :: nat
  rQlen' :: nat                       \<comment> \<open>the field \<open>_rQlen\<close>: next write position\<close>
  rQbufferSize :: int
  rQ :: "byte list"
  sQbufferSize :: nat
  sQlen :: nat
  sQ :: "byte list"

definition MAX_RQ_GROW_SIZE :: int where
  "MAX_RQ_GROW_SIZE = 40 * 1024 * 1024"

text \<open>Before \<open>init\<close> the two arrays are \<open>null\<close>; nothing reads them then, and they are empty here.\<close>

definition new_websock :: websock where
  "new_websock = \<lparr>ws_channel = None, ws_onmessage = False, ws_handler = (\<lambda>_. False),
     ws_sent = [], rQi = 0, rQlen' = 0, rQbufferSize = 1024 * 1024 * 4, rQ = [],
     sQbufferSize = 1024 * 10, sQlen = 0, sQ = []\<rparr>"

definition readyState :: "websock \<Rightarrow> string" where
  "readyState s = (case ws_channel s of
      None \<Rightarrow> ''unused''
    | Some CONNECTING \<Rightarrow> ''connecting''
    | Some OPEN \<Rightarrow> ''open''
    | Some CLOSING \<Rightarrow> ''closing''
    | Some CLOSED \<Rightarrow> ''closed''
    | Some OtherState \<Rightarrow> ''unknown'')"

section \<open>Receive queue\<close>

definition rQlen :: "websock \<Rightarrow> int" where
  "rQlen s = int (rQlen' s) - int (rQi s)"

text \<open>An element of the receive array as a number; \<open>undefined\<close> counts 0, as under \<open><<\<close>.\<close>

definition rQ_at :: "websock \<Rightarrow> nat \<Rightarrow> int" where
  "rQ_at s i = (if i < length (rQ s) then uint (rQ s ! i) else 0)"

definition rQpeek8 :: "websock \<Rightarrow> int" where
  "rQpeek8 s = rQ_at s (rQi s)"

definition rQskipBytes :: "nat \<Rightarrow> websock \<Rightarrow> websock" where
  "rQskipBytes bytes s = s\<lparr>rQi := rQi s + bytes\<rparr>"

fun rQshift_loop :: "nat \<Rightarrow> int \<Rightarrow> websock \<Rightarrow> int \<times> websock" where
  "rQshift_loop 0 res s = (res, s)"
| "rQshift_loop (Suc byte) res s =
     rQshift_loop byte (res + js_shl (rQ_at s (rQi s)) (byte * 8)) (s\<lparr>rQi := rQi s + 1\<rparr>)"

definition rQshift :: "nat \<Rightarrow> (websock, int) exec" where
  "rQshift bytes s = (case rQshift_loop bytes 0 s of (res, s') \<Rightarrow> (Inr res, s'))"

definition rQshift8 :: "(websock, int) exec" where
  "rQshift8 = rQshift 1"

definition rQshift16 :: "(websock, int) exec" where
  "rQshift16 = rQshift 2"

definition rQshift32 :: "(websock, int) exec" where
  "rQshift32 = rQshift 4"

definition rQshiftBytes :: "int \<Rightarrow> (websock, byte list) exec" where
  "rQshiftBytes len s =
     (let i = nat (int (rQi s) + len); s' = s\<lparr>rQi := i\<rparr> in
      if len < 0 then (Inl RangeError, s')
      else (ta_view (rQ s) (i - nat len) (nat len), s'))"

text \<open>\<open>rQshiftStr\<close> reads in steps of at most 4096 bytes; \<open>String.fromCharCode\<close> of a byte.\<close>

definition str_of_bytes :: "byte list \<Rightarrow> string" where
  "str_of_bytes bs = map (\<lambda>b. char_of (unat b)) bs"

function rQshiftStr_loop :: "int \<Rightarrow> int \<Rightarrow> string \<Rightarrow> (websock, string) exec" where
  "rQshiftStr_loop i len str s =
     (if i < len then
        (case rQshiftBytes (min 4096 (len - i)) s of
           (Inl e, s') \<Rightarrow> (Inl e, s')
         | (Inr part, s') \<Rightarrow> rQshiftStr_loop (i + 4096) len (str @ str_of_bytes part) s')
      else (Inr str, s))"
  by pat_completeness auto
termination
  by (relation "measure (\<lambda>(i, len, str, s). nat (len - i))") auto

definition rQshiftStr :: "int \<Rightarrow> (websock, string) exec" where
  "rQshiftStr len = rQshiftStr_loop 0 len []"

text \<open>\<open>rQshiftTo(target, len)\<close>: the target array after \<open>target.set\<close>.\<close>

definition rQshiftTo :: "byte list \<Rightarrow> nat \<Rightarrow> (websock, byte list) exec" where
  "rQshiftTo target len s =
     (case ta_view (rQ s) (rQi s) len of
        Inl e \<Rightarrow> (Inl e, s)
      | Inr v \<Rightarrow> (case ta_set target 0 v of
          Inl e \<Rightarrow> (Inl e, s)
        | Inr t \<Rightarrow> (Inr t, s\<lparr>rQi := rQi s + len\<rparr>)))"

definition rQslice :: "nat \<Rightarrow> nat \<Rightarrow> websock \<Rightarrow> js_error + byte list" where
  "rQslice start stop s =
     (if stop < start then Inl RangeError else ta_view (rQ s) (rQi s + start) (stop - start))"

definition rQwait :: "int \<Rightarrow> nat \<Rightarrow> (websock, bool) exec" where
  "rQwait num goback s =
     (if rQlen s < num then
        (if goback \<noteq> 0 then
           (if rQi s < goback then (Inl (JsError ''rQwait cannot backup''), s)
            else (Inr True, s\<lparr>rQi := rQi s - goback\<rparr>))
         else (Inr True, s))
      else (Inr False, s))"

section \<open>Send queue\<close>

definition encodeMessage :: "websock \<Rightarrow> byte list" where
  "encodeMessage s = take (sQlen s) (sQ s)"

definition flush :: "websock \<Rightarrow> websock" where
  "flush s =
     (if sQlen s > 0 \<and> readyState s = ''open'' then
        s\<lparr>ws_sent := ws_sent s @ [encodeMessage s], sQlen := 0\<rparr>
      else s)"

definition send :: "byte list \<Rightarrow> (websock, unit) exec" where
  "send arr s =
     (case ta_set (sQ s) (sQlen s) arr of
        Inl e \<Rightarrow> (Inl e, s)
      | Inr q \<Rightarrow> (Inr (), flush (s\<lparr>sQ := q, sQlen := sQlen s + length arr\<rparr>)))"

definition sendString :: "string \<Rightarrow> (websock, unit) exec" where
  "sendString str = send (map (\<lambda>chr. to_byte (int (of_char chr))) str)"

section \<open>Channel and buffers\<close>

definition off :: "ws_event \<Rightarrow> websock \<Rightarrow> websock" where
  "off evt s = s\<lparr>ws_handler := (ws_handler s)(evt := False)\<rparr>"

definition on :: "ws_event \<Rightarrow> websock \<Rightarrow> websock" where
  "on evt s = s\<lparr>ws_handler := (ws_handler s)(evt := True)\<rparr>"

definition allocateBuffers :: "websock \<Rightarrow> websock" where
  "allocateBuffers s =
     s\<lparr>rQ := replicate (nat (rQbufferSize s)) 0, sQ := replicate (sQbufferSize s) 0\<rparr>"

definition ws_init :: "websock \<Rightarrow> websock" where
  "ws_init s = (allocateBuffers s)\<lparr>rQi := 0, ws_channel := None\<rparr>"

definition rawChannelProps :: "string list" where
  "rawChannelProps = [''send'', ''close'', ''binaryType'', ''onerror'', ''onmessage'',
     ''onopen'', ''protocol'', ''readyState'']"

text \<open>A raw channel is its list of properties and its state.\<close>

definition attach :: "string list \<Rightarrow> ready_state \<Rightarrow> (websock, unit) exec" where
  "attach channelProps ready s =
     (let s' = ws_init s in
      if list_all (\<lambda>prop. prop \<in> set channelProps) rawChannelProps
      then (Inr (), s'\<lparr>ws_channel := Some ready, ws_onmessage := True\<rparr>)
      else (Inl (JsError ''Raw channel missing property''), s'))"

definition ws_close :: "websock \<Rightarrow> websock" where
  "ws_close s =
     (case ws_channel s of
        None \<Rightarrow> s
      | Some ready \<Rightarrow>
          (if readyState s = ''connecting'' \<or> readyState s = ''open''
           then s\<lparr>ws_channel := Some CLOSING\<rparr> else s)\<lparr>ws_onmessage := False\<rparr>)"

definition expandCompactRQ :: "nat \<Rightarrow> (websock, unit) exec" where
  "expandCompactRQ minFit s =
     (let requiredBufferSize = (int (rQlen' s) - int (rQi s) + int minFit) * 8;
          resizeNeeded = (rQbufferSize s < requiredBufferSize);
          grown = (if resizeNeeded then max (rQbufferSize s * 2) requiredBufferSize
                   else rQbufferSize s);
          tooBig = (grown > MAX_RQ_GROW_SIZE);
          size = (if tooBig then MAX_RQ_GROW_SIZE else grown);
          s1 = s\<lparr>rQbufferSize := size\<rparr>;
          live = take (rQlen' s - rQi s) (drop (rQi s) (rQ s))
      in if tooBig \<and> size - rQlen s < int minFit
         then (Inl (JsError
             ''Receive Queue buffer exceeded 41943040 bytes, and the new message could not fit''), s1)
         else (Inr (), s1\<lparr>
           rQ := (if resizeNeeded then write_at (replicate (nat size) 0) 0 live
                  else write_at (rQ s) 0 live),
           rQlen' := rQlen' s - rQi s, rQi := 0\<rparr>))"

definition DecodeMessage :: "byte list \<Rightarrow> (websock, unit) exec" where
  "DecodeMessage u8 =
     bindx (\<lambda>s. if int (length u8) > rQbufferSize s - int (rQlen' s)
                then expandCompactRQ (length u8) s else (Inr (), s))
     (\<lambda>_ s. case ta_set (rQ s) (rQlen' s) u8 of
        Inl e \<Rightarrow> (Inl e, s)
      | Inr q \<Rightarrow> (Inr (), s\<lparr>rQ := q, rQlen' := rQlen' s + length u8\<rparr>))"

text \<open>\<open>_recvMessage\<close>, over any larger state that holds the socket, with the installed
  \<open>message\<close> handler as an argument.\<close>

definition recvMessage ::
  "('s \<Rightarrow> websock) \<Rightarrow> (websock \<Rightarrow> 's \<Rightarrow> 's) \<Rightarrow> ('s, unit) exec \<Rightarrow> byte list \<Rightarrow> ('s, unit) exec" where
  "recvMessage get put message data =
     thenx (zoom get put (DecodeMessage data))
     (\<lambda>s. if rQlen (get s) > 0 then
            bindx message (\<lambda>_ s'.
              if rQlen' (get s') = rQi (get s')
              then (Inr (), put ((get s')\<lparr>rQlen' := 0, rQi := 0\<rparr>) s') else (Inr (), s')) s
          else (Inr (), s))"

section \<open>The receive queue as a queue of bytes\<close>

text \<open>The invariant of the receive side and the bytes not yet read.\<close>

definition rq_inv :: "websock \<Rightarrow> bool" where
  "rq_inv s \<longleftrightarrow> rQi s \<le> rQlen' s \<and> rQlen' s \<le> length (rQ s)
     \<and> int (length (rQ s)) = rQbufferSize s \<and> rQbufferSize s \<le> MAX_RQ_GROW_SIZE"

definition unread :: "websock \<Rightarrow> byte list" where
  "unread s = take (rQlen' s - rQi s) (drop (rQi s) (rQ s))"

definition rq_fits :: "byte list \<Rightarrow> websock \<Rightarrow> bool" where
  "rq_fits d s \<longleftrightarrow> int (length (unread s) + length d) \<le> MAX_RQ_GROW_SIZE"

lemma length_unread: "rq_inv s \<Longrightarrow> length (unread s) = rQlen' s - rQi s"
  by (auto simp: rq_inv_def unread_def)

lemma rQlen_unread: "rq_inv s \<Longrightarrow> rQlen s = int (length (unread s))"
  by (simp add: length_unread rQlen_def, simp add: rq_inv_def of_nat_diff)

lemma rQ_at_unread:
  assumes "rq_inv s" "k < length (unread s)"
  shows "rQ_at s (rQi s + k) = uint (unread s ! k)"
proof -
  have "k < rQlen' s - rQi s" using assms by (simp add: length_unread)
  then show ?thesis using assms(1) by (auto simp: rQ_at_def unread_def rq_inv_def)
qed

lemma unread_skip: "rq_inv s \<Longrightarrow> n \<le> length (unread s) \<Longrightarrow> unread (rQskipBytes n s) = drop n (unread s)"
  by (simp add: length_unread, simp add: unread_def rQskipBytes_def drop_take add.commute)

lemma rq_inv_skip: "rq_inv s \<Longrightarrow> n \<le> length (unread s) \<Longrightarrow> rq_inv (rQskipBytes n s)"
  by (simp add: length_unread, auto simp: rq_inv_def rQskipBytes_def)

lemma skip_skip: "rQskipBytes m (rQskipBytes n s) = rQskipBytes (n + m) s"
  by (simp add: rQskipBytes_def add.assoc)

lemma skip_0: "rQskipBytes 0 s = s"
  by (simp add: rQskipBytes_def)

lemma rQshift_1:
  "rQshift 1 s = (Inr (js_shl (rQ_at s (rQi s)) 0), rQskipBytes 1 s)"
  by (simp add: rQshift_def rQskipBytes_def)

lemma rQshift_2:
  "rQshift 2 s = (Inr (js_shl (rQ_at s (rQi s)) 8 + js_shl (rQ_at s (rQi s + 1)) 0), rQskipBytes 2 s)"
  by (simp add: rQshift_def rQskipBytes_def numeral_2_eq_2 rQ_at_def)

lemma rQshift_4:
  "rQshift 4 s = (Inr (js_shl (rQ_at s (rQi s)) 24 + js_shl (rQ_at s (rQi s + 1)) 16
     + js_shl (rQ_at s (rQi s + 2)) 8 + js_shl (rQ_at s (rQi s + 3)) 0), rQskipBytes 4 s)"
  by (simp add: rQshift_def rQskipBytes_def eval_nat_numeral rQ_at_def)

lemma rQshift_value_4:
  "js_shl (uint (a :: byte)) 24 + js_shl (uint (b :: byte)) 16 + js_shl (uint (c :: byte)) 8
     + js_shl (uint (d :: byte)) 0 = toSigned32bit (of_be [a, b, c, d])"
proof -
  let ?r = "uint b * 2 ^ 16 + uint c * 2 ^ 8 + uint d"
  have "uint b < 256" "uint c < 256" "uint d < 256" by (rule uint_byte_range)+
  then have "?r < 2 ^ 24" by (simp del: uint_byte_range)
  moreover have "0 \<le> ?r" by simp
  ultimately have "toSigned32bit (uint a * 2 ^ 24) + ?r = toSigned32bit (uint a * 2 ^ 24 + ?r)"
    by (intro toSigned32bit_add_low)
  then show ?thesis
    using js_shl_byte [of 16 b] js_shl_byte [of 8 c] js_shl_byte [of 0 d]
    by (simp add: js_shl_byte_24 of_be_4 add.assoc)
qed

lemma rQshift_unread:
  assumes "rq_inv s" "n \<le> length (unread s)" "n \<in> {1, 2, 4}"
  shows "rQshift n s = (Inr (shift_value n (unread s)), rQskipBytes n s)"
proof -
  have at: "\<And>k. k < n \<Longrightarrow> rQ_at s (rQi s + k) = uint (unread s ! k)"
    using assms by (intro rQ_at_unread) simp_all
  consider "n = 1" | "n = 2" | "n = 4" using assms(3) by blast
  then show ?thesis
  proof cases
    case 1
    then obtain a bs where u: "unread s = a # bs" using assms(2) by (cases "unread s") auto
    with 1 at [of 0] show ?thesis
      using rQshift_1 [of s] js_shl_byte [of 0 a] shift_value_1 [of a bs] by simp
  next
    case 2
    then obtain a b bs where u: "unread s = a # b # bs"
      using assms(2) by (cases "unread s"; cases "tl (unread s)") auto
    with 2 at [of 0] at [of 1] show ?thesis
      using js_shl_byte [of 8 a] js_shl_byte [of 0 b] by (simp add: rQshift_2 shift_value_2)
  next
    case 3
    then have "4 \<le> length (unread s)" using assms(2) by simp
    then obtain a b c d bs where u: "unread s = a # b # c # d # bs"
      by (auto simp: numeral_eq_Suc Suc_le_length_iff)
    with 3 at [of 0] at [of 1] at [of 2] at [of 3] show ?thesis
      using rQshift_value_4 [of a b c d]
      by (simp add: rQshift_4 shift_value_def take_4 numeral_3_eq_3)
  qed
qed

lemma rQshiftBytes_unread:
  assumes "rq_inv s" "n \<le> length (unread s)"
  shows "rQshiftBytes (int n) s = (Inr (take n (unread s)), rQskipBytes n s)"
proof -
  have "n \<le> rQlen' s - rQi s" using assms by (simp add: length_unread)
  moreover have "rQi s + n \<le> length (rQ s)" using assms(1) calculation by (auto simp: rq_inv_def)
  moreover have "nat (int (rQi s) + int n) = rQi s + n" by simp
  ultimately show ?thesis
    by (simp add: rQshiftBytes_def Let_def ta_view_def rQskipBytes_def unread_def min_absorb1)
qed

lemma rQwait_here: "rq_inv s \<Longrightarrow> rQwait m 0 s = (Inr (int (length (unread s)) < m), s)"
  by (simp add: rQwait_def rQlen_unread)

lemma rQwait_back:
  assumes "rq_inv s" "k \<le> length (unread s)" "0 < k"
  shows "rQwait m k (rQskipBytes k s) =
    (if int (length (unread s)) - int k < m then (Inr True, s) else (Inr False, rQskipBytes k s))"
proof -
  have "rQlen (rQskipBytes k s) = int (length (unread s)) - int k"
    using assms by (simp add: rQlen_unread rq_inv_skip unread_skip of_nat_diff)
  then show ?thesis using assms(3) by (simp add: rQwait_def rQskipBytes_def)
qed

lemma expandCompactRQ_ok:
  assumes inv: "rq_inv s" and fits: "int (length (unread s) + m) \<le> MAX_RQ_GROW_SIZE"
  shows "\<exists>s'. expandCompactRQ m s = (Inr (), s') \<and> rq_inv s' \<and> unread s' = unread s
    \<and> int (rQlen' s' + m) \<le> rQbufferSize s'"
proof -
  let ?L = "length (unread s)"
  let ?req = "(int ?L + int m) * 8"
  let ?need = "rQbufferSize s < ?req"
  let ?grown = "if ?need then max (rQbufferSize s * 2) ?req else rQbufferSize s"
  let ?size = "if ?grown > MAX_RQ_GROW_SIZE then MAX_RQ_GROW_SIZE else ?grown"
  have L: "int (rQlen' s) - int (rQi s) = int ?L" and Ln: "rQlen' s - rQi s = ?L"
    using inv length_unread [OF inv] by (auto simp: rq_inv_def)
  have fit: "int ?L + int m \<le> ?size"
    using fits by auto
  have live: "take ?L (drop (rQi s) (rQ s)) = unread s"
    using Ln by (simp add: unread_def)
  define q where "q = (if ?need then write_at (replicate (nat ?size) 0) 0 (unread s)
                       else write_at (rQ s) 0 (unread s))"
  have old: "?size = rQbufferSize s" if "\<not> ?need"
    using that inv by (auto simp: rq_inv_def)
  have lens: "int (length (rQ s)) = rQbufferSize s" "?L \<le> length (rQ s)"
    using inv length_unread [OF inv] by (auto simp: rq_inv_def)
  have lenq: "int (length q) = ?size"
  proof (cases ?need)
    case True
    have "0 \<le> ?size" using fit by linarith
    with True show ?thesis by (simp only: q_def if_True length_write_at length_replicate int_nat_eq)
  next
    case False
    with lens old [OF False] show ?thesis by (simp add: q_def)
  qed
  have takeq: "take ?L q = unread s"
  proof (cases ?need)
    case True
    have "?L \<le> nat ?size" using fit by linarith
    with True show ?thesis
      using take_write_at [of 0 "unread s" "replicate (nat ?size) 0"]
      by (simp only: q_def if_True length_replicate add_0 take_0 append_Nil)
  next
    case False
    with lens take_write_at [of 0 "unread s" "rQ s"] show ?thesis by (simp add: q_def)
  qed
  define s' where "s' = s\<lparr>rQbufferSize := ?size, rQ := q, rQlen' := ?L, rQi := 0\<rparr>"
  have "expandCompactRQ m s =
      (if ?grown > MAX_RQ_GROW_SIZE \<and> ?size - rQlen s < int m
       then (Inl (JsError
             ''Receive Queue buffer exceeded 41943040 bytes, and the new message could not fit''), s\<lparr>rQbufferSize := ?size\<rparr>)
       else (Inr (), s'))"
    by (simp only: expandCompactRQ_def Let_def live Ln L s'_def q_def)
  moreover have "\<not> (?grown > MAX_RQ_GROW_SIZE \<and> ?size - rQlen s < int m)"
    using fits rQlen_unread [OF inv] by auto
  ultimately have "expandCompactRQ m s = (Inr (), s')"
    by (simp only: if_False)
  moreover have "rq_inv s'"
    using fit lenq by (simp add: s'_def rq_inv_def)
  moreover have "unread s' = unread s"
    using takeq by (simp add: s'_def unread_def [of "_\<lparr>rQi := _\<rparr>"])
  ultimately show ?thesis using fit by (auto simp: s'_def)
qed

text \<open>What arrives is appended to the unread bytes, whether the array had room, was
  compacted in place, or was replaced by a bigger one.\<close>

lemma DecodeMessage_appends:
  assumes inv: "rq_inv s" and fits: "rq_fits d s"
  shows "\<exists>s'. DecodeMessage d s = (Inr (), s') \<and> rq_inv s' \<and> unread s' = unread s @ d"
proof -
  have room: "\<exists>s'. ta_set (rQ t) (rQlen' t) d = Inr (write_at (rQ t) (rQlen' t) d) \<and>
      s' = t\<lparr>rQ := write_at (rQ t) (rQlen' t) d, rQlen' := rQlen' t + length d\<rparr> \<and>
      rq_inv s' \<and> unread s' = unread t @ d"
    if t: "rq_inv t" "int (rQlen' t + length d) \<le> rQbufferSize t" for t
  proof -
    have f: "rQlen' t + length d \<le> length (rQ t)" "rQi t \<le> rQlen' t"
      using t by (auto simp: rq_inv_def)
    then have "take (rQlen' t + length d - rQi t) (drop (rQi t) (write_at (rQ t) (rQlen' t) d))
        = drop (rQi t) (take (rQlen' t) (rQ t)) @ d"
      using drop_append [of "rQi t" "take (rQlen' t) (rQ t)" d]
      by (simp add: take_drop take_write_at)
    with f t show ?thesis by (auto simp: rq_inv_def ta_set_def unread_def drop_take)
  qed
  show ?thesis
  proof (cases "int (length d) > rQbufferSize s - int (rQlen' s)")
    case False
    with room [of s] inv show ?thesis by (auto simp: DecodeMessage_def bindx_def)
  next
    case True
    from expandCompactRQ_ok [of s "length d"] inv fits obtain t where
      t: "expandCompactRQ (length d) s = (Inr (), t)" "rq_inv t" "unread t = unread s"
        "int (rQlen' t + length d) \<le> rQbufferSize t"
      by (auto simp: rq_fits_def)
    with True room [of t] show ?thesis by (auto simp: DecodeMessage_def bindx_def)
  qed
qed

interpretation rq: fed_byte_queue rq_inv unread rQskipBytes rQwait rQshift rQshiftBytes
    rq_fits DecodeMessage
  by unfold_locales
    (auto simp: rq_inv_skip unread_skip skip_skip skip_0 rQwait_here rQwait_back rQshift_unread
      rQshiftBytes_unread DecodeMessage_appends)

section \<open>The send queue as a stream\<close>

text \<open>Everything handed to the channel, followed by what is still queued.\<close>

definition sq_inv :: "websock \<Rightarrow> bool" where
  "sq_inv s \<longleftrightarrow> length (sQ s) = sQbufferSize s \<and> sQlen s \<le> sQbufferSize s"

definition sq_room :: "websock \<Rightarrow> nat" where
  "sq_room s = sQbufferSize s - sQlen s"

definition sent_stream :: "websock \<Rightarrow> byte list" where
  "sent_stream s = concat (ws_sent s) @ take (sQlen s) (sQ s)"

definition ws_open :: "websock \<Rightarrow> bool" where
  "ws_open s \<longleftrightarrow> ws_channel s = Some OPEN"

lemma readyState_open: "readyState s = ''open'' \<longleftrightarrow> ws_open s"
  by (auto simp: readyState_def ws_open_def split: option.splits ready_state.splits)

lemma flush_stream [simp]: "sent_stream (flush s) = sent_stream s"
  by (simp add: flush_def sent_stream_def encodeMessage_def)

lemma flush_inv [simp]: "sq_inv s \<Longrightarrow> sq_inv (flush s)"
  by (simp add: flush_def sq_inv_def)

lemma flush_open [simp]: "ws_open (flush s) = ws_open s"
  by (simp add: flush_def ws_open_def)

lemma flush_empties: "ws_open s \<Longrightarrow> sQlen (flush s) = 0"
  by (simp add: flush_def readyState_open)

lemma flush_sQbufferSize [simp]: "sQbufferSize (flush s) = sQbufferSize s"
  by (simp add: flush_def)

lemma flush_rq [simp]: "rQi (flush s) = rQi s" "rQlen' (flush s) = rQlen' s" "rQ (flush s) = rQ s"
    "rQbufferSize (flush s) = rQbufferSize s"
  by (simp_all add: flush_def)

text \<open>\<open>buff[offset + i] = ...; sock._sQlen += n; sock.flush()\<close>: how every message of
  \<^verbatim>\<open>RFB.messages\<close> is written.\<close>

definition put_msg :: "int list \<Rightarrow> websock \<Rightarrow> websock" where
  "put_msg vs s = flush (s\<lparr>sQ := write_at (sQ s) (sQlen s) (map to_byte vs),
                           sQlen := sQlen s + length vs\<rparr>)"

text \<open>Writing bytes at the end of the send queue, before any flush.\<close>

lemma queued_bytes:
  assumes "sq_inv s" "length vs \<le> sq_room s" "n = length vs"
  defines "t \<equiv> s\<lparr>sQ := write_at (sQ s) (sQlen s) vs, sQlen := sQlen s + n\<rparr>"
  shows "sq_inv t" "sq_room t = sq_room s - length vs" "sent_stream t = sent_stream s @ vs"
    "ws_open t = ws_open s" "sQbufferSize t = sQbufferSize s"
proof -
  have "sQlen s + length vs \<le> length (sQ s)"
    using assms(1,2) by (auto simp: sq_inv_def sq_room_def)
  from take_write_at [OF this] assms(1,2) show "sq_inv t" "sq_room t = sq_room s - length vs"
    "sent_stream t = sent_stream s @ vs" "ws_open t = ws_open s" "sQbufferSize t = sQbufferSize s"
    by (auto simp: t_def assms(3) sq_inv_def sq_room_def sent_stream_def ws_open_def)
qed

lemma flush_closed: "\<not> ws_open s \<Longrightarrow> flush s = s"
  by (simp add: flush_def readyState_open)

lemma put_msg_stream:
  "sq_inv s \<Longrightarrow> length vs \<le> sq_room s \<Longrightarrow>
   sent_stream (put_msg vs s) = sent_stream s @ map to_byte vs"
  using queued_bytes(3) [of s "map to_byte vs"] by (simp add: put_msg_def)

lemma put_msg_inv: "sq_inv s \<Longrightarrow> length vs \<le> sq_room s \<Longrightarrow> sq_inv (put_msg vs s)"
  using queued_bytes(1) [of s "map to_byte vs"] by (simp add: put_msg_def)

lemma put_msg_open [simp]: "ws_open (put_msg vs s) = ws_open s"
  by (simp add: put_msg_def ws_open_def flush_def)

lemma put_msg_cap [simp]: "sQbufferSize (put_msg vs s) = sQbufferSize s"
  by (simp add: put_msg_def)

lemma put_msg_room: "ws_open s \<Longrightarrow> sq_room (put_msg vs s) = sQbufferSize s"
  using flush_empties [of "s\<lparr>sQ := write_at (sQ s) (sQlen s) (map to_byte vs), sQlen := sQlen s + length vs\<rparr>"]
  by (simp add: put_msg_def sq_room_def ws_open_def)

lemma put_msg_rq [simp]: "rQi (put_msg vs s) = rQi s" "rQlen' (put_msg vs s) = rQlen' s"
    "rQ (put_msg vs s) = rQ s" "rQbufferSize (put_msg vs s) = rQbufferSize s"
  by (simp_all add: put_msg_def)

lemma unread_put_msg [simp]: "unread (put_msg vs s) = unread s"
  by (simp add: unread_def)

text \<open>\<open>send\<close>: everything or \<open>RangeError\<close>, never a part.\<close>

lemma send_stream:
  assumes "sq_inv s"
  shows "send arr s = (if length arr \<le> sq_room s
    then (Inr (), flush (s\<lparr>sQ := write_at (sQ s) (sQlen s) arr, sQlen := sQlen s + length arr\<rparr>))
    else (Inl RangeError, s))"
  using assms by (auto simp: send_def ta_set_def sq_inv_def sq_room_def)

text \<open>What a client of the message writers relies on.\<close>

locale message_sink =
  fixes ok :: "'s \<Rightarrow> bool"
    and is_open :: "'s \<Rightarrow> bool"
    and room :: "'s \<Rightarrow> nat"
    and capacity :: "'s \<Rightarrow> nat"
    and stream :: "'s \<Rightarrow> byte list"
    and put :: "int list \<Rightarrow> 's \<Rightarrow> 's"
  assumes put_stream: "ok s \<Longrightarrow> length vs \<le> room s \<Longrightarrow> stream (put vs s) = stream s @ map to_byte vs"
    and put_ok: "ok s \<Longrightarrow> length vs \<le> room s \<Longrightarrow> ok (put vs s)"
    and put_open: "is_open (put vs s) = is_open s"
    and put_capacity: "capacity (put vs s) = capacity s"
    and put_room: "is_open s \<Longrightarrow> room (put vs s) = capacity s"
begin

text \<open>On an open channel any number of messages that each fit the buffer goes out whole and
  in order.\<close>

lemma puts_stream:
  assumes "ok s" "is_open s" "room s = capacity s" "\<forall>m \<in> set ms. length m \<le> capacity s"
  shows "stream (fold put ms s) = stream s @ concat (map (map to_byte) ms)"
  using assms
proof (induction ms arbitrary: s)
  case Nil
  then show ?case by simp
next
  case (Cons m ms)
  then have "stream (fold put ms (put m s)) = stream (put m s) @ concat (map (map to_byte) ms)"
    by (intro Cons.IH) (auto simp: put_ok put_open put_room put_capacity)
  with Cons.prems show ?case by (simp add: put_stream)
qed

lemma puts_open:
  assumes "ok s" "is_open s" "room s = capacity s" "\<forall>m \<in> set ms. length m \<le> capacity s"
  shows "ok (fold put ms s) \<and> is_open (fold put ms s) \<and> room (fold put ms s) = capacity s"
  using assms
proof (induction ms arbitrary: s)
  case Nil
  then show ?case by simp
next
  case (Cons m ms)
  then have "ok (fold put ms (put m s)) \<and> is_open (fold put ms (put m s))
      \<and> room (fold put ms (put m s)) = capacity (put m s)"
    by (intro Cons.IH) (auto simp: put_ok put_open put_room put_capacity)
  then show ?case by (simp add: put_capacity)
qed

end

interpretation sq: message_sink sq_inv ws_open sq_room sQbufferSize sent_stream put_msg
  by unfold_locales (simp_all add: put_msg_stream put_msg_inv put_msg_room)

section \<open>What the queues promise\<close>

text \<open>C17. What arrives is queued: a message from the channel that fits (the unread bytes and it together
  at most 40 MiB) is appended to the unread bytes, whichever of the three branches of
  \<open>_DecodeMessage\<close> and \<open>_expandCompactRQ\<close> made room, and a read that had to wait for \<open>n\<close> bytes
  then gets the first \<open>n\<close> of old and new bytes together.\<close>

theorem receive_then_read:
  assumes "rq_inv s" "rq_fits d s" "rQwait (int n) 0 s = (Inr True, s)" "n \<le> length (unread s) + length d"
  shows "\<exists>s'. DecodeMessage d s = (Inr (), s') \<and> rq_inv s' \<and> unread s' = unread s @ d \<and>
    rQwait (int n) 0 s' = (Inr False, s') \<and>
    rQshiftBytes (int n) s' = (Inr (take n (unread s @ d)), rQskipBytes n s') \<and>
    unread (rQskipBytes n s') = drop n (unread s @ d)"
proof -
  obtain s' where s': "DecodeMessage d s = (Inr (), s')" "rq_inv s'" "unread s' = unread s @ d"
    using rq.feed_ok [OF assms(1,2)] by blast
  with assms(4) have n: "n \<le> length (unread s')" by simp
  then show ?thesis
    using rq.wait_here [OF s'(2), of "int n"] rq.shift_bytes [OF s'(2) n] rq.adv_unread [OF s'(2) n] s'
    by auto
qed

text \<open>Numbers travel in network order: whatever precedes it in the array, a 16-bit number at the
  head of the unread bytes is read unsigned, a 32-bit number as its signed reading, and exactly its
  bytes are consumed.\<close>

theorem numbers_in_network_order:
  assumes "rq_inv s" "unread s = be16 x @ be32 y @ rest"
  shows "bindx rQshift16 (\<lambda>a. bindx rQshift32 (\<lambda>b. ret (a, b))) s
      = (Inr (x mod 2 ^ 16, toSigned32bit y), rQskipBytes 6 s) \<and>
    unread (rQskipBytes 6 s) = rest"
proof -
  have l: "2 \<le> length (unread s)" "2 + 4 \<le> length (unread s)" using assms(2) by simp_all
  have "rQshift16 s = (Inr (x mod 2 ^ 16), rQskipBytes 2 s)"
    using rq.shift [OF assms(1) l(1)] shift_value_be16 assms(2) by (simp add: rQshift16_def)
  moreover have "rQshift32 (rQskipBytes 2 s) = (Inr (toSigned32bit y), rQskipBytes 6 s)"
    using rq.shift_adv [OF assms(1) l(2)] shift_value_be32 assms(2)
    by (simp add: rQshift32_def be16_def)
  moreover have "unread (rQskipBytes 6 s) = rest"
    using rq.adv_unread [OF assms(1), of 6] l assms(2) by (simp add: be16_def be32_def)
  ultimately show ?thesis by (simp add: exec_simps)
qed

text \<open>A message too large for the queue is refused with an error and nothing of it is queued; but
  the recorded size of the buffer is left at the maximum although the array was not replaced, so
  the two disagree from then on.\<close>

theorem receive_overflow:
  assumes "rq_inv s" "\<not> rq_fits d s"
  shows "fst (DecodeMessage d s) = Inl (JsError
      ''Receive Queue buffer exceeded 41943040 bytes, and the new message could not fit'') \<and>
    unread (snd (DecodeMessage d s)) = unread s \<and> rQ (snd (DecodeMessage d s)) = rQ s \<and>
    rQbufferSize (snd (DecodeMessage d s)) = MAX_RQ_GROW_SIZE"
proof -
  let ?L = "int (length (unread s))" and ?m = "int (length d)"
  have L: "rQlen s = ?L" "int (rQlen' s) - int (rQi s) = ?L" "?L \<le> int (rQlen' s)"
    using assms(1) rQlen_unread [OF assms(1)] by (auto simp: rQlen_def rq_inv_def)
  have big: "MAX_RQ_GROW_SIZE < ?L + ?m" using assms(2) by (simp add: rq_fits_def)
  have M: "rQbufferSize s \<le> MAX_RQ_GROW_SIZE" "0 \<le> ?L" "0 \<le> ?m" "0 \<le> MAX_RQ_GROW_SIZE"
    using assms(1) by (simp_all add: rq_inv_def MAX_RQ_GROW_SIZE_def)
  have full: "?m > rQbufferSize s - int (rQlen' s)" using big L M by linarith
  have eight: "n < a + b \<Longrightarrow> 0 \<le> n \<Longrightarrow> n < (a + b) * 8" for n a b :: int by simp
  have req1: "MAX_RQ_GROW_SIZE < (?L + ?m) * 8" using big M(4) by (rule eight)
  then have req2: "rQbufferSize s < (?L + ?m) * 8" using M by linarith
  note req = req1 req2
  then have grown: "max (rQbufferSize s * 2) ((?L + ?m) * 8) > MAX_RQ_GROW_SIZE" by simp
  have "expandCompactRQ (length d) s = (Inl (JsError
      ''Receive Queue buffer exceeded 41943040 bytes, and the new message could not fit''),
      s\<lparr>rQbufferSize := MAX_RQ_GROW_SIZE\<rparr>)"
    unfolding expandCompactRQ_def Let_def L(1,2) using req grown big by simp
  then show ?thesis using full by (simp add: DecodeMessage_def bindx_def unread_def)
qed

text \<open>Witnesses: a freshly initialised socket, and one with bytes to read.\<close>

definition small_socket :: "byte list \<Rightarrow> websock" where
  "small_socket bs = new_websock\<lparr>rQ := bs, rQlen' := length bs, rQbufferSize := int (length bs)\<rparr>"

lemma small_socket_unread:
  "length bs \<le> 1000 \<Longrightarrow> rq_inv (small_socket bs) \<and> unread (small_socket bs) = bs"
  by (simp add: rq_inv_def small_socket_def new_websock_def unread_def MAX_RQ_GROW_SIZE_def)

theorem receive_then_read_witness:
  "\<exists>s'. DecodeMessage [3, 4] (small_socket [1, 2]) = (Inr (), s') \<and> rq_inv s' \<and>
    unread s' = unread (small_socket [1, 2]) @ [3, 4] \<and>
    rQwait (int 3) 0 s' = (Inr False, s') \<and>
    rQshiftBytes (int 3) s' = (Inr (take 3 (unread (small_socket [1, 2]) @ [3, 4])), rQskipBytes 3 s') \<and>
    unread (rQskipBytes 3 s') = drop 3 (unread (small_socket [1, 2]) @ [3, 4])"
  by (rule receive_then_read)
    (simp_all add: small_socket_unread rQwait_here rq_fits_def MAX_RQ_GROW_SIZE_def)

theorem numbers_in_network_order_witness:
  "bindx rQshift16 (\<lambda>a. bindx rQshift32 (\<lambda>b. ret (a, b))) (small_socket (be16 513 @ be32 (-257) @ [9]))
      = (Inr (513 mod 2 ^ 16, toSigned32bit (-257)), rQskipBytes 6 (small_socket (be16 513 @ be32 (-257) @ [9]))) \<and>
    unread (rQskipBytes 6 (small_socket (be16 513 @ be32 (-257) @ [9]))) = [9]"
  by (rule numbers_in_network_order) (simp_all add: small_socket_unread)

theorem receive_overflow_witness:
  "let s = small_socket [1, 2]; d = replicate 41943039 0 in
    fst (DecodeMessage d s) = Inl (JsError
      ''Receive Queue buffer exceeded 41943040 bytes, and the new message could not fit'') \<and>
    unread (snd (DecodeMessage d s)) = unread s \<and> rQ (snd (DecodeMessage d s)) = rQ s \<and>
    rQbufferSize (snd (DecodeMessage d s)) = MAX_RQ_GROW_SIZE"
  unfolding Let_def
  by (rule receive_overflow) (simp_all add: small_socket_unread rq_fits_def MAX_RQ_GROW_SIZE_def)

end
