(* ===== verification/Utf8_Strings.thy ===== *)
theory Utf8_Strings
  imports JS_Prelude
begin

text \<open>
  \<^verbatim>\<open>core/util/strings.js\<close>: UTF-8 encoding and decoding through the standard library's
  \<open>encodeURIComponent\<close>/\<open>unescape\<close> and \<open>escape\<close>/\<open>decodeURIComponent\<close> pairs. A JavaScript
  string is its list of UTF-16 code units. \<open>unescape(encodeURIComponent(s))\<close> is the UTF-8
  encoding of the code points of \<open>s\<close>, one byte per character, and throws \<open>URIError\<close> at a lone
  surrogate. \<open>decodeURIComponent(escape(s))\<close> decodes strictly: it throws \<open>URIError\<close> at an
  ill-formed sequence (overlong, surrogate, beyond U+10FFFF, truncated) and at a unit above
  255, which \<open>escape\<close> writes as \<open>%uXXXX\<close>.
\<close>

type_synonym js_string = "nat list"

section \<open>Code points and UTF-16\<close>

fun code_points :: "js_string \<Rightarrow> js_error + nat list" where
  "code_points [] = Inr []"
| "code_points (u # us) =
     (if u < 0xD800 \<or> 0xDFFF < u then
        (case code_points us of Inl e \<Rightarrow> Inl e | Inr cs \<Rightarrow> Inr (u # cs))
      else if u < 0xDC00 then
        (case us of [] \<Rightarrow> Inl URIError
         | v # vs \<Rightarrow> if 0xDC00 \<le> v \<and> v \<le> 0xDFFF then
             (case code_points vs of Inl e \<Rightarrow> Inl e
              | Inr cs \<Rightarrow> Inr (((u - 0xD800) * 0x400 + (v - 0xDC00) + 0x10000) # cs))
             else Inl URIError)
      else Inl URIError)"

definition utf16 :: "nat \<Rightarrow> js_string" where
  "utf16 c = (if c < 0x10000 then [c]
     else [0xD800 + (c - 0x10000) div 0x400, 0xDC00 + (c - 0x10000) mod 0x400])"

section \<open>UTF-8\<close>

definition utf8 :: "nat \<Rightarrow> nat list" where
  "utf8 c =
     (if c < 0x80 then [c]
      else if c < 0x800 then [0xC0 + c div 0x40, 0x80 + c mod 0x40]
      else if c < 0x10000 then [0xE0 + c div 0x1000, 0x80 + c div 0x40 mod 0x40, 0x80 + c mod 0x40]
      else [0xF0 + c div 0x40000, 0x80 + c div 0x1000 mod 0x40, 0x80 + c div 0x40 mod 0x40,
            0x80 + c mod 0x40])"

definition is_cont :: "nat \<Rightarrow> bool" where
  "is_cont b \<longleftrightarrow> 0x80 \<le> b \<and> b < 0xC0"

text \<open>A scalar value of a sequence of the given length: not overlong, no surrogate, in range.\<close>

definition scalar_ok :: "nat \<Rightarrow> nat \<Rightarrow> bool" where
  "scalar_ok least c \<longleftrightarrow> least \<le> c \<and> c \<le> 0x10FFFF \<and> (c < 0xD800 \<or> 0xDFFF < c)"

fun utf8_points :: "nat list \<Rightarrow> js_error + nat list" where
  "utf8_points [] = Inr []"
| "utf8_points (b # bs) =
     (if b < 0x80 then
        (case utf8_points bs of Inl e \<Rightarrow> Inl e | Inr cs \<Rightarrow> Inr (b # cs))
      else if 0xC0 \<le> b \<and> b < 0xE0 then
        (case bs of c1 # rest \<Rightarrow>
           let c = (b - 0xC0) * 0x40 + (c1 - 0x80) in
           if is_cont c1 \<and> scalar_ok 0x80 c then
             (case utf8_points rest of Inl e \<Rightarrow> Inl e | Inr cs \<Rightarrow> Inr (c # cs))
           else Inl URIError
         | _ \<Rightarrow> Inl URIError)
      else if 0xE0 \<le> b \<and> b < 0xF0 then
        (case bs of c1 # c2 # rest \<Rightarrow>
           let c = (b - 0xE0) * 0x1000 + (c1 - 0x80) * 0x40 + (c2 - 0x80) in
           if is_cont c1 \<and> is_cont c2 \<and> scalar_ok 0x800 c then
             (case utf8_points rest of Inl e \<Rightarrow> Inl e | Inr cs \<Rightarrow> Inr (c # cs))
           else Inl URIError
         | _ \<Rightarrow> Inl URIError)
      else if 0xF0 \<le> b \<and> b < 0xF8 then
        (case bs of c1 # c2 # c3 # rest \<Rightarrow>
           let c = (b - 0xF0) * 0x40000 + (c1 - 0x80) * 0x1000 + (c2 - 0x80) * 0x40 + (c3 - 0x80) in
           if is_cont c1 \<and> is_cont c2 \<and> is_cont c3 \<and> scalar_ok 0x10000 c then
             (case utf8_points rest of Inl e \<Rightarrow> Inl e | Inr cs \<Rightarrow> Inr (c # cs))
           else Inl URIError
         | _ \<Rightarrow> Inl URIError)
      else Inl URIError)"

section \<open>The two functions of the module\<close>

definition encodeUTF8 :: "js_string \<Rightarrow> js_error + byte list" where
  "encodeUTF8 DOMString =
     (case code_points DOMString of Inl e \<Rightarrow> Inl e
      | Inr cs \<Rightarrow> Inr (map (\<lambda>b. to_byte (int b)) (concat (map utf8 cs))))"

definition decodeUTF8 :: "js_string \<Rightarrow> bool \<Rightarrow> js_error + js_string" where
  "decodeUTF8 utf8string allowLatin1 =
     (case (if list_all (\<lambda>u. u < 256) utf8string then utf8_points utf8string else Inl URIError) of
        Inr cs \<Rightarrow> Inr (concat (map utf16 cs))
      | Inl e \<Rightarrow> if e = URIError \<and> allowLatin1 then Inr utf8string else Inl e)"

definition units_of_bytes :: "byte list \<Rightarrow> js_string" where
  "units_of_bytes bs = map unat bs"

section \<open>Round trip\<close>

definition scalar :: "nat \<Rightarrow> bool" where
  "scalar c \<longleftrightarrow> c \<le> 0x10FFFF \<and> (c < 0xD800 \<or> 0xDFFF < c)"

lemma utf8_bytes: "scalar c \<Longrightarrow> list_all (\<lambda>b. b < 256) (utf8 c)"
proof -
  assume "scalar c"
  then have "c div 0x40000 \<le> 0x10FFFF div 0x40000"
    by (intro div_le_mono) (simp add: scalar_def)
  then show ?thesis by (auto simp: utf8_def scalar_def)
qed

lemma utf8_points_utf8:
  assumes "scalar c"
  shows "utf8_points (utf8 c @ bs) =
    (case utf8_points bs of Inl e \<Rightarrow> Inl e | Inr cs \<Rightarrow> Inr (c # cs))"
proof -
  consider "c < 0x80" | "0x80 \<le> c" "c < 0x800" | "0x800 \<le> c" "c < 0x10000" | "0x10000 \<le> c"
    by linarith
  then show ?thesis
  proof cases
    case 1
    then show ?thesis by (simp add: utf8_def)
  next
    case 2
    define a b where "a = c div 64" and "b = c mod 64"
    have "a < 32" "b < 64" "a * 64 + b = c"
      using 2 by (simp_all add: a_def b_def less_mult_imp_div_less)
    moreover have "utf8 c = [192 + a, 128 + b]" using 2 by (simp add: utf8_def a_def b_def)
    ultimately show ?thesis using 2 by (simp add: is_cont_def scalar_ok_def)
  next
    case 3
    define a b d where "a = c div 4096" and "b = c div 64 mod 64" and "d = c mod 64"
    have "a < 16" "b < 64" "d < 64" using 3 by (simp_all add: a_def b_def d_def less_mult_imp_div_less)
    moreover have "a * 4096 + b * 64 + d = c"
      using mult_div_mod_eq [of 64 c] mult_div_mod_eq [of 64 "c div 64"]
      unfolding a_def b_def d_def div_mult2_eq [of c 64 64, simplified] by linarith
    moreover have "utf8 c = [224 + a, 128 + b, 128 + d]"
      using 3 by (simp add: utf8_def a_def b_def d_def)
    ultimately show ?thesis using 3 assms
      by (simp add: is_cont_def scalar_ok_def scalar_def)
  next
    case 4
    define a b d e where "a = c div 262144" and "b = c div 4096 mod 64"
      and "d = c div 64 mod 64" and "e = c mod 64"
    have "a < 8" using assms by (simp add: a_def scalar_def less_mult_imp_div_less)
    moreover have "b < 64" "d < 64" "e < 64" by (simp_all add: b_def d_def e_def)
    moreover have "a * 262144 + b * 4096 + d * 64 + e = c"
      using mult_div_mod_eq [of 64 c] mult_div_mod_eq [of 64 "c div 64"]
        mult_div_mod_eq [of 64 "c div 64 div 64"]
      unfolding a_def b_def d_def e_def div_mult2_eq [of c 64 64, simplified]
        div_mult2_eq [of c 4096 64, simplified] by linarith
    moreover have "utf8 c = [240 + a, 128 + b, 128 + d, 128 + e]"
      using 4 by (simp add: utf8_def a_def b_def d_def e_def)
    ultimately show ?thesis using 4 assms
      by (simp add: is_cont_def scalar_ok_def scalar_def)
  qed
qed

lemma utf8_points_concat:
  "list_all scalar cs \<Longrightarrow> utf8_points (concat (map utf8 cs)) = Inr cs"
  by (induction cs) (simp_all add: utf8_points_utf8)

text \<open>Decoding UTF-16 gives scalar values, and encoding them again gives the string back.\<close>

lemma code_points_utf16:
  "code_points s = Inr cs \<Longrightarrow> list_all (\<lambda>u. u < 0x10000) s \<Longrightarrow>
   list_all scalar cs \<and> concat (map utf16 cs) = s"
proof (induction s arbitrary: cs rule: code_points.induct)
  case 1
  then show ?case by simp
next
  case (2 u us)
  show ?case
  proof (cases "u < 0xD800 \<or> 0xDFFF < u")
    case True
    with 2 show ?thesis by (auto simp: scalar_def utf16_def split: sum.splits)
  next
    case False
    with "2.prems" obtain v vs cs' where
      us: "us = v # vs" "0xDC00 \<le> v" "v \<le> 0xDFFF" "u < 0xDC00"
      and cs': "code_points vs = Inr cs'"
      and cs: "cs = ((u - 0xD800) * 0x400 + (v - 0xDC00) + 0x10000) # cs'"
      by (auto split: if_splits list.splits sum.splits)
    let ?c = "(u - 0xD800) * 0x400 + (v - 0xDC00) + 0x10000"
    have "list_all scalar cs' \<and> concat (map utf16 cs') = vs"
      using "2.IH"(2) [OF _ _ us(1)] False us cs' "2.prems"(2) by simp
    moreover have "scalar ?c" using False us by (simp add: scalar_def)
    moreover have "utf16 ?c = [u, v]"
    proof -
      have "?c - 0x10000 = (u - 0xD800) * 0x400 + (v - 0xDC00)" "v - 0xDC00 < 0x400"
        using us by simp_all
      then have "(?c - 0x10000) div 0x400 = u - 0xD800" "(?c - 0x10000) mod 0x400 = v - 0xDC00"
        by (simp_all only: div_mult_self3 mod_mult_self3 div_less mod_less)
      with False us show ?thesis by (simp add: utf16_def)
    qed
    ultimately show ?thesis by (simp add: cs us)
  qed
qed

lemma units_to_byte: "list_all (\<lambda>b. b < 256) bs \<Longrightarrow> units_of_bytes (map (\<lambda>b. to_byte (int b)) bs) = bs"
  unfolding units_of_bytes_def map_map
  by (rule map_idI) (auto simp: list_all_iff unat_eq_nat_uint uint_to_byte)

lemma units_small: "list_all (\<lambda>u. u < 256) (units_of_bytes bs)"
proof -
  have "unat (b :: byte) < 256" for b using unsigned_less [of b] by simp
  then show ?thesis by (simp add: units_of_bytes_def list_all_iff)
qed

lemma encode_decode:
  assumes "encodeUTF8 s = Inr bs" and "list_all (\<lambda>u. u < 0x10000) s"
  shows "decodeUTF8 (units_of_bytes bs) a = Inr s"
proof -
  from assms(1) obtain cs where cs: "code_points s = Inr cs"
    and bs: "bs = map (\<lambda>b. to_byte (int b)) (concat (map utf8 cs))"
    by (auto simp: encodeUTF8_def split: sum.splits)
  from code_points_utf16 [OF cs assms(2)]
  have sc: "list_all scalar cs" and s: "concat (map utf16 cs) = s" by auto
  have "list_all (\<lambda>b. b < 256) (concat (map utf8 cs))"
    using sc utf8_bytes by (auto simp: list_all_iff)
  then have "units_of_bytes bs = concat (map utf8 cs)"
    unfolding bs by (rule units_to_byte)
  then show ?thesis
    using units_small [of bs] by (simp add: decodeUTF8_def utf8_points_concat sc s)
qed

text \<open>C27. Encoding a string and decoding the bytes gives the string back, for every string that can be
  encoded (the others, with a lone surrogate, raise \<open>URIError\<close>), whether or not the decoder is allowed
  to fall back to the undecoded text.\<close>

theorem utf8_roundtrip:
  assumes "encodeUTF8 s = Inr bs" "list_all (\<lambda>u. u < 0x10000) s"
  shows "decodeUTF8 (units_of_bytes bs) a = Inr s"
  using assms by (rule encode_decode)

theorem utf8_roundtrip_witness:
  "\<exists>bs. encodeUTF8 [104, 233, 0xD83D, 0xDE00] = Inr bs \<and>
    decodeUTF8 (units_of_bytes bs) False = Inr [104, 233, 0xD83D, 0xDE00]"
proof -
  obtain bs where "encodeUTF8 [104, 233, 0xD83D, 0xDE00] = Inr bs"
    by (simp add: encodeUTF8_def)
  then show ?thesis using utf8_roundtrip [of "[104, 233, 0xD83D, 0xDE00]" bs False] by simp
qed

end
