(* ===== verification/Client_Messages.thy ===== *)
theory Client_Messages
  imports Websock_Queues Utf8_Strings "HOL-Library.While_Combinator"
begin

text \<open>
  The client-to-server messages, \<^verbatim>\<open>RFB.messages\<close> of \<^verbatim>\<open>core/rfb.js\<close>: each writer puts its
  bytes into the send queue at \<open>sock._sQlen\<close> and flushes. \<open>clientCutText\<close> sends its data
  in pieces as large as the send buffer; its loop is a \<open>while_option\<close>, so that a loop that
  never ends is the result \<open>None\<close>. \<open>Deflator.deflate\<close> is a parameter of the one writer
  that compresses.
\<close>

section \<open>Input and control messages\<close>

definition keyEvent :: "int \<Rightarrow> int \<Rightarrow> websock \<Rightarrow> websock" where
  "keyEvent keysym down =
     put_msg [4, down, 0, 0, js_sar keysym 24, js_sar keysym 16, js_sar keysym 8, keysym]"

definition getRFBkeycode :: "int \<Rightarrow> int \<Rightarrow> int" where
  "getRFBkeycode keycode xtScanCode =
     (let upperByte = js_sar keycode 8; lowerByte = js_and keycode 0x00ff in
      if upperByte = 0xe0 \<and> lowerByte < 0x7f then js_or lowerByte 0x80 else xtScanCode)"

definition QEMUExtendedKeyEvent :: "int \<Rightarrow> int \<Rightarrow> int \<Rightarrow> websock \<Rightarrow> websock" where
  "QEMUExtendedKeyEvent keysym down keycode =
     (let RFBkeycode = getRFBkeycode keycode keycode in
      put_msg [255, 0, js_sar down 8, down,
        js_sar keysym 24, js_sar keysym 16, js_sar keysym 8, keysym,
        js_sar RFBkeycode 24, js_sar RFBkeycode 16, js_sar RFBkeycode 8, RFBkeycode])"

definition pointerEvent :: "int \<Rightarrow> int \<Rightarrow> int \<Rightarrow> websock \<Rightarrow> websock" where
  "pointerEvent x y bmask = put_msg [5, bmask, js_sar x 8, x, js_sar y 8, y]"

definition setDesktopSize :: "int \<Rightarrow> int \<Rightarrow> int \<Rightarrow> int \<Rightarrow> websock \<Rightarrow> websock" where
  "setDesktopSize width height sid flags =
     put_msg [251, 0, js_sar width 8, width, js_sar height 8, height,
       1, 0,
       js_sar sid 24, js_sar sid 16, js_sar sid 8, sid,
       0, 0, 0, 0,
       js_sar width 8, width, js_sar height 8, height,
       js_sar flags 24, js_sar flags 16, js_sar flags 8, flags]"

definition clientFence :: "int \<Rightarrow> string \<Rightarrow> websock \<Rightarrow> websock" where
  "clientFence flags payload =
     put_msg ([248, 0, 0, 0, js_sar flags 24, js_sar flags 16, js_sar flags 8, flags,
       int (length payload)] @ map (\<lambda>c. int (of_char c)) payload)"

definition enableContinuousUpdates :: "bool \<Rightarrow> int \<Rightarrow> int \<Rightarrow> int \<Rightarrow> int \<Rightarrow> websock \<Rightarrow> websock" where
  "enableContinuousUpdates enable x y width height =
     put_msg [150, of_bool enable, js_sar x 8, x, js_sar y 8, y,
       js_sar width 8, width, js_sar height 8, height]"

definition pixelFormat :: "int \<Rightarrow> bool \<Rightarrow> websock \<Rightarrow> websock" where
  "pixelFormat depth trueColor =
     (let bpp = (if depth > 16 then 32 else if depth > 8 then 16 else 8);
          bits = depth div 3 in
      put_msg [0, 0, 0, 0, bpp, depth, 0, if trueColor then 1 else 0,
        0, js_shl 1 (nat bits) - 1, 0, js_shl 1 (nat bits) - 1, 0, js_shl 1 (nat bits) - 1,
        bits * 0, bits * 1, bits * 2, 0, 0, 0])"

definition clientEncodings :: "int list \<Rightarrow> websock \<Rightarrow> websock" where
  "clientEncodings encs =
     put_msg ([2, 0, js_sar (int (length encs)) 8, int (length encs)] @
       concat (map (\<lambda>enc. [js_sar enc 24, js_sar enc 16, js_sar enc 8, enc]) encs))"

definition fbUpdateRequest :: "bool \<Rightarrow> int \<Rightarrow> int \<Rightarrow> int \<Rightarrow> int \<Rightarrow> websock \<Rightarrow> websock" where
  "fbUpdateRequest incremental x y w h =
     put_msg [3, if incremental then 1 else 0,
       js_and (js_sar x 8) 0xFF, js_and x 0xFF, js_and (js_sar y 8) 0xFF, js_and y 0xFF,
       js_and (js_sar w 8) 0xFF, js_and w 0xFF, js_and (js_sar h 8) 0xFF, js_and h 0xFF]"

definition xvpOp :: "int \<Rightarrow> int \<Rightarrow> websock \<Rightarrow> websock" where
  "xvpOp ver op = put_msg [250, 0, ver, op]"

section \<open>Clipboard messages\<close>

definition cutText_header :: "int \<Rightarrow> websock \<Rightarrow> websock" where
  "cutText_header len s =
     s\<lparr>sQ := write_at (sQ s) (sQlen s) (map to_byte
          [6, 0, 0, 0, js_sar len 24, js_sar len 16, js_sar len 8, len]),
       sQlen := sQlen s + 8\<rparr>"

text \<open>One round of the loop: fill the send buffer, flush, move on in the data. The state is
  \<open>(remaining, dataOffset, sock)\<close>.\<close>

definition cutText_step :: "byte list \<Rightarrow> int \<times> nat \<times> websock \<Rightarrow> int \<times> nat \<times> websock" where
  "cutText_step data = (\<lambda>(remaining, dataOffset, s).
     let flushSize = min remaining (int (sQbufferSize s) - int (sQlen s));
         s' = flush (s\<lparr>sQ := write_at (sQ s) (sQlen s) (take (nat flushSize) (drop dataOffset data)),
                       sQlen := nat (int (sQlen s) + flushSize)\<rparr>)
     in (remaining - flushSize, nat (int dataOffset + flushSize), s'))"

definition cutText_loop :: "byte list \<Rightarrow> int \<times> nat \<times> websock \<Rightarrow> (int \<times> nat \<times> websock) option" where
  "cutText_loop data = while_option (\<lambda>(remaining, _, _). remaining > 0) (cutText_step data)"

definition clientCutText :: "byte list \<Rightarrow> bool \<Rightarrow> websock \<Rightarrow> websock option" where
  "clientCutText data extended s =
     (let len = (if extended then toUnsigned32bit (- int (length data)) else int (length data)) in
      map_option (\<lambda>(_, _, s'). s')
        (cutText_loop data (int (length data), 0, cutText_header len s)))"

definition extendedClipboardFormatText :: int where
  "extendedClipboardFormatText = 1"

definition extendedClipboardActionCaps :: int where
  "extendedClipboardActionCaps = js_shl 1 24"

definition extendedClipboardActionRequest :: int where
  "extendedClipboardActionRequest = js_shl 1 25"

definition extendedClipboardActionPeek :: int where
  "extendedClipboardActionPeek = js_shl 1 26"

definition extendedClipboardActionNotify :: int where
  "extendedClipboardActionNotify = js_shl 1 27"

definition extendedClipboardActionProvide :: int where
  "extendedClipboardActionProvide = js_shl 1 28"

definition buildExtendedClipboardFlags :: "int list \<Rightarrow> int list \<Rightarrow> byte list" where
  "buildExtendedClipboardFlags actions formats =
     (let actionFlag = foldl js_or 0 actions; formatFlag = foldl js_or 0 formats in
      [to_byte (js_sar actionFlag 24), 0, 0, to_byte formatFlag])"

definition extendedClipboardNotify :: "int list \<Rightarrow> websock \<Rightarrow> websock option" where
  "extendedClipboardNotify formats =
     clientCutText (buildExtendedClipboardFlags [extendedClipboardActionNotify] formats) True"

definition extendedClipboardRequest :: "int list \<Rightarrow> websock \<Rightarrow> websock option" where
  "extendedClipboardRequest formats =
     clientCutText (buildExtendedClipboardFlags [extendedClipboardActionRequest] formats) True"

text \<open>\<open>extendedClipboardCaps\<close>: the keys of the \<open>formats\<close> object are strings; a key is given
  here by the number it converts to, \<open>None\<close> for \<open>NaN\<close>. The comparison function sorts
  numeric keys; with \<open>NaN\<close> keys it compares nothing and the order stays.\<close>

definition sort_format_keys :: "(int option \<times> int) list \<Rightarrow> (int option \<times> int) list" where
  "sort_format_keys formats =
     (if list_all (\<lambda>(k, _). k \<noteq> None) formats then sort_key (\<lambda>(k, _). the k) formats else formats)"

definition extendedClipboardCaps :: "int list \<Rightarrow> (int option \<times> int) list \<Rightarrow> websock \<Rightarrow> websock option" where
  "extendedClipboardCaps actions formats =
     (let keys = sort_format_keys formats;
          flags = buildExtendedClipboardFlags actions [];
          sizes = concat (map (\<lambda>(_, size). map to_byte
            [js_sar size 24, js_sar size 16, js_sar size 8, js_sar size 0]) keys);
          formatFlag = foldl (\<lambda>acc (k, _). to_byte (js_or (uint acc)
            (js_shl 1 (case k of None \<Rightarrow> 0 | Some n \<Rightarrow> nat (n mod 32))))) (flags ! 3) keys
      in clientCutText (flags[3 := formatFlag] @ sizes) True)"

text \<open>\<open>inData[i].replace(/\r\n|\r|\n/gm, "\r\n")\<close>: every line end becomes CR LF (13, 10).\<close>

fun crlf :: "js_string \<Rightarrow> js_string" where
  "crlf [] = []"
| "crlf (c # cs) =
     (if c = 13 then (case cs of d # ds \<Rightarrow> if d = 10 then 13 # 10 # crlf ds else 13 # 10 # crlf cs
                      | [] \<Rightarrow> [13, 10])
      else if c = 10 then 13 # 10 # crlf cs else c # crlf cs)"

fun provide_texts :: "int list \<Rightarrow> js_string list \<Rightarrow> js_error + byte list" where
  "provide_texts [] inData = Inr []"
| "provide_texts (f # fs) inData =
     (if f \<noteq> extendedClipboardFormatText
      then Inl (JsError ''Unsupported extended clipboard format for Provide message.'')
      else (case inData of [] \<Rightarrow> Inl TypeError
        | d # ds \<Rightarrow> (case encodeUTF8 (crlf d @ [0]) of Inl e \<Rightarrow> Inl e
          | Inr t \<Rightarrow> (let n = int (length t) in
              case provide_texts fs ds of Inl e \<Rightarrow> Inl e
              | Inr rest \<Rightarrow> Inr (map to_byte [js_and (js_sar n 24) 0xFF, js_and (js_sar n 16) 0xFF,
                  js_and (js_sar n 8) 0xFF, js_and n 0xFF] @ t @ rest)))))"

definition extendedClipboardProvide ::
  "(byte list \<Rightarrow> byte list) \<Rightarrow> int list \<Rightarrow> js_string list \<Rightarrow> websock \<Rightarrow> js_error + websock option" where
  "extendedClipboardProvide deflate formats inData s =
     (case provide_texts formats inData of
        Inl e \<Rightarrow> Inl e
      | Inr dataToDeflate \<Rightarrow> Inr (clientCutText
          (buildExtendedClipboardFlags [extendedClipboardActionProvide] formats @ deflate dataToDeflate)
          True s))"

section \<open>What goes over the wire\<close>

lemmas wire_simps = be16_def be32_def to_byte_sar to_byte_and255

lemma length_be32s [simp]: "length (concat (map be32 xs)) = 4 * length xs"
  by (induction xs) simp_all

lemma encodings_bytes:
  "map to_byte (concat (map (\<lambda>enc. [js_sar enc 24, js_sar enc 16, js_sar enc 8, enc]) encs))
   = concat (map be32 encs)"
  by (induction encs) (simp_all add: wire_simps)

lemma length_encodings:
  "length (concat (map (\<lambda>enc. [js_sar enc 24, js_sar enc 16, js_sar enc 8, enc]) encs)) = 4 * length encs"
  by (induction encs) simp_all

lemma char_byte: "to_byte (int (of_char c)) = word_of_nat (of_char c)"
  by (simp add: to_byte_def)

text \<open>A key event is eight bytes of the stream: the type 4, the down flag, two zero bytes and
  the keysym in network order; a pointer event is six: the type 5, the button mask and the two
  coordinates. Nothing else is added and the send queue stays well formed.\<close>

theorem input_events_wire:
  assumes "sq_inv s" "8 \<le> sq_room s"
  shows "sent_stream (keyEvent keysym down s) = sent_stream s @ [4, to_byte down, 0, 0] @ be32 keysym \<and>
    sent_stream (pointerEvent x y bmask s) = sent_stream s @ [5, to_byte bmask] @ be16 x @ be16 y \<and>
    sq_inv (keyEvent keysym down s) \<and> sq_inv (pointerEvent x y bmask s)"
  using assms sq.put_stream [of s] sq.put_ok [of s]
  by (simp_all add: keyEvent_def pointerEvent_def wire_simps) (simp_all add: to_byte_def)

text \<open>The list of encodings goes out as its 16-bit count and one 32-bit word per encoding,
  negative pseudo-encoding numbers in two's complement, in the order given.\<close>

theorem clientEncodings_wire:
  assumes "sq_inv s" "4 + 4 * length encs \<le> sq_room s"
  shows "sent_stream (clientEncodings encs s)
    = sent_stream s @ [2, 0] @ be16 (int (length encs)) @ concat (map be32 encs)"
  using assms sq.put_stream [of s "[2, 0, js_sar (int (length encs)) 8, int (length encs)] @
       concat (map (\<lambda>enc. [js_sar enc 24, js_sar enc 16, js_sar enc 8, enc]) encs)"]
  by (simp add: clientEncodings_def encodings_bytes length_encodings be16_def to_byte_sar)
     (simp add: to_byte_def)

text \<open>The QEMU key message carries the scancode in the form the server expects: an
  \<open>0xe0\<close>-prefixed code is folded into its low byte with bit 7 set.\<close>

lemma getRFBkeycode_prefixed:
  assumes "0 \<le> c" "c < 0x7f"
  shows "getRFBkeycode (0xe000 + c) d = js_or c 0x80"
proof -
  have "js_sar (0xe000 + c) 8 = 0xe0"
    using assms by (simp add: js_sar_def toSigned32bit_nonneg drop_bit_eq_div)
  moreover have "js_and (0xe000 + c) 255 = c"
    using assms mod_mult_self1 [of c 224 256]
    by (simp add: js_and_255 toSigned32bit_nonneg take_bit_eq_mod add.commute)
  ultimately show ?thesis using assms by (simp add: getRFBkeycode_def)
qed

section \<open>Cut text: long data, open and closed channels\<close>

lemma cutText_step_props:
  assumes "sq_inv s" "remaining = int (length data - dataOffset)" "dataOffset \<le> length data"
    and "cutText_step data (remaining, dataOffset, s) = (remaining', dataOffset', s')"
  shows "sq_inv s' \<and> remaining' = int (length data - dataOffset') \<and> dataOffset' \<le> length data
    \<and> remaining' = remaining - min remaining (int (sq_room s))
    \<and> sent_stream s' @ drop dataOffset' data = sent_stream s @ drop dataOffset data
    \<and> ws_open s' = ws_open s \<and> sQbufferSize s' = sQbufferSize s
    \<and> (ws_open s \<longrightarrow> sQlen s' = 0)
    \<and> (\<not> ws_open s \<longrightarrow> sQlen s' = sQlen s + nat (min remaining (int (sq_room s))))"
proof -
  let ?k = "min (length data - dataOffset) (sq_room s)"
  have k: "min remaining (int (sQbufferSize s) - int (sQlen s)) = int ?k"
    using assms(1,2) by (auto simp: sq_inv_def sq_room_def of_nat_diff)
  let ?d = "take ?k (drop dataOffset data)"
  define t where "t = s\<lparr>sQ := write_at (sQ s) (sQlen s) ?d, sQlen := sQlen s + ?k\<rparr>"
  have out: "remaining' = remaining - int ?k" "dataOffset' = dataOffset + ?k" "s' = flush t"
    using assms(4) unfolding cutText_step_def Let_def prod.case k t_def
    by (auto simp: nat_int_add)
  have len: "length ?d = ?k" using assms(3) by simp
  have room: "length ?d \<le> sq_room s" unfolding len by simp
  note t = queued_bytes [OF assms(1) room len [symmetric], folded t_def]
  have dr: "drop dataOffset data = ?d @ drop dataOffset' data"
    using append_take_drop_id [of ?k "drop dataOffset data"] by (simp add: out add.commute)
  have closed: "\<not> ws_open s \<Longrightarrow> sQlen s' = sQlen s + ?k"
    using t(4) by (simp add: out(3) flush_closed, simp add: t_def)
  show ?thesis
    using assms(2,3) t dr closed flush_empties [of t] by (auto simp: out of_nat_diff)
qed

lemma cutText_loop_unfold:
  "cutText_loop data (r, pos, s) =
    (if r > 0 then cutText_loop data (cutText_step data (r, pos, s)) else Some (r, pos, s))"
  unfolding cutText_loop_def by (subst while_option_unfold) simp

text \<open>Once the buffer is empty and the channel open, the loop hands over all that is left.\<close>

lemma cutText_loop_open:
  assumes "sq_inv s" "ws_open s" "0 < sQbufferSize s" "dataOffset \<le> length data"
    and "0 < sq_room s"
  shows "\<exists>r pos s'. cutText_loop data (int (length data - dataOffset), dataOffset, s) = Some (r, pos, s')
    \<and> sq_inv s' \<and> ws_open s' \<and> sQbufferSize s' = sQbufferSize s
    \<and> sent_stream s' = sent_stream s @ drop dataOffset data
    \<and> (dataOffset < length data \<or> sQlen s = 0 \<longrightarrow> sQlen s' = 0)"
  using assms
proof (induction "length data - dataOffset" arbitrary: dataOffset s rule: less_induct)
  case less
  show ?case
  proof (cases "length data - dataOffset = 0")
    case True
    with less.prems show ?thesis
      by (auto simp: cutText_loop_unfold)
  next
    case False
    obtain r' pos' s' where st:
      "cutText_step data (int (length data - dataOffset), dataOffset, s) = (r', pos', s')"
      by (metis prod_cases3)
    from cutText_step_props [OF less.prems(1) refl less.prems(4) st]
    have p: "sq_inv s'" "r' = int (length data - pos')" "pos' \<le> length data"
      "r' = int (length data - dataOffset) - min (int (length data - dataOffset)) (int (sq_room s))"
      "sent_stream s' @ drop pos' data = sent_stream s @ drop dataOffset data"
      "ws_open s'" "sQbufferSize s' = sQbufferSize s" "sQlen s' = 0"
      using less.prems(2) by auto
    have "0 < sq_room s'" using p less.prems(3) by (simp add: sq_room_def)
    moreover have "length data - pos' < length data - dataOffset"
      using p(2,4) False less.prems(5) by linarith
    ultimately obtain r pos s'' where
      "cutText_loop data (int (length data - pos'), pos', s') = Some (r, pos, s'')"
      "sq_inv s''" "ws_open s''" "sQbufferSize s'' = sQbufferSize s'"
      "sent_stream s'' = sent_stream s' @ drop pos' data" "sQlen s'' = 0"
      using less.hyps [of pos' s'] p less.prems(3) by auto
    with p(2,5,7) False st show ?thesis
      by (subst cutText_loop_unfold) auto
  qed
qed

lemma cutText_header_props:
  assumes "sq_inv s" "8 \<le> sq_room s"
  shows "sq_inv (cutText_header len s) \<and> sq_room (cutText_header len s) = sq_room s - 8
    \<and> sent_stream (cutText_header len s) = sent_stream s @ [6, 0, 0, 0] @ be32 len"
proof -
  let ?vs = "map to_byte [6, 0, 0, 0, js_sar len 24, js_sar len 16, js_sar len 8, len]"
  have "length ?vs \<le> sq_room s" "8 = length ?vs" using assms(2) by simp_all
  note t = queued_bytes [OF assms(1) this, folded cutText_header_def]
  have "?vs = [6, 0, 0, 0] @ be32 len"
    by (simp add: be32_def to_byte_sar) (simp add: to_byte_def)
  with t show ?thesis by simp
qed

text \<open>C18. On an open channel whose send buffer has room for more than the header, \<open>clientCutText\<close> ends, whatever
  the size of the data against the 10 KiB send buffer, and the stream gains exactly the header and the data: the
  type 6, three zero bytes, the length (its negation in two's complement for the extended form) and every byte once and
  in order. Everything has been handed to the channel when it returns, what was still queued before first. Only
  where there is no data nothing is handed over: the loop is not entered, and the header stays in the send buffer until
  the next message.\<close>

theorem clientCutText_sends:
  assumes "sq_inv s" "ws_open s" "8 < sq_room s"
  shows "\<exists>s'. clientCutText data extended s = Some s' \<and> sq_inv s' \<and> ws_open s' \<and>
    sent_stream s' = sent_stream s @ [6, 0, 0, 0] @
      be32 (if extended then - int (length data) else int (length data)) @ data \<and>
    (if data = [] then ws_sent s' = ws_sent s \<and> sQlen s' = sQlen s + 8
     else sQlen s' = 0 \<and> concat (ws_sent s') = sent_stream s @ [6, 0, 0, 0] @
       be32 (if extended then - int (length data) else int (length data)) @ data)"
proof -
  define len where "len = (if extended then toUnsigned32bit (- int (length data)) else int (length data))"
  let ?h = "cutText_header len s"
  have be: "be32 (toUnsigned32bit v) = be32 v" for v
  proof -
    have "to_byte (drop_bit n (toUnsigned32bit v)) = to_byte (drop_bit n v)" if "n \<le> 24" for n
      using that by (intro to_byte_cong bit_eqI)
        (auto simp: toUnsigned32bit_def bit_take_bit_iff bit_drop_bit_eq)
    from this [of 0] this [of 8] this [of 16] this [of 24] show ?thesis by (simp add: be32_def)
  qed
  have h: "sq_inv ?h" "0 < sq_room ?h" "sent_stream ?h = sent_stream s @ [6, 0, 0, 0] @ be32 len"
    using cutText_header_props [of s len] assms by simp_all
  moreover have "ws_open ?h" "0 < sQbufferSize ?h"
    using assms by (simp_all add: cutText_header_def ws_open_def sq_room_def)
  ultimately obtain r pos s' where l:
    "cutText_loop data (int (length data - 0), 0, ?h) = Some (r, pos, s')" "sq_inv s'" "ws_open s'"
    "sent_stream s' = sent_stream ?h @ drop 0 data" "data \<noteq> [] \<longrightarrow> sQlen s' = 0"
    using cutText_loop_open [of ?h 0 data] by auto
  have "concat (ws_sent s') = sent_stream s'" if "data \<noteq> []" using l(5) that by (simp add: sent_stream_def)
  moreover have "s' = ?h" if "data = []" using l(1) that by (simp add: cutText_loop_unfold)
  then have "ws_sent s' = ws_sent s \<and> sQlen s' = sQlen s + 8" if "data = []"
    using that by (simp add: cutText_header_def)
  ultimately show ?thesis using h(3) l
    by (cases "data = []") (auto simp: clientCutText_def len_def be)
qed

text \<open>C36. On a channel that is not open, \<open>flush\<close> keeps the buffer full, so data that does not fit
  the rest of the send buffer makes the loop of \<open>clientCutText\<close> run forever.\<close>

theorem clientCutText_stuck:
  assumes "sq_inv s" "\<not> ws_open s" "8 \<le> sq_room s" "sq_room s - 8 < length data"
  shows "clientCutText data extended s = None"
proof -
  define len where "len = (if extended then toUnsigned32bit (- int (length data)) else int (length data))"
  let ?h = "cutText_header len s"
  let ?P = "\<lambda>(r, pos, t). sq_inv t \<and> \<not> ws_open t \<and> pos \<le> length data \<and>
    r = int (length data - pos) \<and> int (sq_room t) < r"
  have h: "?P (int (length data), 0, ?h)"
    using cutText_header_props [of s len] assms by (auto simp: cutText_header_def ws_open_def)
  have step: "?P (cutText_step data st)" if "?P st" for st
  proof -
    obtain r pos t where st: "st = (r, pos, t)" by (cases st)
    obtain r' pos' t' where e: "cutText_step data (r, pos, t) = (r', pos', t')" by (metis prod_cases3)
    from that st have pre: "sq_inv t" "r = int (length data - pos)" "pos \<le> length data"
      "int (sq_room t) < r" "\<not> ws_open t" by auto
    from cutText_step_props [OF pre(1,2,3) e] pre have
      "sq_inv t'" "r' = int (length data - pos')" "pos' \<le> length data" "\<not> ws_open t'"
      "r' = r - int (sq_room t)" "sQbufferSize t' = sQbufferSize t" "sQlen t' = sQlen t + sq_room t"
      by auto
    moreover from this pre have "sq_room t' = 0" by (auto simp: sq_room_def sq_inv_def)
    ultimately show ?thesis using pre unfolding st e by auto
  qed
  have "cutText_loop data (int (length data), 0, ?h) = None"
  proof (rule ccontr)
    assume "cutText_loop data (int (length data), 0, ?h) \<noteq> None"
    then obtain t where t: "cutText_loop data (int (length data), 0, ?h) = Some t" by blast
    have "?P t"
      by (rule while_option_rule [where P = ?P, OF _ t [unfolded cutText_loop_def] h]) (rule step)
    moreover have "\<not> (case t of (remaining, _, _) \<Rightarrow> remaining > 0)"
      using while_option_stop [OF t [unfolded cutText_loop_def]] .
    ultimately show False by (auto split: prod.splits)
  qed
  then show ?thesis by (simp add: clientCutText_def len_def)
qed

section \<open>Witnesses\<close>

definition open_socket :: websock where
  "open_socket = new_websock\<lparr>ws_channel := Some OPEN, sQ := replicate 10240 0\<rparr>"

definition closed_socket :: websock where
  "closed_socket = new_websock\<lparr>ws_channel := Some CLOSED, sQ := replicate 10 0, sQbufferSize := 10\<rparr>"

lemma open_socket_ok: "sq_inv open_socket \<and> ws_open open_socket \<and> sq_room open_socket = 10240"
  by (simp add: open_socket_def new_websock_def sq_inv_def ws_open_def sq_room_def)

lemma closed_socket_ok: "sq_inv closed_socket \<and> \<not> ws_open closed_socket \<and> sq_room closed_socket = 10"
  by (simp add: closed_socket_def new_websock_def sq_inv_def ws_open_def sq_room_def)

theorem input_events_wire_witness:
  "sent_stream (keyEvent 65 1 open_socket) = sent_stream open_socket @ [4, to_byte 1, 0, 0] @ be32 65 \<and>
    sent_stream (pointerEvent 3 4 1 open_socket) = sent_stream open_socket @ [5, to_byte 1] @ be16 3 @ be16 4 \<and>
    sq_inv (keyEvent 65 1 open_socket) \<and> sq_inv (pointerEvent 3 4 1 open_socket)"
  by (rule input_events_wire) (simp_all add: open_socket_ok)

theorem clientEncodings_wire_witness:
  "sent_stream (clientEncodings [7, -223] open_socket)
    = sent_stream open_socket @ [2, 0] @ be16 (int (length [7, -223 :: int])) @ concat (map be32 [7, -223])"
  by (rule clientEncodings_wire) (simp_all add: open_socket_ok)

theorem clientCutText_sends_witness:
  "\<exists>s'. clientCutText [104, 105] True open_socket = Some s' \<and> sq_inv s' \<and> ws_open s' \<and>
    sQlen s' = 0 \<and> concat (ws_sent s') = sent_stream open_socket @ [6, 0, 0, 0] @ be32 (- 2) @ [104, 105]"
  using clientCutText_sends [of open_socket "[104, 105]" True] by (auto simp: open_socket_ok)

theorem clientCutText_stuck_witness: "clientCutText [1, 2, 3] False closed_socket = None"
  by (rule clientCutText_stuck) (simp_all add: closed_socket_ok)

end
