(* ===== verification/Base64_Codec.thy ===== *)
theory Base64_Codec
  imports JS_Prelude
begin

text \<open>
  \<^verbatim>\<open>core/base64.js\<close>: the encoder the display uses for image data URIs, and the decoder. A
  decoded array is a list of optional numbers: \<open>new Array(n)\<close> starts with \<open>n\<close> holes (\<open>None\<close>)
  and an assignment at its end extends it.
\<close>

section \<open>Encoding\<close>

definition toBase64Table :: string where
  "toBase64Table = ''ABCDEFGHIJKLMNOPQRSTUVWXYZabcdefghijklmnopqrstuvwxyz0123456789+/=''"

definition b64 :: "int \<Rightarrow> char" where
  "b64 i = toBase64Table ! nat i"

text \<open>The loop over whole triples, then the one or two bytes that remain.\<close>

fun encode64 :: "int list \<Rightarrow> string" where
  "encode64 (d0 # d1 # d2 # ds) =
     [b64 (js_sar d0 2),
      b64 (js_shl (js_and d0 0x03) 4 + js_sar d1 4),
      b64 (js_shl (js_and d1 0x0f) 2 + js_sar d2 6),
      b64 (js_and d2 0x3f)] @ encode64 ds"
| "encode64 [d0, d1] =
     [b64 (js_sar d0 2),
      b64 (js_shl (js_and d0 0x03) 4 + js_sar d1 4),
      b64 (js_shl (js_and d1 0x0f) 2),
      b64 64]"
| "encode64 [d0] = [b64 (js_sar d0 2), b64 (js_shl (js_and d0 0x03) 4), b64 64, b64 64]"
| "encode64 [] = []"

section \<open>Decoding\<close>

definition toBinaryTable :: "int list" where
  "toBinaryTable = [
        -1,-1,-1,-1, -1,-1,-1,-1, -1,-1,-1,-1, -1,-1,-1,-1,
        -1,-1,-1,-1, -1,-1,-1,-1, -1,-1,-1,-1, -1,-1,-1,-1,
        -1,-1,-1,-1, -1,-1,-1,-1, -1,-1,-1,62, -1,-1,-1,63,
        52,53,54,55, 56,57,58,59, 60,61,-1,-1, -1, 0,-1,-1,
        -1, 0, 1, 2,  3, 4, 5, 6,  7, 8, 9,10, 11,12,13,14,
        15,16,17,18, 19,20,21,22, 23,24,25,-1, -1,-1,-1,-1,
        -1,26,27,28, 29,30,31,32, 33,34,35,36, 37,38,39,40,
        41,42,43,44, 45,46,47,48, 49,50,51,-1, -1,-1,-1,-1]"

text \<open>\<open>data.indexOf('=')\<close>, and the predicted length of the result.\<close>

fun index_of :: "char \<Rightarrow> string \<Rightarrow> int" where
  "index_of c [] = -1"
| "index_of c (d # ds) = (if d = c then 0 else let i = index_of c ds in if i < 0 then i else i + 1)"

definition decode_length :: "string \<Rightarrow> nat \<Rightarrow> nat" where
  "decode_length data offset =
     (let d = index_of CHR ''='' data - int offset;
          dataLength = (if d < 0 then int (length data) - int offset else d)
      in nat (js_sar dataLength 2 * 3 + (dataLength mod 4) * 2 div 3))"

definition store :: "int option list \<Rightarrow> nat \<Rightarrow> int \<Rightarrow> int option list" where
  "store result idx v = (if idx < length result then result[idx := Some v]
     else result @ replicate (idx - length result) None @ [Some v])"

fun decode64_loop ::
  "string \<Rightarrow> nat \<Rightarrow> int \<Rightarrow> int \<Rightarrow> int option list \<Rightarrow> js_error + int option list" where
  "decode64_loop [] idx leftbits leftdata result =
     (if leftbits \<noteq> 0 then Inl (JsError ''Corrupted base64 string'') else Inr result)"
| "decode64_loop (ch # chs) idx leftbits leftdata result =
     (let c = toBinaryTable ! nat (js_and (int (of_char ch)) 0x7f);
          padding = (ch = CHR ''='') in
      if c = -1 then decode64_loop chs idx leftbits leftdata result
      else
        let leftdata = js_or (js_shl leftdata 6) c; leftbits = leftbits + 6 in
        if leftbits \<ge> 8 then
          let leftbits = leftbits - 8;
              out = js_and (js_sar leftdata (nat leftbits)) 0xff;
              leftdata' = js_and leftdata (js_shl 1 (nat leftbits) - 1) in
          if \<not> padding then decode64_loop chs (idx + 1) leftbits leftdata' (store result idx out)
          else decode64_loop chs idx leftbits leftdata' result
        else decode64_loop chs idx leftbits leftdata result)"

definition decode64 :: "string \<Rightarrow> nat \<Rightarrow> js_error + int option list" where
  "decode64 data offset =
     decode64_loop (drop offset data) 0 0 0 (replicate (decode_length data offset) None)"

declare decode64_loop.simps(2) [simp del]

section \<open>Round trip\<close>

lemma table_inverse:
  "map (\<lambda>ch. toBinaryTable ! nat (int (of_char ch) mod 128)) (take 64 toBase64Table) = map int [0..<64]"
  by (simp add: toBase64Table_def toBinaryTable_def upt_conv_Cons)

lemma table_no_pad: "list_all (\<lambda>ch. ch \<noteq> CHR ''='') (take 64 toBase64Table)"
  by (simp add: toBase64Table_def)

lemma length_table: "length toBase64Table = 65"
  by (simp add: toBase64Table_def)

lemma b64_binary:
  assumes "0 \<le> v" "v < 64"
  shows "toBinaryTable ! nat (js_and (int (of_char (b64 v))) 0x7f) = v"
proof -
  have "of_char (b64 v) < (256 :: nat)" by simp
  then have "int (of_char (b64 v)) < 2147483648" by linarith
  then have "js_and (int (of_char (b64 v))) 127 = int (of_char (b64 v)) mod 128"
    by (intro js_and_masks of_nat_0_le_iff)
  moreover have "map (\<lambda>ch. toBinaryTable ! nat (int (of_char ch) mod 128)) (take 64 toBase64Table) ! nat v = v"
    using assms unfolding table_inverse by simp
  moreover have "nat v < length (take 64 toBase64Table)" "nat v < 64"
    using assms by (simp_all add: length_table)
  ultimately show ?thesis by (simp add: b64_def)
qed

lemma b64_not_pad: "0 \<le> v \<Longrightarrow> v < 64 \<Longrightarrow> b64 v \<noteq> CHR ''=''"
proof -
  assume "0 \<le> v" "v < 64"
  then have "nat v < length (take 64 toBase64Table)" by (simp add: length_table)
  with table_no_pad have "take 64 toBase64Table ! nat v \<noteq> CHR ''=''"
    unfolding list_all_length by blast
  with \<open>v < 64\<close> show ?thesis by (simp add: b64_def)
qed

lemma b64_pad: "b64 64 = CHR ''=''"
  by (simp add: b64_def toBase64Table_def)

text \<open>One character of the alphabet shifts six bits in, and a byte out when there are eight.\<close>

lemma decode_step:
  assumes "0 \<le> v" "v < 64" "0 \<le> ld" "ld < 2 ^ nat lb" "0 \<le> lb" "lb < 8"
  shows "decode64_loop (b64 v # chs) idx lb ld res =
    (let ld' = ld * 64 + v in
     if 2 \<le> lb then decode64_loop chs (idx + 1) (lb - 2) (ld' mod 2 ^ nat (lb - 2))
            (store res idx (ld' div 2 ^ nat (lb - 2) mod 256))
     else decode64_loop chs idx (lb + 6) ld' res)"
proof -
  have "(2::int) ^ nat lb \<le> 2 ^ 7" using assms by (intro power_increasing) simp_all
  then have ld: "ld < 128" using assms by simp
  have "js_shl ld 6 = ld * 2 ^ 6" using assms ld by (intro js_shl_nonneg) simp_all
  then have or: "js_or (js_shl ld 6) v = ld * 64 + v"
    using js_or_disjoint [of ld v 6] assms ld by simp
  have and_m: "js_and (ld * 64 + v) (js_shl 1 (nat (lb - 2)) - 1) = (ld * 64 + v) mod 2 ^ nat (lb - 2)"
    if "2 \<le> lb"
  proof -
    have k: "nat (lb - 2) \<le> 30" using assms by simp
    have "(2::int) ^ nat (lb - 2) \<le> 2 ^ 30" using k by (intro power_increasing) simp_all
    then have "js_shl 1 (nat (lb - 2)) = 2 ^ nat (lb - 2)"
      using js_shl_nonneg [of 1 "nat (lb - 2)"] k by simp
    then show ?thesis using js_and_mask [of "ld * 64 + v" "nat (lb - 2)"] assms ld k by simp
  qed
  have out: "js_and (js_sar (ld * 64 + v) (nat (lb - 2))) 0xff = (ld * 64 + v) div 2 ^ nat (lb - 2) mod 256"
  proof -
    have sar: "js_sar (ld * 64 + v) (nat (lb - 2)) = (ld * 64 + v) div 2 ^ nat (lb - 2)"
      using assms ld by (intro js_sar_nonneg) simp_all
    have "(ld * 64 + v) div 2 ^ nat (lb - 2) \<le> ld * 64 + v"
      using zdiv_mono2 [of "ld * 64 + v" 1 "2 ^ nat (lb - 2)"] assms by simp
    then show ?thesis unfolding sar using assms ld
      by (intro js_and_masks) (simp_all add: pos_imp_zdiv_nonneg_iff)
  qed
  show ?thesis
    using assms and_m out
    by (simp add: decode64_loop.simps b64_binary b64_not_pad or Let_def algebra_simps)
qed

lemma decode_pad:
  assumes "0 \<le> lb" "lb < 8"
  shows "decode64_loop (CHR ''='' # chs) idx lb 0 res =
    (if 2 \<le> lb then decode64_loop chs idx (lb - 2) 0 res else decode64_loop chs idx (lb + 6) 0 res)"
proof -
  have "js_and 61 127 = 61" by (simp add: js_and_masks)
  then have c: "toBinaryTable ! nat (js_and (int (of_char CHR ''='')) 0x7f) = 0"
    by (simp add: toBinaryTable_def)
  have z: "js_or (js_shl 0 6) 0 = 0" "js_and 0 x = 0" for x
    by (simp_all add: js_shl_def js_or_def js_and_def toSigned32bit_nonneg)
  show ?thesis using assms unfolding decode64_loop.simps c z Let_def by (simp add: algebra_simps)
qed

text \<open>The six-bit pieces of a triple, and what one group of four characters decodes to.\<close>

lemma pieces:
  assumes "0 \<le> d0" "d0 < 256" "0 \<le> d1" "d1 < 256" "0 \<le> d2" "d2 < 256"
  shows "js_sar d0 2 = d0 div 4"
    and "js_shl (js_and d0 0x03) 4 + js_sar d1 4 = d0 mod 4 * 16 + d1 div 16"
    and "js_shl (js_and d1 0x0f) 2 + js_sar d2 6 = d1 mod 16 * 4 + d2 div 64"
    and "js_and d2 0x3f = d2 mod 64"
    and "js_shl (js_and d0 0x03) 4 = d0 mod 4 * 16"
    and "js_shl (js_and d1 0x0f) 2 = d1 mod 16 * 4"
proof -
  have m: "js_and d0 3 = d0 mod 4" "js_and d1 15 = d1 mod 16" "js_and d2 63 = d2 mod 64"
    using assms js_and_masks by simp_all
  have s: "js_sar d0 2 = d0 div 4" "js_sar d1 4 = d1 div 16" "js_sar d2 6 = d2 div 64"
    using assms by (simp_all add: js_sar_nonneg)
  have "d0 mod 4 < 4" "d1 mod 16 < 16" by simp_all
  then have l: "js_shl (d0 mod 4) 4 = d0 mod 4 * 16" "js_shl (d1 mod 16) 2 = d1 mod 16 * 4"
    using js_shl_nonneg [of "d0 mod 4" 4] js_shl_nonneg [of "d1 mod 16" 2] by simp_all
  show "js_sar d0 2 = d0 div 4"
    "js_shl (js_and d0 0x03) 4 + js_sar d1 4 = d0 mod 4 * 16 + d1 div 16"
    "js_shl (js_and d1 0x0f) 2 + js_sar d2 6 = d1 mod 16 * 4 + d2 div 64"
    "js_and d2 0x3f = d2 mod 64" "js_shl (js_and d0 0x03) 4 = d0 mod 4 * 16"
    "js_shl (js_and d1 0x0f) 2 = d1 mod 16 * 4" by (simp_all only: m s l)
qed

definition is_byte :: "int \<Rightarrow> bool" where
  "is_byte d \<longleftrightarrow> 0 \<le> d \<and> d < 256"

lemma byte_bounds:
  assumes "is_byte d"
  shows "0 \<le> d" "d < 256" "0 \<le> d div 4" "d div 4 < 64" "0 \<le> d div 16" "d div 16 < 16"
    "0 \<le> d div 64" "d div 64 < 4"
  using assms by (auto simp: is_byte_def)

lemma sextets:
  assumes "is_byte d" "is_byte e"
  shows "b64 (d div 4) \<noteq> CHR ''=''" "b64 (d mod 4 * 16 + e div 16) \<noteq> CHR ''=''"
    "b64 (d mod 16 * 4 + e div 64) \<noteq> CHR ''=''" "b64 (d mod 64) \<noteq> CHR ''=''"
    "b64 (d mod 4 * 16) \<noteq> CHR ''=''" "b64 (d mod 16 * 4) \<noteq> CHR ''=''"
proof -
  note bd = byte_bounds [OF assms(1)] and be = byte_bounds [OF assms(2)]
  have m: "0 \<le> d mod 4" "d mod 4 < 4" "0 \<le> d mod 16" "d mod 16 < 16" "0 \<le> d mod 64" "d mod 64 < 64"
    by simp_all
  show "b64 (d div 4) \<noteq> CHR ''=''" by (rule b64_not_pad) (use bd in linarith)+
  show "b64 (d mod 4 * 16 + e div 16) \<noteq> CHR ''=''" by (rule b64_not_pad) (use m be in linarith)+
  show "b64 (d mod 16 * 4 + e div 64) \<noteq> CHR ''=''" by (rule b64_not_pad) (use m be in linarith)+
  show "b64 (d mod 64) \<noteq> CHR ''=''" by (rule b64_not_pad) (use m in linarith)+
  show "b64 (d mod 4 * 16) \<noteq> CHR ''=''" by (rule b64_not_pad) (use m in linarith)+
  show "b64 (d mod 16 * 4) \<noteq> CHR ''=''" by (rule b64_not_pad) (use m in linarith)+
qed

lemma decode_pair:
  assumes "is_byte d0" "is_byte d1" "0 \<le> v" "v < 16"
  shows "decode64_loop (b64 (d0 div 4) # b64 (d0 mod 4 * 16 + v) # chs) idx 0 0 res
    = decode64_loop chs (idx + 1) 4 v (store res idx d0)"
proof -
  have r: "0 \<le> d0 div 4" "d0 div 4 < 64" "0 \<le> d0 mod 4" "d0 mod 4 < 4"
    using assms(1) by (auto simp: is_byte_def)
  have e: "d0 div 4 * 64 + (d0 mod 4 * 16 + v) = d0 * 16 + v"
    using div_mult_mod_eq [of d0 4] by linarith
  have "(d0 * 16 + v) div 16 = d0" "(d0 * 16 + v) mod 16 = v"
    using assms(3,4) by simp_all
  note this [folded e]
  with r assms show ?thesis
    by (simp add: decode_step is_byte_def Let_def)
qed

lemma decode_third:
  assumes "is_byte d1" "0 \<le> v" "v < 4"
  shows "decode64_loop (b64 (d1 mod 16 * 4 + v) # chs) idx 4 (d1 div 16) res
    = decode64_loop chs (idx + 1) 2 v (store res idx d1)"
proof -
  have r: "0 \<le> d1 div 16" "d1 div 16 < 16" "0 \<le> d1 mod 16" "d1 mod 16 < 16"
    using assms(1) by (auto simp: is_byte_def)
  have e: "d1 div 16 * 64 + (d1 mod 16 * 4 + v) = d1 * 4 + v"
    using div_mult_mod_eq [of d1 16] by linarith
  have "(d1 * 4 + v) div 4 = d1" "(d1 * 4 + v) mod 4 = v"
    using assms(2,3) by simp_all
  note this [folded e]
  with r assms show ?thesis
    by (simp add: decode_step is_byte_def Let_def)
qed

lemma decode_fourth:
  assumes "is_byte d2"
  shows "decode64_loop (b64 (d2 mod 64) # chs) idx 2 (d2 div 64) res
    = decode64_loop chs (idx + 1) 0 0 (store res idx d2)"
proof -
  have "0 \<le> d2 div 64" "d2 div 64 < 4" "0 \<le> d2 mod 64" "d2 mod 64 < 64"
    using assms by (auto simp: is_byte_def)
  moreover have "d2 div 64 * 64 + d2 mod 64 = d2" by simp
  ultimately show ?thesis using assms
    by (simp add: decode_step is_byte_def Let_def)
qed

lemma store_in: "idx < length res \<Longrightarrow> store res idx v = res[idx := Some v]"
  by (simp add: store_def)

lemma fill_step:
  "idx < length res \<Longrightarrow> take (Suc idx) (res[idx := Some d]) = take idx res @ [Some d]"
  by (simp add: take_Suc_conv_app_nth)

lemma decode_encoded:
  assumes "list_all is_byte ds" "length res = idx + length ds"
  shows "decode64_loop (encode64 ds) idx 0 0 res = Inr (take idx res @ map Some ds)"
  using assms
proof (induction ds arbitrary: idx res rule: encode64.induct)
  case (1 d0 d1 d2 ds)
  then have b: "is_byte d0" "is_byte d1" "is_byte d2" by simp_all
  let ?res = "store (store (store res idx d0) (idx + 1) d1) (idx + 2) d2"
  from b have r: "0 \<le> d1 div 16" "d1 div 16 < 16" "0 \<le> d2 div 64" "d2 div 64 < 4"
    by (auto simp: is_byte_def)
  have "decode64_loop (encode64 (d0 # d1 # d2 # ds)) idx 0 0 res
      = decode64_loop (encode64 ds) (idx + 3) 0 0 ?res"
    using b r decode_pair [OF b(1,2) r(1,2)] decode_third [OF b(2) r(3,4)] decode_fourth [OF b(3)]
      pieces [of d0 d1 d2]
    by (simp add: is_byte_def eval_nat_numeral)
  also have "\<dots> = Inr (take (idx + 3) ?res @ map Some ds)"
    using "1.prems" by (intro "1.IH") (simp_all add: store_in)
  also have "?res = res[idx := Some d0, idx + 1 := Some d1, idx + 2 := Some d2]"
    using "1.prems"(2) by (simp add: store_in)
  also have "take (idx + 3) \<dots> = take idx res @ [Some d0, Some d1, Some d2]"
    using "1.prems"(2) by (simp add: numeral_3_eq_3 fill_step)
  finally show ?case by simp
next
  case (2 d0 d1)
  then have b: "is_byte d0" "is_byte d1" by simp_all
  then have r: "0 \<le> d1 div 16" "d1 div 16 < 16" by (auto simp: is_byte_def)
  have "decode64_loop (encode64 [d0, d1]) idx 0 0 res = Inr (store (store res idx d0) (idx + 1) d1)"
    using b r decode_pair [of d0 d1 "d1 div 16"] decode_third [of d1 0] decode_pad [of 2 "[]"]
      pieces [of d0 d1 0]
    by (simp add: is_byte_def b64_pad)
  also have "store (store res idx d0) (idx + 1) d1 = take idx res @ [Some d0, Some d1]"
    using "2.prems"(2) by (intro nth_equalityI) (auto simp: store_in nth_append nth_list_update less_Suc_eq)
  finally show ?case by simp
next
  case (3 d0)
  then have b: "is_byte d0" by simp
  have "decode64_loop (encode64 [d0]) idx 0 0 res = Inr (store res idx d0)"
    using b decode_pair [of d0 0 0] decode_pad [of 4 "[CHR ''='']"] decode_pad [of 2 "[]"]
      pieces [of d0 0 0]
    by (simp add: is_byte_def b64_pad)
  also have "store res idx d0 = take idx res @ [Some d0]"
    using "3.prems"(2) by (intro nth_equalityI) (auto simp: store_in nth_append nth_list_update less_Suc_eq)
  finally show ?case by simp
next
  case 4
  then show ?case by simp
qed

lemma index_of_absent: "list_all (\<lambda>d. d \<noteq> c) ds \<Longrightarrow> index_of c ds = -1"
  by (induction ds) simp_all

lemma index_of_first: "list_all (\<lambda>d. d \<noteq> c) ds \<Longrightarrow> index_of c (ds @ c # es) = int (length ds)"
  by (induction ds) (simp_all add: Let_def)

lemma three_more: "Suc (Suc (Suc n)) div 3 = Suc (n div 3)" "Suc (Suc (Suc n)) mod 3 = n mod 3"
  by (simp_all add: numeral_3_eq_3 [symmetric] div_Suc mod_Suc) presburger+

text \<open>The encoded text: characters of the alphabet, then the padding.\<close>

lemma encoded_shape:
  assumes "list_all is_byte ds"
  shows "\<exists>body pad. encode64 ds = body @ replicate pad CHR ''='' \<and>
    list_all (\<lambda>ch. ch \<noteq> CHR ''='') body \<and>
    (pad = 0 \<and> length ds mod 3 = 0 \<and> length body = length ds div 3 * 4
     \<or> pad = 1 \<and> length ds mod 3 = 2 \<and> length body = length ds div 3 * 4 + 3
     \<or> pad = 2 \<and> length ds mod 3 = 1 \<and> length body = length ds div 3 * 4 + 2)"
  using assms
proof (induction ds rule: encode64.induct)
  case (1 d0 d1 d2 ds)
  then obtain body pad where ih: "encode64 ds = body @ replicate pad CHR ''=''"
    "list_all (\<lambda>ch. ch \<noteq> CHR ''='') body"
    "pad = 0 \<and> length ds mod 3 = 0 \<and> length body = length ds div 3 * 4
     \<or> pad = 1 \<and> length ds mod 3 = 2 \<and> length body = length ds div 3 * 4 + 3
     \<or> pad = 2 \<and> length ds mod 3 = 1 \<and> length body = length ds div 3 * 4 + 2" by auto
  let ?q = "[b64 (d0 div 4), b64 (d0 mod 4 * 16 + d1 div 16), b64 (d1 mod 16 * 4 + d2 div 64), b64 (d2 mod 64)]"
  from 1 have b: "is_byte d0" "is_byte d1" "is_byte d2" by simp_all
  have "list_all (\<lambda>ch. ch \<noteq> CHR ''='') ?q"
    by (simp only: list.pred_inject sextets [OF b(1,2)] sextets [OF b(2,3)] sextets [OF b(3,3)]
        simp_thms)
  moreover have "encode64 (d0 # d1 # d2 # ds) = (?q @ body) @ replicate pad CHR ''=''"
    unfolding encode64.simps ih(1) append.simps append_assoc pieces(1-4) [OF byte_bounds(1,2) [OF b(1)]
        byte_bounds(1,2) [OF b(2)] byte_bounds(1,2) [OF b(3)]] ..
  moreover have l: "length (d0 # d1 # d2 # ds) div 3 = Suc (length ds div 3)"
    "length (d0 # d1 # d2 # ds) mod 3 = length ds mod 3"
    by (simp_all only: list.size add.right_neutral add_Suc_right three_more)
  have "pad = 0 \<and> length (d0 # d1 # d2 # ds) mod 3 = 0
      \<and> length (?q @ body) = length (d0 # d1 # d2 # ds) div 3 * 4
    \<or> pad = 1 \<and> length (d0 # d1 # d2 # ds) mod 3 = 2
      \<and> length (?q @ body) = length (d0 # d1 # d2 # ds) div 3 * 4 + 3
    \<or> pad = 2 \<and> length (d0 # d1 # d2 # ds) mod 3 = 1
      \<and> length (?q @ body) = length (d0 # d1 # d2 # ds) div 3 * 4 + 2"
    using ih(3) unfolding l by (elim disjE) simp_all
  ultimately show ?case using ih(2)
    by (intro exI [of _ "?q @ body"] exI [of _ pad] conjI) (simp_all only: list_all_append)
next
  case (2 d0 d1)
  let ?q = "[b64 (d0 div 4), b64 (d0 mod 4 * 16 + d1 div 16), b64 (d1 mod 16 * 4)]"
  from 2 have b: "is_byte d0" "is_byte d1" by simp_all
  then have r: "0 \<le> d0 div 4" "d0 div 4 < 64" "0 \<le> d1 div 16" "d1 div 16 < 16"
    "d0 mod 4 < 4" "d1 mod 16 < 16" by (auto simp: is_byte_def)
  then have "list_all (\<lambda>ch. ch \<noteq> CHR ''='') ?q" by (simp add: b64_not_pad)
  moreover have "encode64 [d0, d1] = ?q @ replicate 1 CHR ''=''"
    using b pieces [of d0 d1 0] by (simp add: is_byte_def b64_pad)
  ultimately show ?case by (intro exI [of _ ?q] exI [of _ 1]) simp
next
  case (3 d0)
  let ?q = "[b64 (d0 div 4), b64 (d0 mod 4 * 16)]"
  from 3 have b: "is_byte d0" by simp
  then have r: "0 \<le> d0 div 4" "d0 div 4 < 64" "d0 mod 4 < 4" by (auto simp: is_byte_def)
  then have "list_all (\<lambda>ch. ch \<noteq> CHR ''='') ?q" by (simp add: b64_not_pad)
  moreover have "encode64 [d0] = ?q @ replicate 2 CHR ''=''"
    using b pieces [of d0 0 0] by (simp add: is_byte_def b64_pad numeral_2_eq_2)
  ultimately show ?case by (intro exI [of _ ?q] exI [of _ 2]) simp
next
  case 4
  show ?case by (intro exI [of _ "[]"] exI [of _ 0]) simp
qed

lemma nat_of_length:
  "nat (int n div 4 * 3 + int n mod 4 * 2 div 3) = n div 4 * 3 + n mod 4 * 2 div 3"
proof -
  have "int n div 4 * 3 + int n mod 4 * 2 div 3 = int (n div 4 * 3 + n mod 4 * 2 div 3)"
    by (simp add: of_nat_div of_nat_mod)
  then show ?thesis by (simp only: nat_int)
qed

lemma group_sizes:
  fixes q :: nat
  shows "q * 4 div 4 * 3 + q * 4 mod 4 * 2 div 3 = q * 3 + 0"
    and "(q * 4 + 3) div 4 * 3 + (q * 4 + 3) mod 4 * 2 div 3 = q * 3 + 2"
    and "(q * 4 + 2) div 4 * 3 + (q * 4 + 2) mod 4 * 2 div 3 = q * 3 + 1"
proof -
  have "(q * 4 + 3) div 4 = q" "(q * 4 + 3) mod 4 = 3" "(q * 4 + 2) div 4 = q" "(q * 4 + 2) mod 4 = 2"
    by presburger+
  then show "q * 4 div 4 * 3 + q * 4 mod 4 * 2 div 3 = q * 3 + 0"
    "(q * 4 + 3) div 4 * 3 + (q * 4 + 3) mod 4 * 2 div 3 = q * 3 + 2"
    "(q * 4 + 2) div 4 * 3 + (q * 4 + 2) mod 4 * 2 div 3 = q * 3 + 1" by simp_all
qed

lemma decode_length_encoded:
  assumes "list_all is_byte ds" "length ds < 2 ^ 30"
  shows "decode_length (encode64 ds) 0 = length ds"
proof -
  obtain body pad where e: "encode64 ds = body @ replicate pad CHR ''=''"
    "list_all (\<lambda>ch. ch \<noteq> CHR ''='') body"
    and c: "pad = 0 \<and> length ds mod 3 = 0 \<and> length body = length ds div 3 * 4
     \<or> pad = 1 \<and> length ds mod 3 = 2 \<and> length body = length ds div 3 * 4 + 3
     \<or> pad = 2 \<and> length ds mod 3 = 1 \<and> length body = length ds div 3 * 4 + 2"
    using encoded_shape [OF assms(1)] by (elim exE conjE) (rule that)
  let ?d = "index_of CHR ''='' (encode64 ds)"
  have "?d = (if pad = 0 then -1 else int (length body))"
    using index_of_absent [OF e(2)] index_of_first [OF e(2), of "replicate (pad - 1) CHR ''=''"] e(1)
    by (cases pad) simp_all
  then have d: "(if ?d < 0 then int (length (encode64 ds)) - int 0 else ?d) = int (length body)"
    using e(1) by (auto simp: index_of_first)
  have lb: "length body < 2147483648" using c assms(2) by auto
  have "js_sar (int (length body)) 2 = int (length body) div 4"
    using lb by (simp add: js_sar_nonneg)
  with d have "decode_length (encode64 ds) 0
      = nat (int (length body) div 4 * 3 + int (length body) mod 4 * 2 div 3)"
    by (simp add: decode_length_def Let_def split del: if_split)
  also have "\<dots> = length body div 4 * 3 + length body mod 4 * 2 div 3"
    by (rule nat_of_length)
  also have "\<dots> = length ds div 3 * 3 + length ds mod 3"
    using c by (elim disjE conjE) (simp_all only: group_sizes)
  finally show ?thesis by simp
qed

text \<open>C26. Decoding what the encoder produced gives back the data, for every array of bytes (up to
  \<open>2 ^ 30\<close> of them, where the length arithmetic of the decoder stays in 32 bits): every element,
  in order, no hole left in the result and no error.\<close>

theorem base64_roundtrip:
  assumes "list_all is_byte ds" "length ds < 2 ^ 30"
  shows "decode64 (encode64 ds) 0 = Inr (map Some ds)"
  using assms by (simp add: decode64_def decode_length_encoded decode_encoded)

theorem base64_roundtrip_witness:
  "decode64 (encode64 [77, 97, 110, 255]) 0 = Inr [Some 77, Some 97, Some 110, Some 255]"
  using base64_roundtrip [of "[77, 97, 110, 255]"] by (simp add: is_byte_def)

end
