(* ===== verification/DES_Cipher.thy ===== *)
theory DES_Cipher
  imports JS_Prelude
begin

text \<open>
  \<^verbatim>\<open>core/des.js\<close>: the DES variant of VNC authentication. The code computes on 32-bit
  integers with shifts and the bitwise operators only, so its numbers are \<open>32 word\<close>s here: \<open>>>>\<close> is
  \<open>drop_bit\<close>, \<open><<\<close> is \<open>push_bit\<close>. A password is the list of its character codes, as
  \<open>RFB.genDES\<close> passes it. The lemmas show that the cipher permutes the blocks and which bits of a
  password reach the key schedule.
\<close>

type_synonym u32 = "32 word"

section \<open>Tables\<close>

definition PC2 :: "nat list" where
  "PC2 = [
    13, 16, 10, 23, 0, 4, 2, 27, 14, 5, 20, 9, 22, 18, 11, 3,
    25, 7, 15, 6, 26, 19, 12, 1, 40, 51, 30, 36, 46, 54, 29, 39,
    50, 44, 32, 47, 43, 48, 38, 55, 33, 52, 45, 41, 49, 35, 28, 31]"

definition totrot :: "nat list" where
  "totrot = [1, 2, 4, 6, 8, 10, 12, 14, 15, 17, 19, 21, 23, 25, 27, 28]"

text \<open>The eight substitution tables, written in the seven constants the code computes for each.\<close>

definition sp_table ::
  "u32 \<Rightarrow> u32 \<Rightarrow> u32 \<Rightarrow> u32 \<Rightarrow>
   (u32 \<Rightarrow> u32 \<Rightarrow> u32 \<Rightarrow> u32 \<Rightarrow> u32 \<Rightarrow> u32 \<Rightarrow> u32 \<Rightarrow> u32 list) \<Rightarrow> u32 list" where
  "sp_table a b d e t = t 0 a b (a OR b) d e (d OR e)"

definition SP1 :: "u32 list" where
  "SP1 = sp_table (push_bit 16 1) (push_bit 24 1) (push_bit 2 1) (push_bit 10 1) (\<lambda>z a b c d e f. [
    c OR e, z OR z, a OR z, c OR f, c OR d, a OR f, z OR d, a OR z,
    z OR e, c OR e, c OR f, z OR e, b OR f, c OR d, b OR z, z OR d,
    z OR f, b OR e, b OR e, a OR e, a OR e, c OR z, c OR z, b OR f,
    a OR d, b OR d, b OR d, a OR d, z OR z, z OR f, a OR f, b OR z,
    a OR z, c OR f, z OR d, c OR z, c OR e, b OR z, b OR z, z OR e,
    c OR d, a OR z, a OR e, b OR d, z OR e, z OR d, b OR f, a OR f,
    c OR f, a OR d, c OR z, b OR f, b OR d, z OR f, a OR f, c OR e,
    z OR f, b OR e, b OR e, z OR z, a OR d, a OR e, z OR z, c OR d])"

definition SP2 :: "u32 list" where
  "SP2 = sp_table (push_bit 20 1) (push_bit 31 1) (push_bit 5 1) (push_bit 15 1) (\<lambda>z a b c d e f. [
    c OR f, b OR e, z OR e, a OR f, a OR z, z OR d, c OR d, b OR f,
    b OR d, c OR f, c OR e, b OR z, b OR e, a OR z, z OR d, c OR d,
    a OR e, a OR d, b OR f, z OR z, b OR z, z OR e, a OR f, c OR z,
    a OR d, b OR d, z OR z, a OR e, z OR f, c OR e, c OR z, z OR f,
    z OR z, a OR f, c OR d, a OR z, b OR f, c OR z, c OR e, z OR e,
    c OR z, b OR e, z OR d, c OR f, a OR f, z OR d, z OR e, b OR z,
    z OR f, c OR e, a OR z, b OR d, a OR d, b OR f, b OR d, a OR d,
    a OR e, z OR z, b OR e, z OR f, b OR z, c OR d, c OR f, a OR e])"

definition SP3 :: "u32 list" where
  "SP3 = sp_table (push_bit 17 1) (push_bit 27 1) (push_bit 3 1) (push_bit 9 1) (\<lambda>z a b c d e f. [
    z OR f, c OR e, z OR z, c OR d, b OR e, z OR z, a OR f, b OR e,
    a OR d, b OR d, b OR d, a OR z, c OR f, a OR d, c OR z, z OR f,
    b OR z, z OR d, c OR e, z OR e, a OR e, c OR z, c OR d, a OR f,
    b OR f, a OR e, a OR z, b OR f, z OR d, c OR f, z OR e, b OR z,
    c OR e, b OR z, a OR d, z OR f, a OR z, c OR e, b OR e, z OR z,
    z OR e, a OR d, c OR f, b OR e, b OR d, z OR e, z OR z, c OR d,
    b OR f, a OR z, b OR z, c OR f, z OR d, a OR f, a OR e, b OR d,
    c OR z, b OR f, z OR f, c OR z, a OR f, z OR d, c OR d, a OR e])"

definition SP4 :: "u32 list" where
  "SP4 = sp_table (push_bit 13 1) (push_bit 23 1) (push_bit 0 1) (push_bit 7 1) (\<lambda>z a b c d e f. [
    c OR d, a OR f, a OR f, z OR e, c OR e, b OR f, b OR d, a OR d,
    z OR z, c OR z, c OR z, c OR f, z OR f, z OR z, b OR e, b OR d,
    z OR d, a OR z, b OR z, c OR d, z OR e, b OR z, a OR d, a OR e,
    b OR f, z OR d, a OR e, b OR e, a OR z, c OR e, c OR f, z OR f,
    b OR e, b OR d, c OR z, c OR f, z OR f, z OR z, z OR z, c OR z,
    a OR e, b OR e, b OR f, z OR d, c OR d, a OR f, a OR f, z OR e,
    c OR f, z OR f, z OR d, a OR z, b OR d, a OR d, c OR e, b OR f,
    a OR d, a OR e, b OR z, c OR d, z OR e, b OR z, a OR z, c OR e])"

definition SP5 :: "u32 list" where
  "SP5 = sp_table (push_bit 25 1) (push_bit 30 1) (push_bit 8 1) (push_bit 19 1) (\<lambda>z a b c d e f. [
    z OR d, a OR f, a OR e, c OR d, z OR e, z OR d, b OR z, a OR e,
    b OR f, z OR e, a OR d, b OR f, c OR d, c OR e, z OR f, b OR z,
    a OR z, b OR e, b OR e, z OR z, b OR d, c OR f, c OR f, a OR d,
    c OR e, b OR d, z OR z, c OR z, a OR f, a OR z, c OR z, z OR f,
    z OR e, c OR d, z OR d, a OR z, b OR z, a OR e, c OR d, b OR f,
    a OR d, b OR z, c OR e, a OR f, b OR f, z OR d, a OR z, c OR e,
    c OR f, z OR f, c OR z, c OR f, a OR e, z OR z, b OR e, c OR z,
    z OR f, a OR d, b OR d, z OR e, z OR z, b OR e, a OR f, b OR d])"

definition SP6 :: "u32 list" where
  "SP6 = sp_table (push_bit 22 1) (push_bit 29 1) (push_bit 4 1) (push_bit 14 1) (\<lambda>z a b c d e f. [
    b OR d, c OR z, z OR e, c OR f, c OR z, z OR d, c OR f, a OR z,
    b OR e, a OR f, a OR z, b OR d, a OR d, b OR e, b OR z, z OR f,
    z OR z, a OR d, b OR f, z OR e, a OR e, b OR f, z OR d, c OR d,
    c OR d, z OR z, a OR f, c OR e, z OR f, a OR e, c OR e, b OR z,
    b OR e, z OR d, c OR d, a OR e, c OR f, a OR z, z OR f, b OR d,
    a OR z, b OR e, b OR z, z OR f, b OR d, c OR f, a OR e, c OR z,
    a OR f, c OR e, z OR z, c OR d, z OR d, z OR e, c OR z, a OR f,
    z OR e, a OR d, b OR f, z OR z, c OR e, b OR z, a OR d, b OR f])"

definition SP7 :: "u32 list" where
  "SP7 = sp_table (push_bit 21 1) (push_bit 26 1) (push_bit 1 1) (push_bit 11 1) (\<lambda>z a b c d e f. [
    a OR z, c OR d, b OR f, z OR z, z OR e, b OR f, a OR f, c OR e,
    c OR f, a OR z, z OR z, b OR d, z OR d, b OR z, c OR d, z OR f,
    b OR e, a OR f, a OR d, b OR e, b OR d, c OR z, c OR e, a OR d,
    c OR z, z OR e, z OR f, c OR f, a OR e, z OR d, b OR z, a OR e,
    b OR z, a OR e, a OR z, b OR f, b OR f, c OR d, c OR d, z OR d,
    a OR d, b OR z, b OR e, a OR z, c OR e, z OR f, a OR f, c OR e,
    z OR f, b OR d, c OR f, c OR z, a OR e, z OR z, z OR d, c OR f,
    z OR z, a OR f, c OR z, z OR e, b OR d, b OR e, z OR e, a OR d])"

definition SP8 :: "u32 list" where
  "SP8 = sp_table (push_bit 18 1) (push_bit 28 1) (push_bit 6 1) (push_bit 12 1) (\<lambda>z a b c d e f. [
    b OR f, z OR e, a OR z, c OR f, b OR z, b OR f, z OR d, b OR z,
    a OR d, c OR z, c OR f, a OR e, c OR e, a OR f, z OR e, z OR d,
    c OR z, b OR d, b OR e, z OR f, a OR e, a OR d, c OR d, c OR e,
    z OR f, z OR z, z OR z, c OR d, b OR d, b OR e, a OR f, a OR z,
    a OR f, a OR z, c OR e, z OR e, z OR d, c OR d, z OR e, a OR f,
    b OR e, z OR d, b OR d, c OR z, c OR d, b OR z, a OR z, b OR f,
    z OR z, c OR f, a OR d, b OR d, c OR z, b OR e, b OR f, z OR z,
    c OR f, a OR e, a OR e, z OR f, z OR f, a OR d, b OR z, c OR e])"

section \<open>Key schedule\<close>

text \<open>The walk of \<open>l\<close> through the permuted choice, \<open>n\<close> steps of the first loop.\<close>

primrec pc1_walk :: "nat \<Rightarrow> int \<Rightarrow> int list" where
  "pc1_walk 0 l = []"
| "pc1_walk (Suc n) l =
     (let l = l + (if l < -5 then 65 else if l < -3 then 31 else if l < -1 then 63
                   else if l = 27 then 35 else 0)
      in l # pc1_walk n (l - 8))"

text \<open>\<open>(password[l >>> 3] & (1 << (l & 7))) !== 0\<close>; a missing character reads as 0.\<close>

definition key_bit :: "nat list \<Rightarrow> int \<Rightarrow> bool" where
  "key_bit password l = (let i = nat l div 8; m = nat l mod 8 in
     i < length password \<and> bit (password ! i) m)"

definition pc1m :: "nat list \<Rightarrow> bool list" where
  "pc1m password = map (key_bit password) (pc1_walk 56 56)"

definition pcr :: "bool list \<Rightarrow> nat \<Rightarrow> bool list" where
  "pcr bits i = concat (map (\<lambda>o'. map (\<lambda>j. let l = j + totrot ! i in
     if l < o' then bits ! l else bits ! (l - 28)) [o' - 28..<o']) [28, 56])"

definition kn_word :: "bool list \<Rightarrow> nat \<Rightarrow> u32" where
  "kn_word p off = fold (\<lambda>j kn. if p ! (PC2 ! (j + off)) then kn OR push_bit (23 - j) 1 else kn)
     [0..<24] 0"

definition cookey :: "u32 \<Rightarrow> u32 \<Rightarrow> u32 list" where
  "cookey raw0 raw1 =
     [push_bit 6 (raw0 AND 0x00fc0000) OR push_bit 10 (raw0 AND 0x00000fc0)
        OR drop_bit 10 (raw1 AND 0x00fc0000) OR drop_bit 6 (raw1 AND 0x00000fc0),
      push_bit 12 (raw0 AND 0x0003f000) OR push_bit 16 (raw0 AND 0x0000003f)
        OR drop_bit 4 (raw1 AND 0x0003f000) OR (raw1 AND 0x0000003f)]"

definition des_keys :: "nat list \<Rightarrow> u32 list" where
  "des_keys password = concat (map (\<lambda>i. let p = pcr (pc1m password) i in
     cookey (kn_word p 0) (kn_word p 24)) [0..<16])"

section \<open>The block cipher\<close>

definition squash :: "byte list \<Rightarrow> u32" where
  "squash b = push_bit 24 (ucast (b ! 0)) OR push_bit 16 (ucast (b ! 1)) OR
     push_bit 8 (ucast (b ! 2)) OR ucast (b ! 3)"

definition spread :: "u32 \<Rightarrow> byte list" where
  "spread x = map (\<lambda>i. ucast (drop_bit (8 * (3 - i)) x)) [0..<4]"

text \<open>One exchange of masked bits, \<open>x = ((p >>> n) ^ q) & m; q ^= x; p ^= (x << n)\<close>; the steps
  around the rounds use it with \<open>(l, r)\<close> or with \<open>(r, l)\<close>.\<close>

definition bit_swap :: "nat \<Rightarrow> u32 \<Rightarrow> u32 \<times> u32 \<Rightarrow> u32 \<times> u32" where
  "bit_swap n m = (\<lambda>(p, q). let x = (drop_bit n p XOR q) AND m in (p XOR push_bit n x, q XOR x))"

definition rol1 :: "u32 \<Rightarrow> u32" where
  "rol1 r = push_bit 1 r OR (drop_bit 31 r AND 1)"

definition ror1 :: "u32 \<Rightarrow> u32" where
  "ror1 r = push_bit 31 r OR drop_bit 1 r"

definition initial_perm :: "u32 \<times> u32 \<Rightarrow> u32 \<times> u32" where
  "initial_perm lr =
     (let (l, r) = bit_swap 4 0x0f0f0f0f lr;
          (l, r) = bit_swap 16 0x0000ffff (l, r);
          (r, l) = bit_swap 2 0x33333333 (r, l);
          (r, l) = bit_swap 8 0x00ff00ff (r, l);
          r = rol1 r;
          (l, r) = bit_swap 0 0xaaaaaaaa (l, r);
          l = rol1 l
      in (l, r))"

definition final_perm :: "u32 \<times> u32 \<Rightarrow> u32 \<times> u32" where
  "final_perm lr =
     (let (l, r) = lr;
          r = ror1 r;
          (l, r) = bit_swap 0 0xaaaaaaaa (l, r);
          l = ror1 l;
          (l, r) = bit_swap 8 0x00ff00ff (l, r);
          (l, r) = bit_swap 2 0x33333333 (l, r);
          (r, l) = bit_swap 16 0x0000ffff (r, l);
          (r, l) = bit_swap 4 0x0f0f0f0f (r, l)
      in (l, r))"

definition six :: "u32 list \<Rightarrow> u32 \<Rightarrow> nat \<Rightarrow> u32" where
  "six sp x n = sp ! unat (drop_bit n x AND 0x3f)"

text \<open>\<open>fval\<close> for one half round, from the unchanged half and two words of the schedule.\<close>

definition fval :: "u32 \<Rightarrow> u32 \<Rightarrow> u32 \<Rightarrow> u32" where
  "fval r k k' =
     (let x = (push_bit 28 r OR drop_bit 4 r) XOR k; y = r XOR k' in
      six SP7 x 0 OR six SP5 x 8 OR six SP3 x 16 OR six SP1 x 24
      OR six SP8 y 0 OR six SP6 y 8 OR six SP4 y 16 OR six SP2 y 24)"

definition des_round :: "u32 list \<Rightarrow> nat \<Rightarrow> u32 \<times> u32 \<Rightarrow> u32 \<times> u32" where
  "des_round keys i = (\<lambda>(l, r).
     let l = l XOR fval r (keys ! (4 * i)) (keys ! (4 * i + 1));
         r = r XOR fval l (keys ! (4 * i + 2)) (keys ! (4 * i + 3))
     in (l, r))"

definition enc8 :: "u32 list \<Rightarrow> byte list \<Rightarrow> byte list" where
  "enc8 keys text =
     (let lr = initial_perm (squash (take 4 text), squash (drop 4 text));
          lr = fold (des_round keys) [0..<8] lr;
          (l, r) = final_perm lr
      in spread r @ spread l)"

definition encrypt :: "u32 list \<Rightarrow> byte list \<Rightarrow> byte list" where
  "encrypt keys t = enc8 keys (take 8 t) @ enc8 keys (take 8 (drop 8 t))"

section \<open>The steps around the rounds cancel\<close>


lemma bit_rol1: "bit (rol1 x) i \<longleftrightarrow> i < 32 \<and> bit x (if i = 0 then 31 else i - 1)"
  unfolding rol1_def bit_or_iff bit_and_iff bit_push_bit_iff bit_drop_bit_eq comp_apply bit_1_iff
  by (auto dest: bit_imp_le_length)

lemma bit_ror1: "bit (ror1 x) i \<longleftrightarrow> i < 32 \<and> bit x (if i = 31 then 0 else i + 1)"
  unfolding ror1_def by (auto simp: bit_simps dest: bit_imp_le_length)

lemma ror1_rol1 [simp]: "ror1 (rol1 x) = x"
  by (rule bit_word_eqI) (simp add: bit_rol1 bit_ror1)

lemma rol1_ror1 [simp]: "rol1 (ror1 x) = x"
proof (rule bit_word_eqI)
  fix n assume "n < LENGTH(32)"
  then show "bit (rol1 (ror1 x)) n = bit x n" by (cases n) (auto simp: bit_rol1 bit_ror1)
qed

lemma spread_4: "spread x = [ucast (drop_bit 24 x), ucast (drop_bit 16 x), ucast (drop_bit 8 x), ucast x]"
  unfolding spread_def by (simp add: upt_rec)

lemma squash_4: "squash [a, b, c, d] =
    push_bit 24 (ucast a) OR push_bit 16 (ucast b) OR push_bit 8 (ucast c) OR ucast d"
  by (simp add: squash_def)

lemma bit_squash: "bit (squash [a, b, c, d]) i \<longleftrightarrow>
    (if i < 8 then bit d i else if i < 16 then bit c (i - 8) else if i < 24 then bit b (i - 16)
     else i < 32 \<and> bit a (i - 24))"
proof -
  have len: "bit x n \<Longrightarrow> n < 8" for x :: byte and n using bit_imp_le_length by force
  show ?thesis unfolding squash_4 bit_or_iff bit_push_bit_iff bit_ucast_iff
    using len [of a "i - 24"] len [of b "i - 16"] len [of c "i - 8"] len [of d i] by auto
qed

lemma squash_spread [simp]: "squash (spread x) = x"
  unfolding spread_4
  by (rule bit_word_eqI) (auto simp: bit_squash bit_simps)

lemma spread_squash: "length b = 4 \<Longrightarrow> spread (squash b) = b"
proof -
  assume "length b = 4"
  then obtain p q r s where b: "b = [p, q, r, s]"
    by (auto simp: numeral_eq_Suc length_Suc_conv)
  have "ucast (drop_bit 24 (squash b)) = p" "ucast (drop_bit 16 (squash b)) = q"
    "ucast (drop_bit 8 (squash b)) = r" "ucast (squash b) = s"
    unfolding b by (rule bit_word_eqI; simp add: bit_squash bit_simps)+
  then show ?thesis unfolding b spread_4 by simp
qed

lemma push_drop_mask:
  assumes "drop_bit n (push_bit n m) = (m :: u32)"
  shows "drop_bit n (push_bit n (x AND m)) = x AND m"
proof (rule bit_word_eqI)
  fix i assume "i < LENGTH(32)"
  have "bit (drop_bit n (push_bit n m)) i = bit m i" using assms by simp
  then show "bit (drop_bit n (push_bit n (x AND m))) i = bit (x AND m) i"
    by (auto simp: bit_simps)
qed

lemma bit_swap_twice:
  assumes "drop_bit n (push_bit n m) = m"
  shows "bit_swap n m (bit_swap n m pq) = pq"
proof -
  obtain p q where pq: "pq = (p, q)" by (cases pq)
  define x where "x = (drop_bit n p XOR q) AND m"
  have d: "drop_bit n (push_bit n x) = x" unfolding x_def by (rule push_drop_mask [OF assms])
  have "drop_bit n (p XOR push_bit n x) XOR (q XOR x) = drop_bit n p XOR q"
    unfolding drop_bit_xor d by (simp add: ac_simps)
  then have "(drop_bit n (p XOR push_bit n x) XOR (q XOR x)) AND m = x" by (simp only: x_def)
  then show ?thesis unfolding pq bit_swap_def Let_def prod.case x_def [symmetric]
    by (simp add: ac_simps)
qed

lemma masks:
  "drop_bit 4 (push_bit 4 0x0f0f0f0f) = (0x0f0f0f0f :: u32)"
  "drop_bit 16 (push_bit 16 0x0000ffff) = (0x0000ffff :: u32)"
  "drop_bit 2 (push_bit 2 0x33333333) = (0x33333333 :: u32)"
  "drop_bit 8 (push_bit 8 0x00ff00ff) = (0x00ff00ff :: u32)"
  "drop_bit 0 (push_bit 0 0xaaaaaaaa) = (0xaaaaaaaa :: u32)"
  by (simp_all add: push_bit_eq_mult drop_bit_eq_div)

lemmas swap_twice = masks [THEN bit_swap_twice]

lemma bit_swap_0: "bit_swap 0 m (prod.swap pq) = prod.swap (bit_swap 0 m pq)"
  by (cases pq) (simp add: bit_swap_def Let_def ac_simps)

lemma initial_steps: "initial_perm lr =
    apfst rol1 (bit_swap 0 0xaaaaaaaa (apsnd rol1 (prod.swap (bit_swap 8 0x00ff00ff
      (bit_swap 2 0x33333333 (prod.swap (bit_swap 16 0x0000ffff (bit_swap 4 0x0f0f0f0f lr))))))))"
  unfolding initial_perm_def Let_def
  by (simp add: apfst_def apsnd_def map_prod_def split: prod.split)

lemma final_steps: "final_perm lr =
    prod.swap (bit_swap 4 0x0f0f0f0f (bit_swap 16 0x0000ffff (prod.swap (bit_swap 2 0x33333333
      (bit_swap 8 0x00ff00ff (apfst ror1 (bit_swap 0 0xaaaaaaaa (apsnd ror1 lr))))))))"
  unfolding final_perm_def Let_def
  by (simp add: apfst_def apsnd_def map_prod_def split: prod.split)

lemma rotate_back:
  "apsnd ror1 (prod.swap (apfst rol1 lr)) = prod.swap lr"
  "apfst ror1 (prod.swap (apsnd rol1 lr)) = prod.swap lr"
  "apsnd rol1 (prod.swap (apfst ror1 lr)) = prod.swap lr"
  "apfst rol1 (prod.swap (apsnd ror1 lr)) = prod.swap lr"
  by (cases lr; simp)+

text \<open>\<open>final_perm\<close> undoes \<open>initial_perm\<close> with the two halves exchanged, and conversely.\<close>

lemma final_initial [simp]: "final_perm (prod.swap (initial_perm lr)) = prod.swap lr"
  by (simp only: initial_steps final_steps rotate_back bit_swap_0 swap_twice swap_swap)

lemma initial_final [simp]: "initial_perm (prod.swap (final_perm lr)) = prod.swap lr"
  by (simp only: initial_steps final_steps rotate_back bit_swap_0 swap_twice swap_swap)

section \<open>Decryption\<close>

text \<open>The schedule read backwards, pair by pair: the cipher with this schedule decrypts.\<close>

definition reversed_keys :: "u32 list \<Rightarrow> u32 list" where
  "reversed_keys keys = concat (map (\<lambda>i. [keys ! (30 - 2 * i), keys ! (31 - 2 * i)]) [0..<16])"

lemma reversed_keys_nth:
  "i < 8 \<Longrightarrow> reversed_keys keys ! (4 * i) = keys ! (4 * (7 - i) + 2)"
  "i < 8 \<Longrightarrow> reversed_keys keys ! (4 * i + 1) = keys ! (4 * (7 - i) + 3)"
  "i < 8 \<Longrightarrow> reversed_keys keys ! (4 * i + 2) = keys ! (4 * (7 - i))"
  "i < 8 \<Longrightarrow> reversed_keys keys ! (4 * i + 3) = keys ! (4 * (7 - i) + 1)"
  unfolding reversed_keys_def
  by (auto simp: upt_rec less_Suc_eq numeral_eq_Suc)

lemma round_back:
  assumes "i < 8"
  shows "des_round (reversed_keys keys) i (prod.swap (des_round keys (7 - i) lr)) = prod.swap lr"
proof (cases lr)
  case (Pair l r)
  have x: "(u XOR f) XOR f = u" for u f :: u32 by (simp add: xor.assoc)
  show ?thesis
    unfolding Pair des_round_def Let_def prod.case reversed_keys_nth [OF assms] swap_simp x ..
qed

lemma rounds_back:
  "fold (des_round (reversed_keys keys)) [0..<8] (prod.swap (fold (des_round keys) [0..<8] lr))
    = prod.swap lr"
proof -
  let ?r = "\<lambda>i. des_round keys i" and ?d = "\<lambda>i. des_round (reversed_keys keys) i"
  have u: "[0..<8] = [0, 1, 2, 3, 4, 5, 6, 7 :: nat]" by (simp add: upt_rec)
  have "?d 0 (prod.swap (?r 7 x)) = prod.swap x" "?d 1 (prod.swap (?r 6 x)) = prod.swap x"
    "?d 2 (prod.swap (?r 5 x)) = prod.swap x" "?d 3 (prod.swap (?r 4 x)) = prod.swap x"
    "?d 4 (prod.swap (?r 3 x)) = prod.swap x" "?d 5 (prod.swap (?r 2 x)) = prod.swap x"
    "?d 6 (prod.swap (?r 1 x)) = prod.swap x" "?d 7 (prod.swap (?r 0 x)) = prod.swap x" for x
    using round_back [of 0 keys x] round_back [of 1 keys x] round_back [of 2 keys x]
      round_back [of 3 keys x] round_back [of 4 keys x] round_back [of 5 keys x]
      round_back [of 6 keys x] round_back [of 7 keys x] by simp_all
  then show ?thesis unfolding u by simp
qed

lemma length_spread [simp]: "length (spread x) = 4"
  by (simp add: spread_4)

lemma length_enc8 [simp]: "length (enc8 keys text) = 8"
  by (simp add: enc8_def Let_def split: prod.split)

lemma enc8_halves:
  "(squash (take 4 (enc8 keys text)), squash (drop 4 (enc8 keys text))) =
    prod.swap (final_perm (fold (des_round keys) [0..<8]
      (initial_perm (squash (take 4 text), squash (drop 4 text)))))"
  by (simp add: enc8_def Let_def split: prod.split)

lemma cipher_cancels:
  assumes "length text = 8"
  shows "enc8 (reversed_keys keys) (enc8 keys text) = text"
proof -
  let ?e = "enc8 keys text"
  have h: "spread (squash (take 4 text)) = take 4 text" "spread (squash (drop 4 text)) = drop 4 text"
    using assms by (simp_all add: spread_squash)
  have "final_perm (fold (des_round (reversed_keys keys)) [0..<8]
      (initial_perm (squash (take 4 ?e), squash (drop 4 ?e))))
    = (squash (drop 4 text), squash (take 4 text))"
    unfolding enc8_halves by (simp add: rounds_back)
  then show ?thesis
    by (simp add: enc8_def [of "reversed_keys keys"] Let_def h)
qed

text \<open>C25. The cipher with the schedule reversed undoes the cipher, on every block of eight bytes and
  for every schedule: the permutations around the rounds cancel, and so does each round, whatever
  the tables hold.\<close>

theorem des_decrypts:
  assumes "length text = 8"
  shows "enc8 (reversed_keys keys) (enc8 keys text) = text"
  using assms by (rule cipher_cancels)

theorem des_decrypts_witness:
  "enc8 (reversed_keys (des_keys [112, 119])) (enc8 (des_keys [112, 119]) [1, 2, 3, 4, 5, 6, 7, 255])
    = [1, 2, 3, 4, 5, 6, 7, 255]"
  by (rule des_decrypts) simp

lemma enc8_inj: "length t = 8 \<Longrightarrow> length t' = 8 \<Longrightarrow> enc8 keys t = enc8 keys t' \<longleftrightarrow> t = t'"
  by (metis cipher_cancels)

text \<open>The response to a challenge determines the challenge: for one password two different
  challenges of sixteen bytes never get the same response, and a response has sixteen bytes.\<close>

theorem encrypt_injective:
  assumes "length t = 16" "length t' = 16"
  shows "length (encrypt keys t) = 16 \<and> (encrypt keys t = encrypt keys t' \<longleftrightarrow> t = t')"
proof -
  have "take 8 (drop 8 u) = drop 8 u" if "length u = 16" for u :: "byte list" using that by simp
  then have "take 8 t = take 8 t' \<and> take 8 (drop 8 t) = take 8 (drop 8 t') \<longleftrightarrow> t = t'"
    using assms by (metis append_take_drop_id)
  then show ?thesis using assms by (simp add: encrypt_def enc8_inj)
qed

theorem encrypt_injective_witness:
  "encrypt (des_keys [97]) (replicate 15 7 @ [1]) \<noteq> encrypt (des_keys [97]) (replicate 15 7 @ [2])"
  using encrypt_injective [of "replicate 15 7 @ [1]" "replicate 15 7 @ [2]" "des_keys [97]"] by simp

section \<open>The key schedule\<close>

lemma pc1_walk_bits: "list_all (\<lambda>l. 0 \<le> l \<and> l < 64 \<and> nat l mod 8 < 7) (pc1_walk 56 56)"
  by code_simp

lemma key_bit_low:
  assumes "0 \<le> l" "l < 64" "nat l mod 8 < 7"
  shows "key_bit pw l = key_bit (map (take_bit 7) (take 8 pw)) l"
  using assms by (auto simp: key_bit_def Let_def bit_simps)

text \<open>C33. What reaches the key schedule of a password: the low seven bits of its first eight
  characters. Characters after the eighth and the top bit of a character change nothing.\<close>

theorem des_key_bits:
  assumes "map (take_bit 7) (take 8 pw) = map (take_bit 7) (take 8 pw')"
  shows "des_keys pw = des_keys pw'"
proof -
  have "pc1m pw = pc1m (map (take_bit 7) (take 8 pw))" for pw
    unfolding pc1m_def using pc1_walk_bits
    by (intro map_cong refl key_bit_low) (auto simp: list_all_iff)
  then show ?thesis unfolding des_keys_def using assms by metis
qed

theorem des_key_bits_witness:
  "des_keys [112, 97, 115, 115, 119, 111, 114, 100, 49] = des_keys [240, 97, 115, 115, 119, 111, 114, 100]"
  by (rule des_key_bits) (simp add: take_bit_eq_mod)

end
