(* ===== verification/Canvas_Display.thy ===== *)
theory Canvas_Display
  imports JS_Prelude Base64_Codec Complex_Main
begin

text \<open>
  \<^verbatim>\<open>core/display.js\<close>: the display of the client. It keeps the size of the remote framebuffer, the
  part of it that is visible (the viewport), the rectangle that was drawn since the visible canvas
  was last updated (the damage) and a queue of drawing actions that wait for an image to load.

  The canvases belong to the browser: the model records, in order, the calls the code makes on
  them (\<open>cmds\<close>). Images are the browser's too: \<open>images\<close> holds what the code reads of each
  (\<open>complete\<close>, \<open>width\<close>, \<open>height\<close>), \<open>waiting\<close> those with the queue's listener. Coordinates are
  integers; a scale factor is a rational number, with \<open>None\<close> for one that is not finite (a viewport
  without area), and the rounding of floating-point division is not modelled.
\<close>

section \<open>State\<close>

type_synonym colour = "byte list option"

datatype action =
    Flip
  | Copy int int int int int int
  | Fill int int int int colour
  | Blit int int int int "byte list"
  | Img nat int int int int

datatype canvas_cmd =
    FillStyle "byte option list"
  | FillRect int int int int
  | NoSmoothing
  | CopyArea int int int int int int
  | PutImage "byte list" int int int int
  | DrawImg nat int int
  | Present int int int int int int
  | SaveBack int int | BackWidth int | BackHeight int | RestoreBack
  | TargetSize int int

record image =
  complete :: bool
  img_width :: int
  img_height :: int
  src :: string

datatype css_size = Unset | Px rat | PxOther

record display =
  renderQ :: "action list"
  flushing :: bool
  fbWidth :: int
  fbHeight :: int
  prevDrawStyle :: "byte option list option"
  vp_x :: int
  vp_y :: int
  vp_w :: int
  vp_h :: int
  back_w :: int
  back_h :: int
  left :: int
  top :: int
  right :: int
  bottom :: int
  scale :: "rat option"
  clipViewport :: bool
  style_w :: css_size
  style_h :: css_size
  images :: "image list"
  waiting :: "nat list"
  cmds :: "canvas_cmd list"
  flushes :: nat

definition new_display :: "int \<Rightarrow> int \<Rightarrow> int \<Rightarrow> int \<Rightarrow> display" where
  "new_display tw th bw bh = \<lparr>renderQ = [], flushing = False, fbWidth = 0, fbHeight = 0,
     prevDrawStyle = None, vp_x = 0, vp_y = 0, vp_w = tw, vp_h = th, back_w = bw, back_h = bh,
     left = 0, top = 0, right = bw, bottom = bh, scale = Some 1, clipViewport = False,
     style_w = Unset, style_h = Unset, images = [], waiting = [], cmds = [], flushes = 0\<rparr>"

definition call :: "canvas_cmd list \<Rightarrow> display \<Rightarrow> display" where
  "call cs d = d\<lparr>cmds := cmds d @ cs\<rparr>"

section \<open>Drawing now\<close>

definition damage :: "int \<Rightarrow> int \<Rightarrow> int \<Rightarrow> int \<Rightarrow> display \<Rightarrow> display" where
  "damage x y w h d =
     d\<lparr>left := (if x < left d then x else left d),
       top := (if y < top d then y else top d),
       right := (if x + w > right d then x + w else right d),
       bottom := (if y + h > bottom d then y + h else bottom d)\<rparr>"

text \<open>The branch of \<open>flip\<close> that updates the visible canvas.\<close>

definition presented :: "display \<Rightarrow> canvas_cmd list" where
  "presented d =
     (let x = left d; y = top d; w = right d - x; h = bottom d - y;
          vx = x - vp_x d; vy = y - vp_y d;
          (w, x, vx) = (if vx < 0 then (w + vx, x - vx, 0) else (w, x, vx));
          (h, y, vy) = (if vy < 0 then (h + vy, y - vy, 0) else (h, y, vy));
          w = (if vx + w > vp_w d then vp_w d - vx else w);
          h = (if vy + h > vp_h d then vp_h d - vy else h)
      in if w > 0 \<and> h > 0 then [Present x y w h vx vy] else [])"

definition flip_now :: "display \<Rightarrow> display" where
  "flip_now d = (call (presented d) d)\<lparr>left := 65535, top := 65535, right := 0, bottom := 0\<rparr>"

text \<open>The style \<open>rgb(r,g,b)\<close> by its three components; an element past the end of the array is
  \<open>undefined\<close>. Reading an element of a colour that is \<open>undefined\<close> itself throws.\<close>

definition rgb :: "byte list \<Rightarrow> byte option list" where
  "rgb color = map (\<lambda>i. if i < length color then Some (color ! i) else None) [0, 1, 2]"

definition setFillColor :: "colour \<Rightarrow> (display, unit) exec" where
  "setFillColor color = (case color of
     None \<Rightarrow> throw TypeError
   | Some c \<Rightarrow> modify (\<lambda>d.
       let newStyle = rgb c in
       if Some newStyle \<noteq> prevDrawStyle d
       then (call [FillStyle newStyle] d)\<lparr>prevDrawStyle := Some newStyle\<rparr> else d))"

definition fillRect_now :: "int \<Rightarrow> int \<Rightarrow> int \<Rightarrow> int \<Rightarrow> colour \<Rightarrow> (display, unit) exec" where
  "fillRect_now x y width height color =
     thenx (setFillColor color)
       (modify (damage x y width height \<circ> call [FillRect x y width height]))"

definition copyImage_now :: "int \<Rightarrow> int \<Rightarrow> int \<Rightarrow> int \<Rightarrow> int \<Rightarrow> int \<Rightarrow> display \<Rightarrow> display" where
  "copyImage_now oldX oldY newX newY w h d =
     damage newX newY w h (call [NoSmoothing, CopyArea oldX oldY w h newX newY] d)"

text \<open>\<open>new ImageData\<close> refuses an empty array; the view refuses bytes outside the buffer.\<close>

definition blitImage_now ::
  "int \<Rightarrow> int \<Rightarrow> int \<Rightarrow> int \<Rightarrow> byte list \<Rightarrow> nat \<Rightarrow> nat \<Rightarrow> (display, unit) exec" where
  "blitImage_now x y width height buffer byteOffset offset =
     (case ta_view buffer (byteOffset + offset) (nat (width * height * 4)) of
        Inl e \<Rightarrow> throw e
      | Inr data \<Rightarrow>
          if data = [] then throw (JsError ''InvalidStateError'')
          else modify (damage x y width height \<circ> call [PutImage data width height x y]))"

definition drawImage :: "nat \<Rightarrow> int \<Rightarrow> int \<Rightarrow> display \<Rightarrow> display" where
  "drawImage img x y d =
     damage x y (img_width (images d ! img)) (img_height (images d ! img)) (call [DrawImg img x y] d)"

section \<open>The queue\<close>

text \<open>The body of the scanner's loop for an action that needs no image, or whose image is ready.\<close>

primrec perform :: "action \<Rightarrow> (display, unit) exec" where
  "perform Flip = modify flip_now"
| "perform (Copy oldX oldY x y w h) = modify (copyImage_now oldX oldY x y w h)"
| "perform (Fill x y w h c) = fillRect_now x y w h c"
| "perform (Blit x y w h data) = blitImage_now x y w h data 0 0"
| "perform (Img i x y w h) = modify (drawImage i x y)"

definition renderQ_shift :: "display \<Rightarrow> display" where
  "renderQ_shift d = d\<lparr>renderQ := tl (renderQ d)\<rparr>"

text \<open>The loop; every turn removes an action or ends it, so the length of the queue bounds the turns.
  The result is False for the \<open>return\<close> on an image of the wrong size.\<close>

primrec scan_loop :: "nat \<Rightarrow> (display, bool) exec" where
  "scan_loop 0 = ret True"
| "scan_loop (Suc n) = bindx (gets renderQ) (\<lambda>q. case q of
     [] \<Rightarrow> ret True
   | a # _ \<Rightarrow> bindx (gets images) (\<lambda>imgs.
       let go = thenx (perform a) (thenx (modify renderQ_shift) (scan_loop n)) in
       case a of
         Img i x y w h \<Rightarrow>
           if complete (imgs ! i) then
             if img_width (imgs ! i) \<noteq> w \<or> img_height (imgs ! i) \<noteq> h then ret False else go
           else thenx (modify (\<lambda>d. d\<lparr>waiting := List.insert i (waiting d)\<rparr>)) (ret True)
       | _ \<Rightarrow> go))"

definition onflush :: "display \<Rightarrow> display" where
  "onflush d = d\<lparr>flushes := flushes d + 1\<rparr>"

definition scanRenderQ :: "(display, unit) exec" where
  "scanRenderQ = bindx (gets (length \<circ> renderQ)) (\<lambda>n. bindx (scan_loop n) (\<lambda>fin.
     if fin then modify (\<lambda>d. if renderQ d = [] \<and> flushing d then onflush (d\<lparr>flushing := False\<rparr>) else d)
     else ret ()))"

definition renderQPush :: "action \<Rightarrow> (display, unit) exec" where
  "renderQPush a = thenx (modify (\<lambda>d. d\<lparr>renderQ := renderQ d @ [a]\<rparr>))
     (bindx (gets renderQ) (\<lambda>q. if length q = 1 then scanRenderQ else ret ()))"

text \<open>The \<open>load\<close> event of an image: the listener, where the image has it.\<close>

definition resumeRenderQ :: "nat \<Rightarrow> (display, unit) exec" where
  "resumeRenderQ img = bindx (gets waiting) (\<lambda>ws.
     if img \<in> set ws then
       thenx (modify (\<lambda>d. d\<lparr>waiting := remove1 img (waiting d)\<rparr>)) scanRenderQ
     else ret ())"

definition image_decoded :: "nat \<Rightarrow> int \<Rightarrow> int \<Rightarrow> display \<Rightarrow> display" where
  "image_decoded i w h d = d\<lparr>images := (images d)[i :=
     (images d ! i)\<lparr>complete := True, img_width := w, img_height := h\<rparr>]\<rparr>"

section \<open>Operations\<close>

definition now_or_later :: "action \<Rightarrow> (display, unit) exec \<Rightarrow> (display, unit) exec" where
  "now_or_later a now = bindx (gets renderQ) (\<lambda>q. if q \<noteq> [] then renderQPush a else now)"

definition flip :: "(display, unit) exec" where
  "flip = now_or_later Flip (modify flip_now)"

definition pending :: "display \<Rightarrow> bool" where
  "pending d \<longleftrightarrow> renderQ d \<noteq> []"

definition flush_display :: "display \<Rightarrow> display" where
  "flush_display d = (if renderQ d = [] then onflush d else d\<lparr>flushing := True\<rparr>)"

definition fillRect :: "int \<Rightarrow> int \<Rightarrow> int \<Rightarrow> int \<Rightarrow> colour \<Rightarrow> (display, unit) exec" where
  "fillRect x y width height color =
     now_or_later (Fill x y width height color) (fillRect_now x y width height color)"

definition copyImage :: "int \<Rightarrow> int \<Rightarrow> int \<Rightarrow> int \<Rightarrow> int \<Rightarrow> int \<Rightarrow> (display, unit) exec" where
  "copyImage oldX oldY newX newY w h =
     now_or_later (Copy oldX oldY newX newY w h) (modify (copyImage_now oldX oldY newX newY w h))"

definition new_image :: "string \<Rightarrow> byte list \<Rightarrow> image" where
  "new_image mime arr = \<lparr>complete = False, img_width = 0, img_height = 0,
     src = ''data: '' @ mime @ '';base64,'' @ encode64 (map uint arr)\<rparr>"

definition imageRect ::
  "int \<Rightarrow> int \<Rightarrow> int \<Rightarrow> int \<Rightarrow> string \<Rightarrow> byte list \<Rightarrow> (display, unit) exec" where
  "imageRect x y width height mime arr =
     (if width = 0 \<or> height = 0 then ret ()
      else bindx (gets (length \<circ> images)) (\<lambda>i.
        thenx (modify (\<lambda>d. d\<lparr>images := images d @ [new_image mime arr]\<rparr>))
          (renderQPush (Img i x y width height))))"

text \<open>The array is given by its buffer and the position of its view in it. The copy made for the
  queue starts at the beginning of the buffer.\<close>

definition blitImage ::
  "int \<Rightarrow> int \<Rightarrow> int \<Rightarrow> int \<Rightarrow> byte list \<Rightarrow> nat \<Rightarrow> nat \<Rightarrow> (display, unit) exec" where
  "blitImage x y width height buffer byteOffset offset =
     bindx (gets renderQ) (\<lambda>q.
       if q \<noteq> [] then
         (case ta_view buffer 0 (nat (width * height * 4)) of
            Inl e \<Rightarrow> throw e
          | Inr newArr \<Rightarrow> renderQPush (Blit x y width height newArr))
       else blitImage_now x y width height buffer byteOffset offset)"

section \<open>Viewport and scale\<close>

definition rescale :: "rat option \<Rightarrow> display \<Rightarrow> display" where
  "rescale factor d =
     (let px = (\<lambda>n. case factor of Some f \<Rightarrow> Px (f * of_int n) | None \<Rightarrow> PxOther);
          width = px (vp_w d); height = px (vp_h d);
          d = d\<lparr>scale := factor\<rparr>
      in if style_w d \<noteq> width \<or> style_h d \<noteq> height
         then d\<lparr>style_w := width, style_h := height\<rparr> else d)"

text \<open>The distance to move by (a viewport that is not clipped goes to the origin), and its two clamps.\<close>

definition move_by :: "display \<Rightarrow> rat \<Rightarrow> rat \<Rightarrow> int \<times> int" where
  "move_by d dx dy = (if \<not> clipViewport d then (- vp_w d, - vp_h d) else (\<lfloor>dx\<rfloor>, \<lfloor>dy\<rfloor>))"

definition step_x :: "display \<Rightarrow> int \<Rightarrow> int" where
  "step_x d deltaX =
     (let vx2 = vp_x d + vp_w d - 1;
          deltaX = (if deltaX < 0 \<and> vp_x d + deltaX < 0 then - vp_x d else deltaX)
      in if vx2 + deltaX \<ge> fbWidth d then deltaX - (vx2 + deltaX - fbWidth d + 1) else deltaX)"

definition step_y :: "display \<Rightarrow> int \<Rightarrow> int" where
  "step_y d deltaY =
     (let vy2 = vp_y d + vp_h d - 1;
          deltaY = (if vp_y d + deltaY < 0 then - vp_y d else deltaY)
      in if vy2 + deltaY \<ge> fbHeight d then deltaY - (vy2 + deltaY - fbHeight d + 1) else deltaY)"

definition viewportChangePos :: "rat \<Rightarrow> rat \<Rightarrow> (display, unit) exec" where
  "viewportChangePos dx dy = bindx (gets id) (\<lambda>d.
     let (deltaX, deltaY) = move_by d dx dy;
         deltaX = step_x d deltaX;
         deltaY = step_y d deltaY
     in if deltaX = 0 \<and> deltaY = 0 then ret ()
        else thenx (modify (\<lambda>d. d\<lparr>vp_x := vp_x d + deltaX, vp_y := vp_y d + deltaY\<rparr>))
          (thenx (modify (\<lambda>d. damage (vp_x d) (vp_y d) (vp_w d) (vp_h d) d)) flip))"

text \<open>The new size: all of the framebuffer where the viewport is not clipped or an argument is missing.\<close>

definition new_size :: "display \<Rightarrow> rat option \<Rightarrow> rat option \<Rightarrow> int \<times> int" where
  "new_size d width height =
     (let (width, height) =
        (if \<not> clipViewport d \<or> width = None \<or> height = None
         then (of_int (fbWidth d), of_int (fbHeight d)) else (the width, the height));
          width = \<lfloor>width\<rfloor>;
          height = \<lfloor>height\<rfloor>
      in (if width > fbWidth d then fbWidth d else width,
          if height > fbHeight d then fbHeight d else height))"

definition viewportChangeSize :: "rat option \<Rightarrow> rat option \<Rightarrow> (display, unit) exec" where
  "viewportChangeSize w h = bindx (gets id) (\<lambda>d.
     let (width, height) = new_size d w h
     in if vp_w d \<noteq> width \<or> vp_h d \<noteq> height then
          thenx (modify (\<lambda>d. call [TargetSize width height] (d\<lparr>vp_w := width, vp_h := height\<rparr>)))
         (thenx (viewportChangePos 0 0)
         (thenx (modify (\<lambda>d. damage (vp_x d) (vp_y d) (vp_w d) (vp_h d) d))
         (thenx flip (modify (\<lambda>d. rescale (scale d) d)))))
        else ret ())"

definition set_clipViewport :: "bool \<Rightarrow> (display, unit) exec" where
  "set_clipViewport viewport = thenx (modify (\<lambda>d. d\<lparr>clipViewport := viewport\<rparr>))
     (bindx (gets id) (\<lambda>d. thenx (viewportChangeSize (Some (of_int (vp_w d))) (Some (of_int (vp_h d))))
       (viewportChangePos 0 0)))"

definition js_trunc :: "rat \<Rightarrow> int" where
  "js_trunc x = (if x < 0 then \<lceil>x\<rceil> else \<lfloor>x\<rfloor>)"

definition abs_coord :: "rat \<Rightarrow> int \<Rightarrow> rat option \<Rightarrow> int" where
  "abs_coord x off s = (case s of
     Some s \<Rightarrow> if s = 0 then 0 else toSigned32bit (js_trunc (x / s + of_int off))
   | None \<Rightarrow> toSigned32bit off)"

definition absX :: "rat \<Rightarrow> display \<Rightarrow> int" where
  "absX x d = abs_coord x (vp_x d) (scale d)"

definition absY :: "rat \<Rightarrow> display \<Rightarrow> int" where
  "absY y d = abs_coord y (vp_y d) (scale d)"

definition resize :: "int \<Rightarrow> int \<Rightarrow> (display, unit) exec" where
  "resize width height =
     thenx (modify (\<lambda>d.
       let d = d\<lparr>prevDrawStyle := None, fbWidth := width, fbHeight := height\<rparr> in
       if back_w d \<noteq> width \<or> back_h d \<noteq> height then
         let saved = (back_w d > 0 \<and> back_h d > 0) in
         (call ((if saved then [SaveBack (back_w d) (back_h d)] else [])
              @ (if back_w d \<noteq> width then [BackWidth width] else [])
              @ (if back_h d \<noteq> height then [BackHeight height] else [])
              @ (if saved then [RestoreBack] else [])) d)\<lparr>back_w := width, back_h := height\<rparr>
       else d))
     (bindx (gets id) (\<lambda>d. thenx (viewportChangeSize (Some (of_int (vp_w d))) (Some (of_int (vp_h d))))
       (viewportChangePos 0 0)))"

text \<open>A viewport without height has an infinite aspect ratio (or none, when it has no width either:
  no comparison holds of that, and the ratio of the heights is not finite).\<close>

definition autoscale :: "rat \<Rightarrow> rat \<Rightarrow> display \<Rightarrow> display" where
  "autoscale containerWidth containerHeight d =
     rescale (if containerWidth = 0 \<or> containerHeight = 0 then Some 0
       else if vp_h d = 0 then
         (if vp_w d = 0 then None else Some (containerWidth / of_int (vp_w d)))
       else if of_int (vp_w d) / of_int (vp_h d) \<ge> containerWidth / containerHeight
         then Some (containerWidth / of_int (vp_w d))
         else Some (containerHeight / of_int (vp_h d))) d"

section \<open>What a flip presents\<close>

text \<open>The rectangle a flip copies is the damage clipped to the viewport.\<close>

lemma clip_interval:
  fixes l r v n :: int
  shows "(let x = l; w = r - x; vx = x - v;
      (w, x, vx) = (if vx < 0 then (w + vx, x - vx, 0) else (w, x, vx));
      w = (if vx + w > n then n - vx else w) in (x, w, vx))
    = (max l v, min r (v + n) - max l v, max l v - v)"
  by (auto simp: Let_def max_def min_def)

lemma presented_clip:
  "presented d = (let x = max (left d) (vp_x d); y = max (top d) (vp_y d);
      w = min (right d) (vp_x d + vp_w d) - x; h = min (bottom d) (vp_y d + vp_h d) - y
    in if w > 0 \<and> h > 0 then [Present x y w h (x - vp_x d) (y - vp_y d)] else [])"
proof -
  have "presented d =
    (let (x, w, vx) = (let x = left d; w = right d - x; vx = x - vp_x d;
        (w, x, vx) = (if vx < 0 then (w + vx, x - vx, 0) else (w, x, vx));
        w = (if vx + w > vp_w d then vp_w d - vx else w) in (x, w, vx));
      (y, h, vy) = (let x = top d; w = bottom d - x; vx = x - vp_y d;
        (w, x, vx) = (if vx < 0 then (w + vx, x - vx, 0) else (w, x, vx));
        w = (if vx + w > vp_h d then vp_h d - vx else w) in (x, w, vx))
     in if w > 0 \<and> h > 0 then [Present x y w h vx vy] else [])"
    unfolding presented_def Let_def
    by (cases "left d - vp_x d < 0"; cases "top d - vp_y d < 0"; simp only: if_True if_False prod.case)
  then show ?thesis unfolding clip_interval by (simp only: Let_def prod.case)
qed

end
