(* ===== verification/Draw_Queue.thy ===== *)
theory Draw_Queue
  imports Main
begin

text \<open>
  The contract between the display and the code that draws on it: requests may be carried out later,
  when images have arrived, but what is finally drawn is what the requests, carried out at once
  and in their order, would have drawn.

  \<open>settle\<close> maps a display with pending work to the picture it is going to show; a request extends
  that picture as \<open>ideal\<close> says, and what the environment does (an image arrives, somebody asks to be
  told when the queue is empty) leaves it alone.
\<close>

primrec event_step :: "('r \<Rightarrow> 's \<Rightarrow> 's) \<Rightarrow> ('e \<Rightarrow> 's \<Rightarrow> 's) \<Rightarrow> 'r + 'e \<Rightarrow> 's \<Rightarrow> 's" where
  "event_step request env (Inl r) = request r"
| "event_step request env (Inr e) = env e"

fun requests :: "('r + 'e) list \<Rightarrow> 'r list" where
  "requests [] = []"
| "requests (Inl r # es) = r # requests es"
| "requests (Inr e # es) = requests es"

text \<open>Every request is acceptable in the state in which it is made.\<close>

fun allowed :: "('s \<Rightarrow> 'r \<Rightarrow> bool) \<Rightarrow> ('r \<Rightarrow> 's \<Rightarrow> 's) \<Rightarrow> ('e \<Rightarrow> 's \<Rightarrow> 's) \<Rightarrow> ('r + 'e) list \<Rightarrow> 's \<Rightarrow> bool" where
  "allowed ok request env [] s = True"
| "allowed ok request env (Inl r # es) s = (ok s r \<and> allowed ok request env es (request r s))"
| "allowed ok request env (Inr e # es) s = allowed ok request env es (env e s)"

locale draw_queue =
  fixes inv :: "'s \<Rightarrow> bool"
    and settle :: "'s \<Rightarrow> 'c"
    and ok :: "'s \<Rightarrow> 'r \<Rightarrow> bool"
    and request :: "'r \<Rightarrow> 's \<Rightarrow> 's"
    and ideal :: "'r \<Rightarrow> 'c \<Rightarrow> 'c"
    and env :: "'e \<Rightarrow> 's \<Rightarrow> 's"
  assumes request_settle: "inv s \<Longrightarrow> ok s r \<Longrightarrow> settle (request r s) = ideal r (settle s)"
    and request_inv: "inv s \<Longrightarrow> ok s r \<Longrightarrow> inv (request r s)"
    and env_settle: "inv s \<Longrightarrow> settle (env e s) = settle s"
    and env_inv: "inv s \<Longrightarrow> inv (env e s)"
begin

lemma run_inv:
  "inv s \<Longrightarrow> allowed ok request env es s \<Longrightarrow> inv (fold (event_step request env) es s)"
proof (induction es arbitrary: s rule: requests.induct)
  case (2 r es)
  then show ?case using request_inv [of s r] by simp
next
  case (3 e es)
  then show ?case using env_inv [of s e] by simp
qed simp

theorem run_settle:
  "inv s \<Longrightarrow> allowed ok request env es s \<Longrightarrow>
    settle (fold (event_step request env) es s) = fold ideal (requests es) (settle s)"
proof (induction es arbitrary: s rule: requests.induct)
  case (2 r es)
  then show ?case using request_settle [of s r] request_inv [of s r] by simp
next
  case (3 e es)
  then show ?case using env_settle [of s e] env_inv [of s e] by simp
qed simp

text \<open>Only the order of the requests matters, not when the environment acts between them.\<close>

corollary run_reordered:
  "inv s \<Longrightarrow> allowed ok request env es s \<Longrightarrow> allowed ok request env es' s \<Longrightarrow> requests es = requests es' \<Longrightarrow>
    settle (fold (event_step request env) es s) = settle (fold (event_step request env) es' s)"
  by (simp add: run_settle)

end

end
