(* ===== verification/Display_Order.thy ===== *)
theory Display_Order
  imports Canvas_Display Draw_Queue
begin

text \<open>
  What the display shows, whatever the queue delayed: the drawing operations of
  \<^verbatim>\<open>core/display.js\<close> against the order in which they were called. \<open>ideal_action\<close> draws an action
  at once; \<open>settle\<close> is the picture a display with a queue is going to show.
\<close>

section \<open>Drawing at once\<close>

definition set_fill :: "byte list \<Rightarrow> display \<Rightarrow> display" where
  "set_fill c d = snd (setFillColor (Some c) d)"

primrec ideal_action :: "action \<Rightarrow> display \<Rightarrow> display" where
  "ideal_action Flip d = flip_now d"
| "ideal_action (Copy oldX oldY x y w h) d = copyImage_now oldX oldY x y w h d"
| "ideal_action (Fill x y w h c) d =
     (case c of None \<Rightarrow> d | Some c \<Rightarrow> damage x y w h (call [FillRect x y w h] (set_fill c d)))"
| "ideal_action (Blit x y w h data) d = damage x y w h (call [PutImage data w h x y] d)"
| "ideal_action (Img i x y w h) d = damage x y w h (call [DrawImg i x y] d)"

text \<open>What the picture does not depend on: who waits for what, which images have arrived.\<close>

definition blank :: "image \<Rightarrow> image" where
  "blank im = im\<lparr>complete := False, img_width := 0, img_height := 0\<rparr>"

definition strip :: "display \<Rightarrow> display" where
  "strip d = d\<lparr>renderQ := [], flushing := False, images := map blank (images d), waiting := [],
     flushes := 0\<rparr>"

definition settle :: "display \<Rightarrow> display" where
  "settle d = fold ideal_action (renderQ d) (strip d)"

lemma presented_strip [simp]: "presented (strip d) = presented d"
  by (simp add: presented_clip strip_def Let_def)

lemma ideal_strip: "strip (ideal_action a d) = ideal_action a (strip d)"
  by (cases a) (simp_all add: strip_def flip_now_def presented_clip copyImage_now_def damage_def
      call_def set_fill_def setFillColor_def exec_simps Let_def split: option.split)

lemma strip_strip [simp]: "strip (strip d) = strip d"
  by (simp add: strip_def blank_def comp_def)

lemma strip_ignores [simp]:
  "strip (d\<lparr>waiting := ws\<rparr>) = strip d" "strip (d\<lparr>flushing := fl\<rparr>) = strip d"
  "strip (d\<lparr>flushes := n\<rparr>) = strip d" "strip (d\<lparr>renderQ := q\<rparr>) = strip d"
  by (simp_all add: strip_def)

lemma ideal_images [simp]:
  "images (ideal_action a d) = images d" "waiting (ideal_action a d) = waiting d"
  "renderQ (ideal_action a d) = renderQ d" "flushing (ideal_action a d) = flushing d"
  "flushes (ideal_action a d) = flushes d"
  by (cases a; simp add: flip_now_def copyImage_now_def damage_def call_def set_fill_def
      setFillColor_def exec_simps Let_def split: option.split)+

text \<open>An action that does not throw, and whose image is one of the \<open>n\<close> known; an action whose image is
  there with the announced size.\<close>

definition action_ok :: "nat \<Rightarrow> action \<Rightarrow> bool" where
  "action_ok n a = (case a of
     Fill x y w h c \<Rightarrow> c \<noteq> None
   | Img i x y w h \<Rightarrow> i < n
   | Blit x y w h data \<Rightarrow> data \<noteq> [] \<and> length data = nat (w * h * 4)
   | _ \<Rightarrow> True)"

definition image_ok :: "image list \<Rightarrow> action \<Rightarrow> bool" where
  "image_ok imgs a = (case a of
     Img i x y w h \<Rightarrow> complete (imgs ! i) \<and> img_width (imgs ! i) = w \<and> img_height (imgs ! i) = h
   | _ \<Rightarrow> True)"

lemma perform_ideal:
  "action_ok n a \<Longrightarrow> image_ok (images d) a \<Longrightarrow> perform a d = (Inr (), ideal_action a d)"
  by (cases a) (auto simp: action_ok_def image_ok_def exec_simps fillRect_now_def set_fill_def
      setFillColor_def blitImage_now_def ta_view_def drawImage_def call_def)


section \<open>The scanner\<close>

text \<open>The invariant of the queue: every action can be drawn once its image is there, and what is at
  its head is an image the scanner waits for, or one it will not draw.\<close>

definition head_waits :: "display \<Rightarrow> bool" where
  "head_waits d = (case renderQ d of
     [] \<Rightarrow> True
   | a # q \<Rightarrow> (case a of
       Img i x y w h \<Rightarrow> i \<in> set (waiting d) \<or>
         (complete (images d ! i) \<and> (img_width (images d ! i) \<noteq> w \<or> img_height (images d ! i) \<noteq> h))
     | _ \<Rightarrow> False))"

definition queue_inv :: "display \<Rightarrow> bool" where
  "queue_inv d \<longleftrightarrow> list_all (action_ok (length (images d))) (renderQ d) \<and> head_waits d"

lemma ideal_clears: "ideal_action a (d\<lparr>renderQ := q\<rparr>) = (ideal_action a d)\<lparr>renderQ := q\<rparr>"
  by (cases a) (simp_all add: flip_now_def presented_clip copyImage_now_def damage_def
      call_def set_fill_def setFillColor_def exec_simps Let_def split: option.split)

text \<open>One turn of the loop, by what is at the head of the queue.\<close>

lemma scan_empty: "renderQ d = [] \<Longrightarrow> scan_loop n d = (Inr True, d)"
  by (cases n) (simp_all add: exec_simps)

lemma scan_ready:
  assumes "renderQ d = a # q" "action_ok n a" "image_ok (images d) a"
  shows "scan_loop (Suc m) d = scan_loop m ((ideal_action a d)\<lparr>renderQ := q\<rparr>)"
  using assms(1) perform_ideal [OF assms(2,3)] assms(3) ideal_images(3) [of a d]
  by (cases a) (simp_all add: exec_simps image_ok_def renderQ_shift_def)

lemma scan_image:
  assumes "renderQ d = a # q" "\<not> image_ok (images d) a"
  obtains i x y w h where "a = Img i x y w h"
    "scan_loop (Suc n) d = (if complete (images d ! i) then (Inr False, d)
       else (Inr True, d\<lparr>waiting := List.insert i (waiting d)\<rparr>))"
    "complete (images d ! i) \<Longrightarrow> img_width (images d ! i) \<noteq> w \<or> img_height (images d ! i) \<noteq> h"
  using assms by (cases a) (auto simp: exec_simps image_ok_def)

lemma scan_loop_spec:
  assumes "list_all (action_ok (length (images d))) (renderQ d)" "length (renderQ d) \<le> n"
  shows "\<exists>b d'. scan_loop n d = (Inr b, d') \<and> settle d' = settle d \<and>
    list_all (action_ok (length (images d'))) (renderQ d') \<and> head_waits d' \<and> images d' = images d \<and>
    flushing d' = flushing d \<and> flushes d' = flushes d \<and> (\<not> b \<longrightarrow> renderQ d' \<noteq> []) \<and>
    set (waiting d) \<subseteq> set (waiting d') \<and>
    (list_all (image_ok (images d)) (renderQ d) \<longrightarrow> renderQ d' = [])"
  using assms
proof (induction n arbitrary: d)
  case 0
  then show ?case
    by (intro exI [of _ True] exI [of _ d]) (simp add: exec_simps head_waits_def)
next
  case (Suc n)
  show ?case
  proof (cases "renderQ d")
    case Nil
    then show ?thesis
      by (intro exI [of _ True] exI [of _ d])
        (simp add: scan_empty [OF Nil] head_waits_def del: scan_loop.simps)
  next
    case (Cons a q)
    then have ok: "action_ok (length (images d)) a" using Suc.prems by simp
    show ?thesis
    proof (cases "image_ok (images d) a")
      case True
      let ?d = "(ideal_action a d)\<lparr>renderQ := q\<rparr>"
      have "settle ?d = settle d" by (simp add: settle_def Cons ideal_strip)
      moreover have "list_all (action_ok (length (images ?d))) (renderQ ?d)" "length (renderQ ?d) \<le> n"
        using Suc.prems Cons by simp_all
      ultimately show ?thesis
        using Suc.IH [of ?d] unfolding scan_ready [OF Cons ok True] by (auto simp: Cons)
    next
      case False
      then obtain i x y w h where "a = Img i x y w h"
        "scan_loop (Suc n) d = (if complete (images d ! i) then (Inr False, d)
           else (Inr True, d\<lparr>waiting := List.insert i (waiting d)\<rparr>))"
        "complete (images d ! i) \<Longrightarrow> img_width (images d ! i) \<noteq> w \<or> img_height (images d ! i) \<noteq> h"
        using scan_image [OF Cons, of n] by metis
      with False Suc.prems Cons show ?thesis
        by (auto simp: head_waits_def settle_def image_ok_def)
    qed
  qed
qed


lemma scanRenderQ_spec:
  assumes "list_all (action_ok (length (images d))) (renderQ d)"
  shows "\<exists>d'. scanRenderQ d = (Inr (), d') \<and> settle d' = settle d \<and> queue_inv d' \<and>
    images d' = images d \<and> (renderQ d' = [] \<longrightarrow> \<not> flushing d') \<and>
    (flushing d' \<longrightarrow> flushing d) \<and>
    set (waiting d) \<subseteq> set (waiting d') \<and>
    flushes d' = flushes d + (if renderQ d' = [] \<and> flushing d then 1 else 0) \<and>
    (list_all (image_ok (images d)) (renderQ d) \<longrightarrow> renderQ d' = [])"
proof -
  obtain b d' where l: "scan_loop (length (renderQ d)) d = (Inr b, d')" "settle d' = settle d"
    "list_all (action_ok (length (images d'))) (renderQ d')" "head_waits d'" "images d' = images d"
    "flushing d' = flushing d" "flushes d' = flushes d" "\<not> b \<longrightarrow> renderQ d' \<noteq> []"
    "set (waiting d) \<subseteq> set (waiting d')"
    "list_all (image_ok (images d)) (renderQ d) \<longrightarrow> renderQ d' = []"
    using scan_loop_spec [OF assms order_refl] by (elim exE conjE) (rule that)
  then show ?thesis
    by (cases b; cases "renderQ d' = [] \<and> flushing d'")
      (auto simp: scanRenderQ_def exec_simps queue_inv_def onflush_def settle_def head_waits_def)
qed



section \<open>Requests and events\<close>

text \<open>The drawing operations with their arguments. A block of pixels is drawn from the beginning of an array
  of its own (\<open>DBlit\<close>), or from a place inside a larger buffer (\<open>DBlitAt\<close>, with the offset of the view and
  the offset in it), as the raw and hextile decoders do with the receive buffer.\<close>

datatype draw_request =
    DFlip
  | DCopy int int int int int int
  | DFill int int int int colour
  | DBlit int int int int "byte list"
  | DBlitAt int int int int "byte list" nat nat
  | DImage int int int int string "byte list"

primrec draw :: "draw_request \<Rightarrow> (display, unit) exec" where
  "draw DFlip = flip"
| "draw (DCopy oldX oldY x y w h) = copyImage oldX oldY x y w h"
| "draw (DFill x y w h c) = fillRect x y w h c"
| "draw (DBlit x y w h data) = blitImage x y w h data 0 0"
| "draw (DBlitAt x y w h buffer byteOffset offset) = blitImage x y w h buffer byteOffset offset"
| "draw (DImage x y w h mime arr) = imageRect x y w h mime arr"

text \<open>What happens meanwhile: an image is decoded (once), its \<open>load\<close> event arrives, somebody asks to
  be told when the queue is empty.\<close>

datatype event = Decoded nat int int | Loaded nat | AskFlush

primrec happen :: "event \<Rightarrow> display \<Rightarrow> display" where
  "happen (Decoded i w h) d =
     (if i < length (images d) \<and> \<not> complete (images d ! i) then image_decoded i w h d else d)"
| "happen (Loaded i) d = snd (resumeRenderQ i d)"
| "happen AskFlush d = flush_display d"





lemma settle_images [simp]: "images (settle d) = map blank (images d)"
proof -
  have "images (fold ideal_action q e) = images e" for q e by (induction q arbitrary: e) simp_all
  then show ?thesis by (simp add: settle_def strip_def)
qed



lemma blank_new [simp]: "blank (new_image mime arr) = new_image mime arr"
  by (simp add: blank_def new_image_def)




section \<open>Properties\<close>

abbreviation run :: "(draw_request + event) list \<Rightarrow> display \<Rightarrow> display" where
  "run es \<equiv> fold (event_step (\<lambda>r d. snd (draw r d)) happen) es"


text \<open>C34. Nothing is left undrawn: when the queue is not empty, its head is an image, and once every
  queued image has arrived with the announced size, the \<open>load\<close> event of that head (which the display
  listens to) draws everything, and calls \<open>onflush\<close> once if it was asked to.\<close>

theorem queue_drains:
  assumes "queue_inv d" "renderQ d = a # q" "list_all (image_ok (images d)) (renderQ d)"
  shows "\<exists>i x y w h. a = Img i x y w h \<and> i \<in> set (waiting d) \<and>
    renderQ (snd (resumeRenderQ i d)) = [] \<and> fst (resumeRenderQ i d) = Inr () \<and>
    flushes (snd (resumeRenderQ i d)) = flushes d + (if flushing d then 1 else 0)"
proof -
  obtain i x y w h where i: "a = Img i x y w h" "i \<in> set (waiting d)"
    using assms by (auto simp: queue_inv_def head_waits_def image_ok_def split: action.splits)
  let ?d = "d\<lparr>waiting := remove1 i (waiting d)\<rparr>"
  have "list_all (action_ok (length (images ?d))) (renderQ ?d)" using assms(1) by (simp add: queue_inv_def)
  with i assms(3) show ?thesis using scanRenderQ_spec [of ?d]
    by (auto simp: resumeRenderQ_def exec_simps)
qed


theorem queue_drains_witness:
  "let d = (new_display 16 16 16 16)\<lparr>renderQ := [Img 0 8 0 4 4, Fill 0 0 8 8 (Some [1, 2, 3])],
      images := [\<lparr>complete = True, img_width = 4, img_height = 4, src = ''''\<rparr>], waiting := [0],
      flushing := True\<rparr>
   in \<exists>i x y w h. Img 0 8 0 4 4 = Img i x y w h \<and> i \<in> set (waiting d) \<and>
    renderQ (snd (resumeRenderQ i d)) = [] \<and> fst (resumeRenderQ i d) = Inr () \<and>
    flushes (snd (resumeRenderQ i d)) = flushes d + (if flushing d then 1 else 0)"
  unfolding Let_def
  by (rule queue_drains)
    (simp_all add: new_display_def queue_inv_def head_waits_def action_ok_def image_ok_def)

section \<open>An image of the wrong size\<close>

definition blocked :: "display \<Rightarrow> bool" where
  "blocked d \<longleftrightarrow> (case renderQ d of
     Img i x y w h # q \<Rightarrow> i < length (images d) \<and> complete (images d ! i) \<and>
       (img_width (images d ! i) \<noteq> w \<or> img_height (images d ! i) \<noteq> h)
   | _ \<Rightarrow> False)"

definition frozen :: "display \<Rightarrow> display \<Rightarrow> bool" where
  "frozen d d' \<longleftrightarrow> blocked d' \<and> hd (renderQ d') = hd (renderQ d) \<and> renderQ d' \<noteq> [] \<and>
     cmds d' = cmds d \<and> flushes d' = flushes d"

lemma blocked_cases:
  assumes "blocked d"
  obtains i x y w h q where "renderQ d = Img i x y w h # q" "i < length (images d)"
    "complete (images d ! i)" "img_width (images d ! i) \<noteq> w \<or> img_height (images d ! i) \<noteq> h"
  using assms by (auto simp: blocked_def split: list.splits action.splits)

lemma blocked_push: "blocked d \<Longrightarrow> frozen d (snd (renderQPush a d))"
  by (elim blocked_cases) (auto simp: blocked_def frozen_def renderQPush_def exec_simps)

lemma blocked_scan: "blocked d \<Longrightarrow> scanRenderQ d = (Inr (), d)"
  by (elim blocked_cases) (auto simp: scanRenderQ_def exec_simps)

lemma blocked_new_image: "blocked d \<Longrightarrow> blocked (d\<lparr>images := images d @ [im]\<rparr>)"
  by (elim blocked_cases) (auto simp: blocked_def nth_append)

lemma blocked_draw:
  assumes "blocked d"
  shows "frozen d (snd (draw r d))"
proof -
  have q: "renderQ d \<noteq> []" using assms by (auto elim: blocked_cases)
  have refl: "frozen d d" using assms q by (simp add: frozen_def)
  show ?thesis
  proof (cases r)
    case (DImage x y w h mime arr)
    have "frozen d (snd (renderQPush a (d\<lparr>images := images d @ [im]\<rparr>)))" for a and im
      using blocked_push [OF blocked_new_image [OF assms, of im], of a] by (simp add: frozen_def)
    then show ?thesis using refl unfolding DImage by (simp add: imageRect_def exec_simps)
  next
    case (DBlit x y w h data)
    then show ?thesis using q refl blocked_push [OF assms]
      by (auto simp: blitImage_def exec_simps split: sum.split)
  next
    case (DBlitAt x y w h buf bo off)
    then show ?thesis using q refl blocked_push [OF assms]
      by (auto simp: blitImage_def exec_simps split: sum.split)
  qed (use q blocked_push [OF assms] in
    \<open>simp_all add: flip_def copyImage_def fillRect_def now_or_later_def exec_simps\<close>)
qed

lemma blocked_happen:
  assumes "blocked d"
  shows "frozen d (happen e d)"
proof -
  have q: "renderQ d \<noteq> []" using assms by (auto elim: blocked_cases)
  show ?thesis
  proof (cases e)
    case (Loaded i)
    have "blocked (d\<lparr>waiting := ws\<rparr>)" for ws
      using assms by (elim blocked_cases) (simp add: blocked_def)
    then show ?thesis using assms q unfolding Loaded
      by (simp add: resumeRenderQ_def exec_simps blocked_scan frozen_def)
  next
    case (Decoded i w h)
    then show ?thesis using assms q
      by (elim blocked_cases) (auto simp: image_decoded_def frozen_def blocked_def nth_list_update)
  next
    case AskFlush
    then show ?thesis using assms q
      by (elim blocked_cases) (simp add: flush_display_def frozen_def blocked_def)
  qed
qed

text \<open>C35. One image of the wrong size blocks the display for good: once such an image is at the head of
  the queue, no later sequence of drawing calls, image arrivals, \<open>load\<close> events or flush requests
  removes it, no canvas call is made again by them, and a requested flush is never reported.\<close>

theorem wrong_size_blocks:
  assumes "blocked d"
  shows "frozen d (run es d)"
  using assms
proof (induction es arbitrary: d)
  case Nil
  then show ?case by (auto simp: frozen_def elim: blocked_cases)
next
  case (Cons e es)
  have f: "frozen d (event_step (\<lambda>r d. snd (draw r d)) happen e d)"
    using blocked_draw [OF Cons.prems] blocked_happen [OF Cons.prems] by (cases e) simp_all
  then have "blocked (event_step (\<lambda>r d. snd (draw r d)) happen e d)" by (simp add: frozen_def)
  from Cons.IH [OF this] f show ?case by (simp add: frozen_def)
qed

theorem wrong_size_blocks_witness:
  "let d = (new_display 16 16 16 16)\<lparr>renderQ := [Img 0 8 0 4 4],
      images := [\<lparr>complete = True, img_width = 5, img_height = 4, src = ''''\<rparr>]\<rparr>
   in frozen d (run [Inl DFlip, Inr AskFlush, Inr (Loaded 0)] d)"
  unfolding Let_def by (rule wrong_size_blocks) (simp add: blocked_def)

text \<open>A block of pixels drawn from inside a larger buffer (an offset, or a view that does not start
  with the buffer): drawn at once it shows the bytes at its offset, drawn while the queue is not
  empty it is queued with the bytes from the beginning of the buffer.\<close>

theorem blit_offset_ignored:
  assumes "0 < n" "n = nat (w * h * 4)" "off + n \<le> length buf"
  shows "if renderQ d = []
    then cmds (snd (blitImage x y w h buf 0 off d)) = cmds d @ [PutImage (take n (drop off buf)) w h x y]
    else renderQ (snd (blitImage x y w h buf 0 off d)) = renderQ d @ [Blit x y w h (take n buf)]"
  using assms(1,3) unfolding blitImage_def blitImage_now_def assms(2) [symmetric]
  by (auto simp: exec_simps ta_view_def damage_def call_def renderQPush_def)

theorem blit_offset_ignored_witness:
  "\<exists>d :: display. renderQ d = [Flip] \<and> renderQ (snd (blitImage 0 0 1 1 [1, 2, 3, 4, 5, 6, 7, 8] 0 4 d))
    = renderQ d @ [Blit 0 0 1 1 (take 4 [1, 2, 3, 4, 5, 6, 7, 8])]"
proof -
  have n: "(0 :: nat) < 4" "(4 :: nat) = nat (1 * 1 * 4)"
    and l: "(4 :: nat) + 4 \<le> length [1, 2, 3, 4, 5, 6, 7, 8 :: byte]" by simp_all
  obtain d :: display where d: "renderQ d = [Flip]"
    by (rule that [of "(new_display 9 9 9 9)\<lparr>renderQ := [Flip]\<rparr>"]) simp
  moreover have "renderQ (snd (blitImage 0 0 1 1 [1, 2, 3, 4, 5, 6, 7, 8] 0 4 d))
      = renderQ d @ [Blit 0 0 1 1 (take 4 [1, 2, 3, 4, 5, 6, 7, 8])]"
    using blit_offset_ignored [OF n l, of d 0 0] d by (metis list.distinct(1))
  ultimately show ?thesis by blast
qed

end
