(* ===== verification/Display_Viewport.thy ===== *)
theory Display_Viewport
  imports Canvas_Display
begin

text \<open>
  What is visible, for \<^verbatim>\<open>core/display.js\<close>: the viewport stays inside the framebuffer, an update
  shows everything that was drawn in it, the fill colour on the canvas is the one asked for, and
  positions on the screen map into the visible part of the framebuffer.
\<close>

section \<open>The damage\<close>

definition in_rect :: "int \<Rightarrow> int \<Rightarrow> int \<Rightarrow> int \<Rightarrow> int \<Rightarrow> int \<Rightarrow> bool" where
  "in_rect px py x y w h \<longleftrightarrow> x \<le> px \<and> px < x + w \<and> y \<le> py \<and> py < y + h"

definition in_damage :: "int \<Rightarrow> int \<Rightarrow> display \<Rightarrow> bool" where
  "in_damage px py d \<longleftrightarrow> left d \<le> px \<and> px < right d \<and> top d \<le> py \<and> py < bottom d"

definition visible :: "int \<Rightarrow> int \<Rightarrow> display \<Rightarrow> bool" where
  "visible px py d \<longleftrightarrow> in_rect px py (vp_x d) (vp_y d) (vp_w d) (vp_h d)"

text \<open>A point of the framebuffer that a \<open>Present\<close> call copies to its place in the visible canvas.\<close>

definition copies :: "int \<Rightarrow> int \<Rightarrow> display \<Rightarrow> canvas_cmd \<Rightarrow> bool" where
  "copies px py d c \<longleftrightarrow> (\<exists>x y w h. c = Present x y w h (x - vp_x d) (y - vp_y d) \<and> in_rect px py x y w h)"

lemma presented_copies:
  "(\<exists>c \<in> set (presented d). copies px py d c) \<longleftrightarrow> in_damage px py d \<and> visible px py d"
  unfolding presented_clip Let_def in_damage_def visible_def in_rect_def copies_def
  by auto

lemma damage_covers:
  "in_damage px py d \<Longrightarrow> in_damage px py (damage x y w h d)"
  "in_rect px py x y w h \<Longrightarrow> in_damage px py (damage x y w h d)"
  by (auto simp: in_damage_def in_rect_def damage_def)

lemma flip_idle: "renderQ d = [] \<Longrightarrow> flip d = (Inr (), flip_now d)"
  by (simp add: flip_def now_or_later_def exec_simps)

lemma flip_now_fields [simp]:
  "vp_x (flip_now d) = vp_x d" "vp_y (flip_now d) = vp_y d" "vp_w (flip_now d) = vp_w d"
  "vp_h (flip_now d) = vp_h d" "fbWidth (flip_now d) = fbWidth d" "fbHeight (flip_now d) = fbHeight d"
  "renderQ (flip_now d) = renderQ d" "clipViewport (flip_now d) = clipViewport d"
  "scale (flip_now d) = scale d" "cmds (flip_now d) = cmds d @ presented d"
  by (simp_all add: flip_now_def call_def)

text \<open>C23. An update shows the damage: with nothing queued, \<open>flip\<close> copies a point of the framebuffer to
  its place in the visible canvas exactly when the point is in the damaged rectangle and in the
  viewport, and afterwards nothing is damaged.\<close>

theorem flip_shows_damage:
  assumes "renderQ d = []"
  shows "fst (flip d) = Inr () \<and>
    (\<exists>cs. cmds (snd (flip d)) = cmds d @ cs \<and> length cs \<le> 1 \<and>
      (\<forall>px py. (\<exists>c \<in> set cs. copies px py d c) \<longleftrightarrow> in_damage px py d \<and> visible px py d)) \<and>
    (\<forall>px py. \<not> in_damage px py (snd (flip d)))"
proof -
  have "length (presented d) \<le> 1" by (simp add: presented_clip Let_def)
  moreover have "\<not> in_damage px py (flip_now d)" for px py
    by (simp add: flip_now_def in_damage_def)
  ultimately show ?thesis unfolding flip_idle [OF assms]
    using presented_copies by (intro conjI exI [of _ "presented d"] allI) auto
qed

theorem flip_shows_damage_witness:
  "fst (flip (new_display 16 16 16 16)) = Inr () \<and>
    (\<exists>cs. cmds (snd (flip (new_display 16 16 16 16))) = cmds (new_display 16 16 16 16) @ cs \<and> length cs \<le> 1 \<and>
      (\<forall>px py. (\<exists>c \<in> set cs. copies px py (new_display 16 16 16 16) c) \<longleftrightarrow>
        in_damage px py (new_display 16 16 16 16) \<and> visible px py (new_display 16 16 16 16))) \<and>
    (\<forall>px py. \<not> in_damage px py (snd (flip (new_display 16 16 16 16))))"
  by (rule flip_shows_damage) (simp add: new_display_def)

section \<open>The viewport\<close>

definition viewport_inside :: "display \<Rightarrow> bool" where
  "viewport_inside d \<longleftrightarrow> 0 \<le> vp_x d \<and> 0 \<le> vp_w d \<and> vp_x d + vp_w d \<le> fbWidth d \<and>
     0 \<le> vp_y d \<and> 0 \<le> vp_h d \<and> vp_y d + vp_h d \<le> fbHeight d"

definition viewport_fits :: "display \<Rightarrow> bool" where
  "viewport_fits d \<longleftrightarrow> 0 \<le> vp_x d \<and> 0 \<le> vp_w d \<and> vp_w d \<le> fbWidth d \<and>
     0 \<le> vp_y d \<and> 0 \<le> vp_h d \<and> vp_h d \<le> fbHeight d"

text \<open>The geometry of the viewport: what no drawing operation changes.\<close>

definition geometry :: "display \<Rightarrow> int \<times> int \<times> int \<times> int \<times> int \<times> int \<times> bool \<times> rat option" where
  "geometry d = (vp_x d, vp_y d, vp_w d, vp_h d, fbWidth d, fbHeight d, clipViewport d, scale d)"

lemma geometry_simps [simp]:
  "geometry (d\<lparr>renderQ := q\<rparr>) = geometry d" "geometry (d\<lparr>waiting := ws\<rparr>) = geometry d"
  "geometry (d\<lparr>flushing := f\<rparr>) = geometry d" "geometry (d\<lparr>flushes := n\<rparr>) = geometry d"
  "geometry (d\<lparr>prevDrawStyle := st\<rparr>) = geometry d" "geometry (call cs d) = geometry d"
  "geometry (damage x y w h d) = geometry d" "geometry (flip_now d) = geometry d"
  "geometry (onflush d) = geometry d"
  by (simp_all add: geometry_def call_def damage_def onflush_def)

lemma perform_geometry: "geometry (snd (perform a d)) = geometry d"
  by (cases a) (simp_all add: exec_simps copyImage_now_def fillRect_now_def setFillColor_def Let_def
      blitImage_now_def drawImage_def split: option.split sum.split)

lemma scan_loop_geometry: "geometry (snd (scan_loop n d)) = geometry d"
proof (induction n arbitrary: d)
  case (Suc n)
  have go: "geometry (snd (thenx (perform a) (thenx (modify renderQ_shift) (scan_loop n)) d)) = geometry d" for a
    using Suc.IH perform_geometry [of a d]
    by (cases "perform a d"; cases "fst (perform a d)") (simp_all add: exec_simps renderQ_shift_def)
  show ?case
  proof (cases "renderQ d")
    case (Cons a q)
    then show ?thesis using go [of a]
      by (cases a) (simp_all add: bindx_def gets_def thenx_def modify_def ret_def Let_def)
  qed (simp add: exec_simps)
qed (simp add: exec_simps)

lemma scanRenderQ_geometry: "geometry (snd (scanRenderQ d)) = geometry d"
  using scan_loop_geometry [of "length (renderQ d)" d]
  by (cases "scan_loop (length (renderQ d)) d"; cases "fst (scan_loop (length (renderQ d)) d)")
    (auto simp: scanRenderQ_def exec_simps)

lemma renderQPush_geometry: "geometry (snd (renderQPush a d)) = geometry d"
  using scanRenderQ_geometry by (simp add: renderQPush_def exec_simps)

lemma flip_geometry: "geometry (snd (flip d)) = geometry d"
  by (simp add: flip_def now_or_later_def exec_simps renderQPush_geometry)

text \<open>A move takes the position as far as the framebuffer allows: the clamps of the code amount to
  this, for a viewport no larger than the framebuffer.\<close>

definition clamped :: "int \<Rightarrow> int \<Rightarrow> int \<Rightarrow> int" where
  "clamped pos sz limit = max 0 (min (limit - sz) pos)"

lemma clamp_steps:
  fixes x w fb dlt :: int
  assumes "0 \<le> x" "0 \<le> w" "w \<le> fb"
  shows "(let dlt = (if dlt < 0 \<and> x + dlt < 0 then - x else dlt);
      dlt = (if x + w - 1 + dlt \<ge> fb then dlt - (x + w - 1 + dlt - fb + 1) else dlt) in x + dlt)
    = clamped (x + dlt) w fb"
    "(let dlt = (if x + dlt < 0 then - x else dlt);
      dlt = (if x + w - 1 + dlt \<ge> fb then dlt - (x + w - 1 + dlt - fb + 1) else dlt) in x + dlt)
    = clamped (x + dlt) w fb"
  using assms by (auto simp: Let_def clamped_def)

lemma viewportChangePos_steps:
  "viewportChangePos dx dy d =
    (let sx = step_x d (fst (move_by d dx dy)); sy = step_y d (snd (move_by d dx dy)) in
     if sx = 0 \<and> sy = 0 then (Inr (), d)
     else (let d = d\<lparr>vp_x := vp_x d + sx, vp_y := vp_y d + sy\<rparr>
       in flip (damage (vp_x d) (vp_y d) (vp_w d) (vp_h d) d)))"
  by (simp add: viewportChangePos_def Let_def bindx_def gets_def ret_def thenx_def modify_def
      split: prod.split)

lemma viewportChangePos_geometry:
  assumes "viewport_fits d"
  shows "geometry (snd (viewportChangePos dx dy d)) =
    (clamped (vp_x d + fst (move_by d dx dy)) (vp_w d) (fbWidth d),
     clamped (vp_y d + snd (move_by d dx dy)) (vp_h d) (fbHeight d),
     vp_w d, vp_h d, fbWidth d, fbHeight d, clipViewport d, scale d)"
proof -
  obtain mx my where m: "move_by d dx dy = (mx, my)" by (cases "move_by d dx dy")
  have "vp_x d + step_x d mx = clamped (vp_x d + mx) (vp_w d) (fbWidth d)"
    "vp_y d + step_y d my = clamped (vp_y d + my) (vp_h d) (fbHeight d)"
    using assms clamp_steps [of "vp_x d" "vp_w d" "fbWidth d" mx] clamp_steps [of "vp_y d" "vp_h d" "fbHeight d" my]
    by (simp_all add: viewport_fits_def step_x_def step_y_def Let_def)
  then show ?thesis unfolding viewportChangePos_steps m
    by (auto simp: flip_geometry Let_def geometry_def [of "d\<lparr>vp_x := a, vp_y := b\<rparr>" for a b])
      (auto simp: geometry_def)
qed

text \<open>Moving the viewport moves it by the distance asked for (to the origin when it is not clipped),
  as far as the framebuffer allows: its position is clamped, its size and the framebuffer stay, and
  it ends up inside the framebuffer.\<close>

theorem viewport_move:
  assumes "viewport_fits d"
  shows "let d' = snd (viewportChangePos dx dy d) in
    vp_x d' = clamped (vp_x d + fst (move_by d dx dy)) (vp_w d) (fbWidth d) \<and>
    vp_y d' = clamped (vp_y d + snd (move_by d dx dy)) (vp_h d) (fbHeight d) \<and>
    vp_w d' = vp_w d \<and> vp_h d' = vp_h d \<and> viewport_inside d'"
  using viewportChangePos_geometry [OF assms, of dx dy] assms
  by (auto simp: geometry_def Let_def viewport_inside_def viewport_fits_def clamped_def)

theorem viewport_move_witness:
  "let d = (new_display 10 10 0 0)\<lparr>fbWidth := 15, fbHeight := 12, clipViewport := True\<rparr>;
    d' = snd (viewportChangePos 9 (-3) d) in
    vp_x d' = clamped (vp_x d + fst (move_by d 9 (-3))) (vp_w d) (fbWidth d) \<and>
    vp_y d' = clamped (vp_y d + snd (move_by d 9 (-3))) (vp_h d) (fbHeight d) \<and>
    vp_w d' = vp_w d \<and> vp_h d' = vp_h d \<and> viewport_inside d'"
  unfolding Let_def [of "(new_display 10 10 0 0)\<lparr>fbWidth := 15, fbHeight := 12, clipViewport := True\<rparr>"]
  by (rule viewport_move) (simp add: viewport_fits_def new_display_def)

lemma rescale_geometry [simp]:
  "geometry (rescale f d) = (vp_x d, vp_y d, vp_w d, vp_h d, fbWidth d, fbHeight d, clipViewport d, f)"
  by (simp add: rescale_def geometry_def Let_def)

lemma new_size_clip: "new_size d (Some w) (Some h) =
    (if clipViewport d then (min \<lfloor>w\<rfloor> (fbWidth d), min \<lfloor>h\<rfloor> (fbHeight d)) else (fbWidth d, fbHeight d))"
  by (auto simp: new_size_def Let_def min_def)

lemma flip_ok: "fst (flip d) = Inr ()"
  by (cases "renderQ d") (auto simp: flip_def now_or_later_def renderQPush_def exec_simps)

lemma viewportChangePos_ok: "fst (viewportChangePos dx dy d) = Inr ()"
  unfolding viewportChangePos_steps by (simp add: Let_def flip_ok split: prod.split)

lemma viewportChangeSize_steps:
  assumes "new_size d (Some w) (Some h) = (nw, nh)"
  shows "viewportChangeSize (Some w) (Some h) d =
    (if vp_w d \<noteq> nw \<or> vp_h d \<noteq> nh then
       (let d1 = snd (viewportChangePos 0 0 (call [TargetSize nw nh] (d\<lparr>vp_w := nw, vp_h := nh\<rparr>)));
            d2 = snd (flip (damage (vp_x d1) (vp_y d1) (vp_w d1) (vp_h d1) d1))
        in (Inr (), rescale (scale d2) d2))
     else (Inr (), d))"
  using assms by (simp add: viewportChangeSize_def exec_steps viewportChangePos_ok flip_ok ret_def Let_def
      modify_def)

lemma viewportChangeSize_geometry:
  assumes "0 \<le> vp_x d" "0 \<le> vp_y d" "new_size d (Some w) (Some h) = (nw, nh)" "0 \<le> nw" "0 \<le> nh"
    "nw \<le> fbWidth d" "nh \<le> fbHeight d" "d' = snd (viewportChangeSize (Some w) (Some h) d)"
  shows "0 \<le> vp_x d'" "0 \<le> vp_y d'" "vp_w d' = nw" "vp_h d' = nh" "fbWidth d' = fbWidth d"
    "fbHeight d' = fbHeight d" "clipViewport d' = clipViewport d"
proof -
  let ?d = "call [TargetSize nw nh] (d\<lparr>vp_w := nw, vp_h := nh\<rparr>)"
  have "viewport_fits ?d" using assms by (simp add: viewport_fits_def call_def)
  note g = viewportChangePos_geometry [OF this, of 0 0]
  let ?d1 = "snd (viewportChangePos 0 0 ?d)"
  let ?d2 = "snd (flip (damage (vp_x ?d1) (vp_y ?d1) (vp_w ?d1) (vp_h ?d1) ?d1))"
  have "geometry ?d2 = geometry ?d1" by (simp add: flip_geometry)
  with g have "0 \<le> vp_x ?d2" "0 \<le> vp_y ?d2" "vp_w ?d2 = nw" "vp_h ?d2 = nh" "fbWidth ?d2 = fbWidth d"
    "fbHeight ?d2 = fbHeight d" "clipViewport ?d2 = clipViewport d"
    by (auto simp: geometry_def clamped_def call_def)
  moreover have "geometry d' = geometry (if vp_w d \<noteq> nw \<or> vp_h d \<noteq> nh then ?d2 else d)"
    unfolding assms(8) viewportChangeSize_steps [OF assms(3)]
    by (simp add: Let_def) (simp add: geometry_def)
  ultimately show "0 \<le> vp_x d'" "0 \<le> vp_y d'" "vp_w d' = nw" "vp_h d' = nh" "fbWidth d' = fbWidth d"
    "fbHeight d' = fbHeight d" "clipViewport d' = clipViewport d"
    using assms(1,2) by (auto simp: geometry_def split: if_splits)
qed

lemma viewportChangeSize_ok: "fst (viewportChangeSize (Some w) (Some h) d) = Inr ()"
  by (cases "new_size d (Some w) (Some h)") (simp add: viewportChangeSize_steps Let_def)

text \<open>C22. After a resize of the framebuffer, whatever the viewport was, the viewport lies inside the new
  framebuffer: it keeps its size where it fits (all of the framebuffer when it is not clipped), and
  the resize throws nothing.\<close>

theorem resize_keeps_viewport_inside:
  assumes "0 \<le> width" "0 \<le> height" "0 \<le> vp_x d" "0 \<le> vp_y d" "0 \<le> vp_w d" "0 \<le> vp_h d"
  shows "let d' = snd (resize width height d) in
    viewport_inside d' \<and> fbWidth d' = width \<and> fbHeight d' = height \<and> fst (resize width height d) = Inr () \<and>
    vp_w d' = (if clipViewport d then min (vp_w d) width else width) \<and>
    vp_h d' = (if clipViewport d then min (vp_h d) height else height)"
proof -
  define d0 where "d0 = (let d = d\<lparr>prevDrawStyle := None, fbWidth := width, fbHeight := height\<rparr> in
       if back_w d \<noteq> width \<or> back_h d \<noteq> height then
         let saved = (back_w d > 0 \<and> back_h d > 0) in
         (call ((if saved then [SaveBack (back_w d) (back_h d)] else [])
              @ (if back_w d \<noteq> width then [BackWidth width] else [])
              @ (if back_h d \<noteq> height then [BackHeight height] else [])
              @ (if saved then [RestoreBack] else [])) d)\<lparr>back_w := width, back_h := height\<rparr>
       else d)"
  have g: "vp_x d0 = vp_x d" "vp_y d0 = vp_y d" "vp_w d0 = vp_w d" "vp_h d0 = vp_h d"
    "fbWidth d0 = width" "fbHeight d0 = height" "clipViewport d0 = clipViewport d"
    by (simp_all add: d0_def Let_def call_def)
  obtain nw nh where n: "new_size d0 (Some (of_int (vp_w d0))) (Some (of_int (vp_h d0))) = (nw, nh)"
    by (cases "new_size d0 (Some (of_int (vp_w d0))) (Some (of_int (vp_h d0)))")
  then have nn: "nw = (if clipViewport d then min (vp_w d) width else width)"
    "nh = (if clipViewport d then min (vp_h d) height else height)"
    by (auto simp: new_size_clip g split: if_splits)
  let ?d1 = "snd (viewportChangeSize (Some (of_int (vp_w d0))) (Some (of_int (vp_h d0))) d0)"
  have r: "resize width height d = viewportChangePos 0 0 ?d1"
    unfolding resize_def thenx_def [of "modify _"] bindx_def modify_def gets_def d0_def
    by (simp add: thenx_ok viewportChangeSize_ok)
  have "viewport_fits ?d1" and w: "vp_w ?d1 = nw" "vp_h ?d1 = nh" "fbWidth ?d1 = width" "fbHeight ?d1 = height"
    using viewportChangeSize_geometry [OF _ _ n _ _ _ _ refl] assms g nn
    by (auto simp: viewport_fits_def split: if_splits)
  from viewportChangePos_geometry [OF this(1), of 0 0] this
  have "viewport_inside (snd (viewportChangePos 0 0 ?d1))" "vp_w (snd (viewportChangePos 0 0 ?d1)) = nw"
    "vp_h (snd (viewportChangePos 0 0 ?d1)) = nh" "fbWidth (snd (viewportChangePos 0 0 ?d1)) = width"
    "fbHeight (snd (viewportChangePos 0 0 ?d1)) = height"
    by (auto simp: geometry_def viewport_inside_def viewport_fits_def clamped_def)
  then show ?thesis unfolding r Let_def using viewportChangePos_ok nn by simp
qed

theorem resize_keeps_viewport_inside_witness:
  "let d' = snd (resize 640 480 (new_display 800 200 300 150)) in
    viewport_inside d' \<and> fbWidth d' = 640 \<and> fbHeight d' = 480 \<and>
    fst (resize 640 480 (new_display 800 200 300 150)) = Inr () \<and>
    vp_w d' = (if clipViewport (new_display 800 200 300 150) then min (vp_w (new_display 800 200 300 150)) 640 else 640) \<and>
    vp_h d' = (if clipViewport (new_display 800 200 300 150) then min (vp_h (new_display 800 200 300 150)) 480 else 480)"
  by (rule resize_keeps_viewport_inside) (simp_all add: new_display_def)

section \<open>Scale and positions\<close>

text \<open>Scaling to a container: the scaled viewport fits into the container, touches it in one
  direction, and the size of the canvas element is set to the scaled size.\<close>

theorem autoscale_fits:
  assumes "0 < cw" "0 < ch" "0 < vp_w d" "0 < vp_h d"
  shows "\<exists>s. scale (autoscale cw ch d) = Some s \<and> 0 < s \<and>
    s * of_int (vp_w d) \<le> cw \<and> s * of_int (vp_h d) \<le> ch \<and>
    (s * of_int (vp_w d) = cw \<or> s * of_int (vp_h d) = ch) \<and>
    style_w (autoscale cw ch d) = Px (s * of_int (vp_w d)) \<and>
    style_h (autoscale cw ch d) = Px (s * of_int (vp_h d))"
proof -
  let ?w = "of_int (vp_w d) :: rat" and ?h = "of_int (vp_h d) :: rat"
  have pos: "0 < ?w" "0 < ?h" using assms by simp_all
  let ?s = "if ?w / ?h \<ge> cw / ch then cw / ?w else ch / ?h"
  have a: "autoscale cw ch d = rescale (Some ?s) d"
    using assms by (simp add: autoscale_def)
  have cmp: "?w / ?h \<ge> cw / ch \<longleftrightarrow> cw * ?h \<le> ?w * ch"
    using pos assms by (simp add: field_simps)
  have "0 < ?s" using pos assms by simp
  moreover have "?s * ?w \<le> cw" "?s * ?h \<le> ch" "?s * ?w = cw \<or> ?s * ?h = ch"
    unfolding cmp using pos assms by (auto simp: field_simps)
  ultimately show ?thesis unfolding a
    by (intro exI [of _ ?s]) (simp add: rescale_def Let_def)
qed

theorem autoscale_fits_witness:
  "\<exists>s. scale (autoscale 100 100 (new_display 200 50 0 0)) = Some s \<and> 0 < s \<and>
    s * of_int (vp_w (new_display 200 50 0 0)) \<le> 100 \<and> s * of_int (vp_h (new_display 200 50 0 0)) \<le> 100 \<and>
    (s * of_int (vp_w (new_display 200 50 0 0)) = 100 \<or> s * of_int (vp_h (new_display 200 50 0 0)) = 100) \<and>
    style_w (autoscale 100 100 (new_display 200 50 0 0)) = Px (s * of_int (vp_w (new_display 200 50 0 0))) \<and>
    style_h (autoscale 100 100 (new_display 200 50 0 0)) = Px (s * of_int (vp_h (new_display 200 50 0 0)))"
  by (rule autoscale_fits) (simp_all add: new_display_def)

lemma abs_coord_inside:
  assumes "0 < s" "0 \<le> x" "x < s * of_int n" "0 \<le> off" "off + n < 2 ^ 31"
  shows "off \<le> abs_coord x off (Some s)" "abs_coord x off (Some s) < off + n"
proof -
  have q: "0 \<le> x / s" "x / s < of_int n" using assms(1-3) by (simp_all add: field_simps)
  then have "0 \<le> \<lfloor>x / s\<rfloor>" "\<lfloor>x / s\<rfloor> < n" by (simp_all add: floor_less_iff)
  moreover have "js_trunc (x / s + of_int off) = \<lfloor>x / s\<rfloor> + off"
    using q(1) assms(4) by (simp add: js_trunc_def)
  moreover have "toSigned32bit (\<lfloor>x / s\<rfloor> + off) = \<lfloor>x / s\<rfloor> + off"
    using calculation assms(4,5) by (intro toSigned32bit_nonneg) simp_all
  ultimately show "off \<le> abs_coord x off (Some s)" "abs_coord x off (Some s) < off + n"
    using assms(1) by (simp_all add: abs_coord_def)
qed

text \<open>C32. A position on the scaled canvas maps into the visible part of the framebuffer, so what the
  pointer reports is a pixel of the framebuffer.\<close>

theorem pointer_in_viewport:
  assumes "viewport_inside d" "fbWidth d \<le> 65535" "fbHeight d \<le> 65535" "scale d = Some s" "0 < s"
    "0 \<le> x" "x < s * of_int (vp_w d)" "0 \<le> y" "y < s * of_int (vp_h d)"
  shows "visible (absX x d) (absY y d) d \<and> 0 \<le> absX x d \<and> absX x d < fbWidth d \<and>
    0 \<le> absY y d \<and> absY y d < fbHeight d"
  using abs_coord_inside [of s x "vp_w d" "vp_x d"] abs_coord_inside [of s y "vp_h d" "vp_y d"] assms
  by (simp add: viewport_inside_def visible_def in_rect_def absX_def absY_def)

theorem pointer_in_viewport_witness:
  "let d = (new_display 200 100 0 0)\<lparr>fbWidth := 400, fbHeight := 300, vp_x := 50, scale := Some (1 / 2)\<rparr>
   in visible (absX 99 d) (absY (99 / 2) d) d \<and> 0 \<le> absX 99 d \<and> absX 99 d < fbWidth d \<and>
    0 \<le> absY (99 / 2) d \<and> absY (99 / 2) d < fbHeight d"
  unfolding Let_def
  by (rule pointer_in_viewport [where s = "1 / 2"]) (simp_all add: new_display_def viewport_inside_def)

section \<open>The fill colour\<close>

text \<open>What the canvas does with its calls: \<open>fillStyle\<close> stays until it is set again, and setting the
  size of a canvas resets it.\<close>

fun style_after :: "byte option list option \<Rightarrow> canvas_cmd list \<Rightarrow> byte option list option" where
  "style_after st [] = st"
| "style_after st (FillStyle s # cs) = style_after (Some s) cs"
| "style_after st (BackWidth n # cs) = style_after None cs"
| "style_after st (BackHeight n # cs) = style_after None cs"
| "style_after st (c # cs) = style_after st cs"

fun fills :: "byte option list option \<Rightarrow> canvas_cmd list \<Rightarrow>
    (byte option list option \<times> int \<times> int \<times> int \<times> int) list" where
  "fills st [] = []"
| "fills st (FillRect x y w h # cs) = (st, x, y, w, h) # fills st cs"
| "fills st (c # cs) = fills (style_after st [c]) cs"

lemma style_after_append: "style_after st (cs @ cs') = style_after (style_after st cs) cs'"
  by (induction st cs rule: style_after.induct) simp_all

lemma fills_append: "fills st (cs @ cs') = fills st cs @ fills (style_after st cs) cs'"
  by (induction st cs rule: fills.induct) (simp_all)

definition style_inv :: "display \<Rightarrow> bool" where
  "style_inv d \<longleftrightarrow> prevDrawStyle d = None \<or> prevDrawStyle d = style_after None (cmds d)"

lemma prevDrawStyle_simps [simp]:
  "prevDrawStyle (call cs d) = prevDrawStyle d" "cmds (call cs d) = cmds d @ cs"
  "prevDrawStyle (damage x y w h d) = prevDrawStyle d" "cmds (damage x y w h d) = cmds d"
  "prevDrawStyle (flip_now d) = prevDrawStyle d"
  by (simp_all add: call_def damage_def flip_now_def)

lemma presented_style: "style_after st (presented d) = st" "fills st (presented d) = []"
  by (simp_all add: presented_clip Let_def)

definition drawn_fills :: "action \<Rightarrow> (byte option list option \<times> int \<times> int \<times> int \<times> int) list" where
  "drawn_fills a = (case a of
     Fill x y w h c \<Rightarrow> (case c of Some c \<Rightarrow> [(Some (rgb c), x, y, w, h)] | None \<Rightarrow> [])
   | _ \<Rightarrow> [])"

lemma perform_style:
  assumes "style_inv d"
  shows "style_inv (snd (perform a d)) \<and>
    fills None (cmds (snd (perform a d))) = fills None (cmds d) @ drawn_fills a"
  using assms
  by (cases a) (auto simp: style_inv_def drawn_fills_def exec_simps copyImage_now_def fillRect_now_def
      setFillColor_def Let_def blitImage_now_def drawImage_def style_after_append
      fills_append presented_style split: option.split sum.split)

lemma flip_style: "prevDrawStyle (snd (flip d)) = prevDrawStyle d"
  by (cases "renderQ d") (simp_all add: flip_def now_or_later_def renderQPush_def exec_simps)

lemma viewportChangePos_style: "prevDrawStyle (snd (viewportChangePos dx dy d)) = prevDrawStyle d"
  by (simp add: viewportChangePos_steps Let_def flip_style)

lemma viewportChangeSize_style:
  "prevDrawStyle (snd (viewportChangeSize (Some w) (Some h) d)) = prevDrawStyle d"
  by (cases "new_size d (Some w) (Some h)")
    (simp add: viewportChangeSize_steps Let_def rescale_def flip_style viewportChangePos_style)

text \<open>Every rectangle is filled in the colour asked for, although the code skips setting a colour
  that the canvas already has: the remembered colour is the canvas's own, drawing keeps it so, and a
  resize, which resets the canvas, forgets it.\<close>

theorem fills_in_colour:
  assumes "style_inv d"
  shows "style_inv (snd (perform a d)) \<and>
    fills None (cmds (snd (perform a d))) = fills None (cmds d) @ drawn_fills a \<and>
    style_inv (snd (resize width height d))"
proof -
  have "prevDrawStyle (snd (resize width height d)) = None"
    unfolding resize_def exec_steps
    by (simp add: exec_steps viewportChangeSize_ok viewportChangePos_style viewportChangeSize_style Let_def)
  then show ?thesis using perform_style [OF assms] by (simp add: style_inv_def)
qed

theorem fills_in_colour_witness:
  "let d = snd (perform (Fill 0 0 4 4 (Some [1, 2, 3])) (new_display 8 8 8 8)) in
    style_inv (snd (perform (Fill 1 1 2 2 (Some [1, 2, 3])) d)) \<and>
    fills None (cmds (snd (perform (Fill 1 1 2 2 (Some [1, 2, 3])) d))) =
      fills None (cmds d) @ drawn_fills (Fill 1 1 2 2 (Some [1, 2, 3])) \<and>
    style_inv (snd (resize 9 9 d))"
  unfolding Let_def
  by (rule fills_in_colour) (rule perform_style [THEN conjunct1], simp add: style_inv_def new_display_def)

end
