(* ===== verification/Stream_Decoder.thy ===== *)
theory Stream_Decoder
  imports JS_Prelude
begin

text \<open>
  The contract of a rectangle decoder towards the network: bytes arrive in pieces of any size. A
  decoder is described by what it does with the unread bytes: \<open>parse k bs\<close> starts in the state \<open>k\<close>
  it kept from an earlier call and gives back its result (an exception, or whether the rectangle is
  complete), the drawing calls it made, the state it keeps and the bytes it left unread. \<open>deliver\<close>
  is the receive loop around it: a piece arrives, the decoder is called on everything unread, until
  the rectangle is complete or an exception ends it.
\<close>

type_synonym ('k, 'o) outcome = "(js_error + bool) \<times> 'o list \<times> 'k \<times> byte list"

type_synonym ('k, 'o) parser = "'k \<Rightarrow> byte list \<Rightarrow> ('k, 'o) outcome"

definition continue_with :: "'o list \<Rightarrow> ('k, 'o) outcome \<Rightarrow> ('k, 'o) outcome" where
  "continue_with os r = (case r of (b, os', k, rest) \<Rightarrow> (b, os @ os', k, rest))"

fun deliver :: "('k, 'o) parser \<Rightarrow> 'k \<Rightarrow> byte list \<Rightarrow> byte list list \<Rightarrow> ('k, 'o) outcome" where
  "deliver parse k buf [] = (Inr False, [], k, buf)"
| "deliver parse k buf (c # cs) = (case parse k (buf @ c) of (r, os, k', rest) \<Rightarrow>
     if r = Inr False then continue_with os (deliver parse k' rest cs)
     else (r, os, k', rest @ concat cs))"

lemma continue_with_simps [simp]:
  "continue_with os (b, os', k, rest) = (b, os @ os', k, rest)"
  "continue_with [] r = r"
  "continue_with os (continue_with os' r) = continue_with (os @ os') r"
  by (auto simp: continue_with_def split: prod.splits)

locale stream_decoder =
  fixes parse :: "('k, 'o) parser"
  assumes parse_done: "parse k bs = (r, os, k', rest) \<Longrightarrow> r \<noteq> Inr False \<Longrightarrow>
      parse k (bs @ d) = (r, os, k', rest @ d)"
    and parse_more: "parse k bs = (Inr False, os, k', rest) \<Longrightarrow>
      parse k (bs @ d) = continue_with os (parse k' (rest @ d))"
begin

text \<open>However the bytes are cut into pieces, the result is that of all of them at once.\<close>

theorem deliver_pieces:
  "cs \<noteq> [] \<Longrightarrow> deliver parse k buf cs = parse k (buf @ concat cs)"
proof (induction cs arbitrary: k buf)
  case Nil
  then show ?case by simp
next
  case (Cons c cs)
  obtain r os k' rest where p: "parse k (buf @ c) = (r, os, k', rest)" by (metis prod_cases4)
  show ?case
  proof (cases "r = Inr False")
    case False
    then show ?thesis using p parse_done [OF p, of "concat cs"] by simp
  next
    case True
    show ?thesis
    proof (cases "cs = []")
      case True
      then show ?thesis using p \<open>r = Inr False\<close> by simp
    next
      case ne: False
      then show ?thesis
        using p True Cons.IH [OF ne, of k' rest] parse_more [of k "buf @ c" os k' rest "concat cs"] by simp
    qed
  qed
qed

end

section \<open>Loops over a counted step\<close>

text \<open>A decoder that reads its rectangle in steps, each whole or not at all, counting down what is left.\<close>

fun parse_loop :: "('k, 'o) parser \<Rightarrow> nat \<Rightarrow> ('k, 'o) parser" where
  "parse_loop step 0 k bs = (Inr True, [], k, bs)"
| "parse_loop step (Suc n) k bs = (case step k bs of (r, os, k', rest) \<Rightarrow>
     if r = Inr True then continue_with os (parse_loop step n k' rest) else (r, os, k', rest))"

locale step_parser =
  fixes step :: "('k, 'o) parser"
    and left :: "'k \<Rightarrow> int"
  assumes step_done: "step k bs = (r, os, k', rest) \<Longrightarrow> r \<noteq> Inr False \<Longrightarrow>
      step k (bs @ d) = (r, os, k', rest @ d)"
    and step_wait: "step k bs = (Inr False, os, k', rest) \<Longrightarrow> os = [] \<and> k' = k \<and> rest = bs"
    and step_left: "step k bs = (Inr True, os, k', rest) \<Longrightarrow> left k' = left k - 1"
    and step_consumes: "step k bs = (r, os, k', rest) \<Longrightarrow> length rest \<le> length bs"
begin

lemma loop_done:
  "parse_loop step n k bs = (r, os, k', rest) \<Longrightarrow> r \<noteq> Inr False \<Longrightarrow>
    parse_loop step n k (bs @ d) = (r, os, k', rest @ d)"
proof (induction n arbitrary: k bs os)
  case (Suc n)
  obtain r1 os1 k1 rest1 where s: "step k bs = (r1, os1, k1, rest1)" by (metis prod_cases4)
  show ?case
  proof (cases "r1 = Inr True")
    case True
    then obtain os2 where "parse_loop step n k1 rest1 = (r, os2, k', rest)" "os = os1 @ os2"
      using Suc.prems(1) s by (cases "parse_loop step n k1 rest1") auto
    with Suc.IH [OF this(1) Suc.prems(2)] step_done [OF s, of d] True show ?thesis by simp
  next
    case False
    then show ?thesis using Suc.prems s step_done [OF s, of d] by auto
  qed
qed simp

lemma loop_more:
  "parse_loop step n k bs = (Inr False, os, k', rest) \<Longrightarrow> left k = int n \<Longrightarrow>
    0 < left k' \<and> parse_loop step n k (bs @ d) = continue_with os (parse_loop step (nat (left k')) k' (rest @ d))"
proof (induction n arbitrary: k bs os)
  case (Suc n)
  obtain r1 os1 k1 rest1 where s: "step k bs = (r1, os1, k1, rest1)" by (metis prod_cases4)
  show ?case
  proof (cases "r1 = Inr True")
    case True
    then obtain os2 where p: "parse_loop step n k1 rest1 = (Inr False, os2, k', rest)" "os = os1 @ os2"
      using Suc.prems(1) s by (cases "parse_loop step n k1 rest1") auto
    have "left k1 = int n" using step_left [of k bs] s True Suc.prems(2) by auto
    from Suc.IH [OF p(1) this] step_done [OF s, of d] True p(2) show ?thesis by simp
  next
    case False
    then have "r1 = Inr False" "os1 = os" "k1 = k'" "rest1 = rest" using Suc.prems(1) s by auto
    with step_wait [of k bs os1 k1 rest1] s have "os = []" "k' = k" "rest = bs" by auto
    moreover have "nat (left k) = Suc n" using Suc.prems(2) by simp
    ultimately show ?thesis using Suc.prems(2) by simp
  qed
qed simp

lemma loop_consumes:
  "parse_loop step n k bs = (r, os, k', rest) \<Longrightarrow> length rest \<le> length bs"
proof (induction n arbitrary: k bs os)
  case (Suc n)
  obtain r1 os1 k1 rest1 where s: "step k bs = (r1, os1, k1, rest1)" by (metis prod_cases4)
  show ?case
  proof (cases "r1 = Inr True")
    case True
    then obtain os2 where "parse_loop step n k1 rest1 = (r, os2, k', rest)"
      using Suc.prems(1) s by (cases "parse_loop step n k1 rest1") auto
    from Suc.IH [OF this] step_consumes [OF s] show ?thesis by simp
  next
    case False
    then show ?thesis using Suc.prems s step_consumes [OF s] by auto
  qed
qed simp

end

end
