(* ===== verification/Rect_Decoders.thy ===== *)
theory Rect_Decoders
  imports Websock_Queues Canvas_Display Stream_Decoder
begin

text \<open>
  The decoders of \<^verbatim>\<open>core/decoders/copyrect.js\<close>, \<^verbatim>\<open>rre.js\<close> and \<^verbatim>\<open>raw.js\<close>. A decoder reads from the
  socket and draws on the display, so its computations run on a state that holds both and the fields
  of the decoder objects; later theories extend that record. Each decoder is related to a parser on
  the list of unread bytes, and the parser to the contract of \<open>Stream_Decoder\<close>.
\<close>

section \<open>State\<close>

record dctx =
  sock :: websock
  disp :: display

record rect_ctx = dctx +
  rre_subrects :: int
  raw_lines :: int

definition on_sock :: "(websock, 'a) exec \<Rightarrow> ('s dctx_scheme, 'a) exec" where
  "on_sock = zoom sock (\<lambda>t s. s\<lparr>sock := t\<rparr>)"

definition on_disp :: "(display, 'a) exec \<Rightarrow> ('s dctx_scheme, 'a) exec" where
  "on_disp = zoom disp (\<lambda>t s. s\<lparr>disp := t\<rparr>)"

section \<open>CopyRect\<close>

definition copyrect_decodeRect :: "int \<Rightarrow> int \<Rightarrow> int \<Rightarrow> int \<Rightarrow> ('s dctx_scheme, bool) exec" where
  "copyrect_decodeRect x y width height =
     bindx (on_sock (rQwait 4 0)) (\<lambda>w. if w then ret False else
     bindx (on_sock rQshift16) (\<lambda>deltaX.
     bindx (on_sock rQshift16) (\<lambda>deltaY.
     if width = 0 \<or> height = 0 then ret True
     else thenx (on_disp (copyImage deltaX deltaY x y width height)) (ret True))))"

section \<open>RRE\<close>

text \<open>The loop; every turn counts one subrectangle down, so their number bounds the turns.\<close>

primrec rre_loop :: "nat \<Rightarrow> int \<Rightarrow> int \<Rightarrow> ('s rect_ctx_scheme, bool) exec" where
  "rre_loop 0 x y = ret True"
| "rre_loop (Suc n) x y = bindx (gets rre_subrects) (\<lambda>k. if k > 0 then
     bindx (on_sock (rQwait (4 + 8) 0)) (\<lambda>w. if w then ret False else
     bindx (on_sock (rQshiftBytes 4)) (\<lambda>color.
     bindx (on_sock rQshift16) (\<lambda>sx.
     bindx (on_sock rQshift16) (\<lambda>sy.
     bindx (on_sock rQshift16) (\<lambda>swidth.
     bindx (on_sock rQshift16) (\<lambda>sheight.
     thenx (on_disp (fillRect (x + sx) (y + sy) swidth sheight (Some color)))
    (thenx (modify (\<lambda>s. s\<lparr>rre_subrects := rre_subrects s - 1\<rparr>))
     (rre_loop n x y))))))))
   else ret True)"

definition rre_decodeRect :: "int \<Rightarrow> int \<Rightarrow> int \<Rightarrow> int \<Rightarrow> ('s rect_ctx_scheme, bool) exec" where
  "rre_decodeRect x y width height = bindx (gets rre_subrects) (\<lambda>k.
     let rest = bindx (gets rre_subrects) (\<lambda>k. rre_loop (nat k) x y) in
     if k = 0 then
       bindx (on_sock (rQwait (4 + 4) 0)) (\<lambda>w. if w then ret False else
       bindx (on_sock rQshift32) (\<lambda>n.
       thenx (modify (\<lambda>s. s\<lparr>rre_subrects := n\<rparr>))
      (bindx (on_sock (rQshiftBytes 4)) (\<lambda>color.
       thenx (on_disp (fillRect x y width height (Some color))) rest))))
     else rest)"

section \<open>Raw\<close>

definition set_alpha :: "nat \<Rightarrow> nat \<Rightarrow> byte list \<Rightarrow> byte list" where
  "set_alpha base pixels data = fold (\<lambda>i data. data[base + i * 4 + 3 := 255]) [0..<pixels] data"

lemma length_set_alpha [simp]: "length (set_alpha b n data) = length data"
proof -
  have "length (fold (\<lambda>i data. data[b + i * 4 + 3 := 255]) is data) = length data" for "is"
    by (induction "is" arbitrary: data) simp_all
  then show ?thesis by (simp add: set_alpha_def)
qed

text \<open>One pixel of depth 8; the two bits of each component are scaled to \<open>0, 85, 170, 255\<close>.\<close>

definition pixel8 :: "byte \<Rightarrow> byte list" where
  "pixel8 b = map (\<lambda>n. to_byte (js_and (js_sar (uint b) n) 3 * 255 div 3)) [0, 2, 4] @ [255]"

definition raw_decodeRect :: "int \<Rightarrow> int \<Rightarrow> int \<Rightarrow> int \<Rightarrow> int \<Rightarrow> ('s rect_ctx_scheme, bool) exec" where
  "raw_decodeRect x y width height depth =
     (if width = 0 \<or> height = 0 then ret True else
      thenx (modify (\<lambda>s. if raw_lines s = 0 then s\<lparr>raw_lines := height\<rparr> else s))
     (let pixelSize = (if depth = 8 then 1 else 4); bytesPerLine = width * pixelSize in
      bindx (on_sock (rQwait bytesPerLine 0)) (\<lambda>w. if w then ret False else
      bindx (gets id) (\<lambda>s.
        let curY = y + (height - raw_lines s);
            currHeight = min (raw_lines s) (rQlen (sock s) div bytesPerLine);
            pixels = nat (width * currHeight)
        in
        thenx
          (if depth = 8 then
             let newdata = concat (map (\<lambda>i. pixel8 (to_byte (rQ_at (sock s) (rQi (sock s) + i)))) [0..<pixels])
             in on_disp (blitImage x curY width currHeight (set_alpha 0 pixels newdata) 0 0)
           else
             thenx (on_sock (modify (\<lambda>t. t\<lparr>rQ := set_alpha 0 pixels (rQ t)\<rparr>)))
            (bindx (gets sock) (\<lambda>t. on_disp (blitImage x curY width currHeight (rQ t) 0 (rQi t)))))
       (thenx (on_sock (modify (rQskipBytes (nat (currHeight * bytesPerLine)))))
       (thenx (modify (\<lambda>s. s\<lparr>raw_lines := raw_lines s - currHeight\<rparr>))
       (bindx (gets raw_lines) (\<lambda>l. ret (\<not> l > 0)))))))))"

end
