(* ===== verification/Decoder_Steps.thy ===== *)
theory Decoder_Steps
  imports Rect_Decoders Display_Order
begin

text \<open>
  How a decoder's reads and drawing calls act on the state it shares with the socket and the display:
  the step lemmas the decoder proofs rewrite with, and the contract \<open>rect_decoder\<close> of a decoder that
  carries out a parser of the unread bytes. \<open>receive\<close> is the code's receive loop around one
  rectangle: a message is queued, the decoder is called, until it reports the rectangle complete.
\<close>

section \<open>Reading and drawing in the state of a decoder\<close>

definition skip :: "nat \<Rightarrow> 's dctx_scheme \<Rightarrow> 's dctx_scheme" where
  "skip n s = s\<lparr>sock := rQskipBytes n (sock s)\<rparr>"

interpretation dq: byte_queue "\<lambda>s. rq_inv (sock s)" "\<lambda>s. unread (sock s)" skip
    "\<lambda>m k. on_sock (rQwait m k)" "\<lambda>n. on_sock (rQshift n)" "\<lambda>n. on_sock (rQshiftBytes n)"
  by unfold_locales
    (auto simp: skip_def on_sock_def zoom_def rq.adv_ok rq.adv_unread rq.adv_adv rq.adv_0 rq.wait_here
      rq.wait_back rq.shift rq.shift_bytes simp del: One_nat_def)

definition draws :: "draw_request list \<Rightarrow> display \<Rightarrow> display" where
  "draws rs d = fold (\<lambda>r d. snd (draw r d)) rs d"

lemma draws_append: "draws (rs @ rs') d = draws rs' (draws rs d)"
  by (simp add: draws_def)

lemma draws_simps [simp]: "draws [] d = d" "draws (r # rs) d = draws rs (snd (draw r d))"
  by (simp_all add: draws_def)

lemma fillRect_ok: "fst (fillRect x y w h (Some c) d) = Inr ()"
  by (cases "renderQ d") (auto simp: fillRect_def now_or_later_def renderQPush_def exec_simps
      fillRect_now_def setFillColor_def)

lemma copyImage_ok: "fst (copyImage ox oy x y w h d) = Inr ()"
  by (cases "renderQ d") (auto simp: copyImage_def now_or_later_def renderQPush_def exec_simps)

lemma on_disp_step: "fst (m (disp s)) = Inr a \<Longrightarrow>
    thenx (on_disp m) n s = n (s\<lparr>disp := snd (m (disp s))\<rparr>)"
  by (cases "m (disp s)") (simp add: on_disp_def zoom_def thenx_def bindx_def)

lemma skip_fields [simp]: "disp (skip n s) = disp s" "sock (skip n s) = rQskipBytes n (sock s)"
  by (simp_all add: skip_def)

lemma skip_commutes: "(skip n s)\<lparr>disp := d\<rparr> = skip n (s\<lparr>disp := d\<rparr>)"
  by (simp add: skip_def)

text \<open>Running a reader or a writer of the channel.\<close>

lemma bindx_sock: "bindx (on_sock m) f s =
    (case m (sock s) of (Inl e, t) \<Rightarrow> (Inl e, s\<lparr>sock := t\<rparr>) | (Inr a, t) \<Rightarrow> f a (s\<lparr>sock := t\<rparr>))"
  by (simp add: bindx_def on_sock_def zoom_def split: prod.split sum.split)

lemma thenx_sock: "thenx (on_sock m) n s =
    (case m (sock s) of (Inl e, t) \<Rightarrow> (Inl e, s\<lparr>sock := t\<rparr>) | (Inr a, t) \<Rightarrow> n (s\<lparr>sock := t\<rparr>))"
  by (simp add: thenx_def bindx_sock)

lemma shift16_step:
  "rq_inv (sock s) \<Longrightarrow> k + 2 \<le> length (unread (sock s)) \<Longrightarrow>
    bindx (on_sock rQshift16) f (skip k s) = f (shift_value 2 (drop k (unread (sock s)))) (skip (k + 2) s)"
  using dq.shift_adv [of s k 2] by (simp add: rQshift16_def bindx_ok)

lemma shift32_step:
  "rq_inv (sock s) \<Longrightarrow> k + 4 \<le> length (unread (sock s)) \<Longrightarrow>
    bindx (on_sock rQshift32) f (skip k s) = f (shift_value 4 (drop k (unread (sock s)))) (skip (k + 4) s)"
  using dq.shift_adv [of s k 4] by (simp add: rQshift32_def bindx_ok)

lemma shiftBytes_step:
  "rq_inv (sock s) \<Longrightarrow> k + n \<le> length (unread (sock s)) \<Longrightarrow>
    bindx (on_sock (rQshiftBytes (int n))) f (skip k s) = f (take n (drop k (unread (sock s)))) (skip (k + n) s)"
  using dq.shift_bytes_adv [of s k n] by (simp add: bindx_ok)

lemma shiftBytes_num:
  "rq_inv (sock s) \<Longrightarrow> k + numeral n \<le> length (unread (sock s)) \<Longrightarrow>
    bindx (on_sock (rQshiftBytes (numeral n))) f (skip k s)
      = f (take (numeral n) (drop k (unread (sock s)))) (skip (k + numeral n) s)"
  using shiftBytes_step [of s k "numeral n"] by simp

lemma wait_step:
  "rq_inv (sock s) \<Longrightarrow> k \<le> length (unread (sock s)) \<Longrightarrow>
    bindx (on_sock (rQwait m 0)) f (skip k s) = f (int (length (unread (sock s))) - int k < m) (skip k s)"
  using dq.wait_adv [of s k m] by (simp add: bindx_ok)

lemmas first_steps = shift16_step [of _ 0, unfolded dq.adv_0 add_0 drop_0]
  shift32_step [of _ 0, unfolded dq.adv_0 add_0 drop_0]
  shiftBytes_num [of _ 0, unfolded dq.adv_0 add_0 drop_0] wait_step [of _ 0, unfolded dq.adv_0]

declare add_2_eq_Suc [simp del] add_2_eq_Suc' [simp del]

section \<open>Decoders that carry out a parser\<close>

primrec feed_all :: "byte list list \<Rightarrow> ('s dctx_scheme, unit) exec" where
  "feed_all [] = ret ()"
| "feed_all (c # cs) = thenx (on_sock (DecodeMessage c)) (feed_all cs)"

primrec receive :: "('s dctx_scheme, bool) exec \<Rightarrow> byte list list \<Rightarrow> ('s dctx_scheme, bool) exec" where
  "receive m [] = ret False"
| "receive m (c # cs) = thenx (on_sock (DecodeMessage c))
     (\<lambda>s. case m s of
        (Inr False, s) \<Rightarrow> receive m cs s
      | (r, s) \<Rightarrow> (case feed_all cs s of (Inr _, s) \<Rightarrow> (r, s) | (Inl e, s) \<Rightarrow> (Inl e, s)))"

lemma feed_all_unread:
  "rq_inv (sock s) \<Longrightarrow> int (length (unread (sock s)) + length (concat cs)) \<le> MAX_RQ_GROW_SIZE \<Longrightarrow>
    \<exists>t. feed_all cs s = (Inr (), s\<lparr>sock := t\<rparr>) \<and> rq_inv t \<and> unread t = unread (sock s) @ concat cs"
proof (induction cs arbitrary: s)
  case Nil
  then show ?case by (intro exI [of _ "sock s"]) (simp add: ret_def)
next
  case (Cons c cs)
  obtain t where t: "DecodeMessage c (sock s) = (Inr (), t)" "rq_inv t" "unread t = unread (sock s) @ c"
    using rq.feed_ok [OF Cons.prems(1), of c] Cons.prems(2) by (auto simp: rq_fits_def)
  have "\<exists>t'. feed_all cs (s\<lparr>sock := t\<rparr>) = (Inr (), s\<lparr>sock := t, sock := t'\<rparr>) \<and> rq_inv t' \<and>
      unread t' = unread (sock (s\<lparr>sock := t\<rparr>)) @ concat cs"
    using Cons.prems(2) t by (intro Cons.IH) simp_all
  then show ?case using t by (auto simp: thenx_def bindx_def on_sock_def zoom_def)
qed

locale rect_decoder = stream_decoder parse
  for parse :: "('k, draw_request) parser" +
  fixes ready :: "'s dctx_scheme \<Rightarrow> bool"
    and kept :: "'s dctx_scheme \<Rightarrow> 'k"
    and decode :: "('s dctx_scheme, bool) exec"
  assumes decode_parse: "rq_inv (sock s) \<Longrightarrow> ready s \<Longrightarrow>
      parse (kept s) (unread (sock s)) = (r, os, k, rest) \<Longrightarrow>
      \<exists>s'. decode s = (r, s') \<and> rq_inv (sock s') \<and> unread (sock s') = rest \<and>
        disp s' = draws os (disp s) \<and> kept s' = k \<and> ready s'"
    and kept_sock: "kept (s\<lparr>sock := t\<rparr>) = kept s"
    and ready_sock: "ready (s\<lparr>sock := t\<rparr>) = ready s"
    and parse_consumes: "parse k bs = (r, os, k', rest) \<Longrightarrow> length rest \<le> length bs"
begin

lemma receive_deliver:
  assumes "rq_inv (sock s)" "ready s"
    and "int (length (unread (sock s)) + length (concat cs)) \<le> MAX_RQ_GROW_SIZE"
    and "deliver parse (kept s) (unread (sock s)) cs = (r, os, k, rest)"
  shows "\<exists>s'. receive decode cs s = (r, s') \<and> unread (sock s') = rest \<and>
    disp s' = draws os (disp s) \<and> kept s' = k"
  using assms
proof (induction cs arbitrary: s os)
  case Nil
  then show ?case by (simp add: ret_def)
next
  case (Cons c cs)
  obtain t where t: "DecodeMessage c (sock s) = (Inr (), t)" "rq_inv t" "unread t = unread (sock s) @ c"
    using rq.feed_ok [OF Cons.prems(1), of c] Cons.prems(3) by (auto simp: rq_fits_def)
  let ?t = "s\<lparr>sock := t\<rparr>"
  have step: "receive decode (c # cs) s = (case decode ?t of
        (Inr False, s) \<Rightarrow> receive decode cs s
      | (r, s) \<Rightarrow> (case feed_all cs s of (Inr _, s) \<Rightarrow> (r, s) | (Inl e, s) \<Rightarrow> (Inl e, s)))"
    using t by (simp add: thenx_def bindx_def on_sock_def zoom_def)
  obtain r1 os1 k1 rest1 where p: "parse (kept s) (unread (sock s) @ c) = (r1, os1, k1, rest1)"
    by (metis prod_cases4)
  obtain s1 where s1: "decode ?t = (r1, s1)" "rq_inv (sock s1)" "unread (sock s1) = rest1"
    "disp s1 = draws os1 (disp s)" "kept s1 = k1" "ready s1"
    using decode_parse [of ?t] t p Cons.prems(2) by (auto simp: kept_sock ready_sock)
  have fits: "int (length (unread (sock s1)) + length (concat cs)) \<le> MAX_RQ_GROW_SIZE"
    using parse_consumes [OF p] Cons.prems(3) s1(3) by simp
  show ?case
  proof (cases "r1 = Inr False")
    case True
    obtain os2 where d: "deliver parse k1 rest1 cs = (r, os2, k, rest)" "os = os1 @ os2"
      using Cons.prems(4) p True by (cases "deliver parse k1 rest1 cs") auto
    then show ?thesis
      using Cons.IH [of s1 os2] s1 fits step True by (auto simp: draws_append)
  next
    case False
    then have e: "r = r1" "os = os1" "k = k1" "rest = rest1 @ concat cs" using Cons.prems(4) p by auto
    obtain t' where "feed_all cs s1 = (Inr (), s1\<lparr>sock := t'\<rparr>)" "unread t' = rest1 @ concat cs"
      using feed_all_unread [OF s1(2) fits] s1(3) by auto
    then show ?thesis using step s1 e False
      by (auto simp: kept_sock split: sum.split bool.split)
  qed
qed

text \<open>The network may cut the bytes anywhere: the result, the picture, the decoder's state and what is
  left to read are those of one message with all of the bytes.\<close>

theorem receive_pieces:
  assumes "rq_inv (sock s)" "ready s" "cs \<noteq> []"
    and "int (length (unread (sock s)) + length (concat cs)) \<le> MAX_RQ_GROW_SIZE"
  shows "\<exists>r s1 s2. receive decode cs s = (r, s1) \<and> receive decode [concat cs] s = (r, s2) \<and>
    unread (sock s1) = unread (sock s2) \<and> disp s1 = disp s2 \<and> kept s1 = kept s2"
proof -
  obtain r os k rest where d: "deliver parse (kept s) (unread (sock s)) cs = (r, os, k, rest)"
    by (metis prod_cases4)
  then have "deliver parse (kept s) (unread (sock s)) [concat cs] = (r, os, k, rest)"
    using deliver_pieces [OF assms(3)] deliver_pieces [of "[concat cs]"] by simp
  from receive_deliver [OF assms(1,2) _ this] receive_deliver [OF assms(1,2,4) d] assms(4)
  show ?thesis by auto
qed

end

end
