(* ===== verification/Rect_Streams.thy ===== *)
theory Rect_Streams
  imports Decoder_Steps
begin

text \<open>
  CopyRect and RRE rectangles as parsers of the unread bytes: the decoders of the code carry out the
  parsers, and so do not depend on how the bytes were cut into messages.
\<close>

section \<open>CopyRect\<close>

definition copyrect_parse :: "int \<Rightarrow> int \<Rightarrow> int \<Rightarrow> int \<Rightarrow> (unit, draw_request) parser" where
  "copyrect_parse x y w h k bs =
     (if length bs < 4 then (Inr False, [], k, bs)
      else (Inr True, if w = 0 \<or> h = 0 then []
          else [DCopy (shift_value 2 bs) (shift_value 2 (drop 2 bs)) x y w h], k, drop 4 bs))"

interpretation copyrect: stream_decoder "copyrect_parse x y w h"
proof unfold_locales
  have sv: "2 \<le> length bs \<Longrightarrow> shift_value 2 (bs @ d) = shift_value 2 bs" for bs d
    by (simp add: shift_value_def)
  show "copyrect_parse x y w h k bs = (r, os, k', rest) \<Longrightarrow> r \<noteq> Inr False \<Longrightarrow>
      copyrect_parse x y w h k (bs @ d) = (r, os, k', rest @ d)" for k bs r os k' rest d
    by (auto simp: copyrect_parse_def sv split: if_splits)
  show "copyrect_parse x y w h k bs = (Inr False, os, k', rest) \<Longrightarrow>
      copyrect_parse x y w h k (bs @ d) = continue_with os (copyrect_parse x y w h k' (rest @ d))"
    for k bs os k' rest d
    by (auto simp: copyrect_parse_def split: if_splits)
qed

lemma copyrect_refines:
  assumes "rq_inv (sock s)" "copyrect_parse x y w h () (unread (sock s)) = (r, os, (), rest)"
  shows "\<exists>s'. copyrect_decodeRect x y w h s = (r, s') \<and> rq_inv (sock s') \<and>
    unread (sock s') = rest \<and> disp s' = draws os (disp s)"
proof (cases "length (unread (sock s)) < 4")
  case True
  then show ?thesis using assms
    by (simp add: copyrect_decodeRect_def first_steps copyrect_parse_def ret_def)
next
  case False
  then have "copyrect_decodeRect x y w h s = (if w = 0 \<or> h = 0 then (Inr True, skip 4 s)
      else (Inr True, skip 4 (s\<lparr>disp := snd (copyImage (shift_value 2 (unread (sock s)))
        (shift_value 2 (drop 2 (unread (sock s)))) x y w h (disp s))\<rparr>)))"
    using assms(1) by (simp add: copyrect_decodeRect_def first_steps shift16_step on_disp_step
        copyImage_ok ret_def skip_commutes)
  then show ?thesis using assms False
    by (auto simp: copyrect_parse_def rq.adv_ok rq.adv_unread split: if_splits)
qed


section \<open>RRE\<close>

definition rre_item :: "int \<Rightarrow> int \<Rightarrow> byte list \<Rightarrow> draw_request" where
  "rre_item x y bs = DFill (x + shift_value 2 (drop 4 bs)) (y + shift_value 2 (drop 6 bs))
     (shift_value 2 (drop 8 bs)) (shift_value 2 (drop 10 bs)) (Some (take 4 bs))"

fun rre_items :: "int \<Rightarrow> int \<Rightarrow> nat \<Rightarrow> byte list \<Rightarrow> (int, draw_request) outcome" where
  "rre_items x y 0 bs = (Inr True, [], 0, bs)"
| "rre_items x y (Suc n) bs =
     (if length bs < 12 then (Inr False, [], int (Suc n), bs)
      else continue_with [rre_item x y bs] (rre_items x y n (drop 12 bs)))"

definition rre_rest :: "int \<Rightarrow> int \<Rightarrow> int \<Rightarrow> byte list \<Rightarrow> (int, draw_request) outcome" where
  "rre_rest x y k bs = (if k > 0 then rre_items x y (nat k) bs else (Inr True, [], k, bs))"

definition rre_parse :: "int \<Rightarrow> int \<Rightarrow> int \<Rightarrow> int \<Rightarrow> (int, draw_request) parser" where
  "rre_parse x y w h k bs =
     (if k = 0 then
        if length bs < 8 then (Inr False, [], 0, bs)
        else continue_with [DFill x y w h (Some (take 4 (drop 4 bs)))]
          (rre_rest x y (shift_value 4 bs) (drop 8 bs))
      else rre_rest x y k bs)"

lemma rre_items_done:
  "rre_items x y n bs = (r, os, k', rest) \<Longrightarrow> r \<noteq> Inr False \<Longrightarrow>
    rre_items x y n (bs @ d) = (r, os, k', rest @ d)"
proof (induction n arbitrary: bs os)
  case (Suc n)
  then have l: "\<not> length bs < 12" by (auto split: if_splits)
  obtain os' where "rre_items x y n (drop 12 bs) = (r, os', k', rest)" "os = rre_item x y bs # os'"
    using Suc.prems l by (cases "rre_items x y n (drop 12 bs)") auto
  with Suc.IH [of "drop 12 bs" os'] l Suc.prems(2) show ?case
    by (simp add: rre_item_def shift_value_def)
qed simp

lemma rre_items_more:
  "rre_items x y n bs = (Inr False, os, k', rest) \<Longrightarrow>
    0 < k' \<and> rre_items x y n (bs @ d) = continue_with os (rre_items x y (nat k') (rest @ d))"
proof (induction n arbitrary: bs os)
  case (Suc n)
  show ?case
  proof (cases "length bs < 12")
    case True
    moreover have "nat (1 + int n) = Suc n" by simp
    ultimately show ?thesis using Suc.prems by auto
  next
    case l: False
    obtain os' where "rre_items x y n (drop 12 bs) = (Inr False, os', k', rest)" "os = rre_item x y bs # os'"
      using Suc.prems l by (cases "rre_items x y n (drop 12 bs)") auto
    with Suc.IH [of "drop 12 bs" os'] l show ?thesis
      by (simp add: rre_item_def shift_value_def)
  qed
qed simp

lemma rre_rest_done:
  "rre_rest x y k bs = (r, os, k', rest) \<Longrightarrow> r \<noteq> Inr False \<Longrightarrow>
    rre_rest x y k (bs @ d) = (r, os, k', rest @ d)"
  using rre_items_done [of x y "nat k" bs r os k' rest d] by (auto simp: rre_rest_def split: if_splits)

lemma rre_rest_more:
  "rre_rest x y k bs = (Inr False, os, k', rest) \<Longrightarrow>
    rre_rest x y k (bs @ d) = continue_with os (rre_parse x y w h k' (rest @ d))"
  using rre_items_more [of x y "nat k" bs os k' rest d]
  by (auto simp: rre_rest_def rre_parse_def split: if_splits)

lemma take_drop_4: "8 \<le> length bs \<Longrightarrow> take 4 (drop 4 (bs @ d)) = take 4 (drop 4 bs)"
  by simp

interpretation rre: stream_decoder "rre_parse x y w h"
proof unfold_locales
  fix k bs r os k' rest d
  assume p: "rre_parse x y w h k bs = (r, os, k', rest)" and r: "r \<noteq> Inr False"
  show "rre_parse x y w h k (bs @ d) = (r, os, k', rest @ d)"
  proof (cases "k = 0")
    case True
    then have l: "\<not> length bs < 8" using p r by (auto simp: rre_parse_def split: if_splits)
    obtain os' where "rre_rest x y (shift_value 4 bs) (drop 8 bs) = (r, os', k', rest)"
      "os = DFill x y w h (Some (take 4 (drop 4 bs))) # os'"
      using p True l by (cases "rre_rest x y (shift_value 4 bs) (drop 8 bs)") (auto simp: rre_parse_def)
    with rre_rest_done [of x y _ "drop 8 bs" r os' k' rest d] True l r show ?thesis
      by (simp add: rre_parse_def shift_value_def)
  next
    case False
    then show ?thesis using p r rre_rest_done by (simp add: rre_parse_def)
  qed
next
  fix k bs os k' rest d
  assume p: "rre_parse x y w h k bs = (Inr False, os, k', rest)"
  show "rre_parse x y w h k (bs @ d) = continue_with os (rre_parse x y w h k' (rest @ d))"
  proof (cases "k = 0")
    case True
    show ?thesis
    proof (cases "length bs < 8")
      case True
      then show ?thesis using p \<open>k = 0\<close> by (auto simp: rre_parse_def)
    next
      case l: False
      obtain os' where r: "rre_rest x y (shift_value 4 bs) (drop 8 bs) = (Inr False, os', k', rest)"
        and os: "os = DFill x y w h (Some (take 4 (drop 4 bs))) # os'"
        using p True l by (cases "rre_rest x y (shift_value 4 bs) (drop 8 bs)") (auto simp: rre_parse_def)
      have "rre_parse x y w h k (bs @ d) = continue_with [DFill x y w h (Some (take 4 (drop 4 bs)))]
          (rre_rest x y (shift_value 4 bs) (drop 8 bs @ d))"
        using True l by (simp add: rre_parse_def shift_value_def)
      also have "\<dots> = continue_with os (rre_parse x y w h k' (rest @ d))"
        unfolding rre_rest_more [OF r, where w = w and h = h] os by simp
      finally show ?thesis .
    qed
  next
    case False
    then show ?thesis using p rre_rest_more by (simp add: rre_parse_def)
  qed
qed


text \<open>The decoder carries out the parser.\<close>

lemma rre_subrects_skip [simp]: "rre_subrects (skip n s) = rre_subrects s"
  by (simp add: skip_def)

definition carried_out ::
  "('s rect_ctx_scheme, bool) exec \<Rightarrow> 's rect_ctx_scheme \<Rightarrow> (int, draw_request) outcome \<Rightarrow> bool"
where
  "carried_out m s r = (case r of (b, os, k, rest) \<Rightarrow> \<exists>s'. m s = (b, s') \<and> rq_inv (sock s') \<and>
     unread (sock s') = rest \<and> disp s' = draws os (disp s) \<and> rre_subrects s' = k)"

lemma rre_loop_carried_out:
  "rq_inv (sock s) \<Longrightarrow> rre_subrects s = int n \<Longrightarrow>
    carried_out (rre_loop n x y) s (rre_items x y n (unread (sock s)))"
proof (induction n arbitrary: s)
  case 0
  then show ?case by (simp add: carried_out_def ret_def)
next
  case (Suc n)
  let ?u = "unread (sock s)"
  show ?case
  proof (cases "length ?u < 12")
    case True
    then show ?thesis using Suc.prems
      by (simp add: bindx_gets first_steps ret_def carried_out_def)
  next
    case l: False
    let ?d = "snd (fillRect (x + shift_value 2 (drop 4 ?u)) (y + shift_value 2 (drop 6 ?u))
      (shift_value 2 (drop 8 ?u)) (shift_value 2 (drop 10 ?u)) (Some (take 4 ?u)) (disp s))"
    let ?s = "skip 12 (s\<lparr>disp := ?d, rre_subrects := int n\<rparr>)"
    have push: "(skip m s)\<lparr>rre_subrects := v\<rparr> = skip m (s\<lparr>rre_subrects := v\<rparr>)" for m v and s :: "'a rect_ctx_scheme"
      by (simp add: skip_def)
    have "rre_loop (Suc n) x y s = rre_loop n x y ?s"
      using Suc.prems l
      by (simp add: bindx_gets first_steps shift16_step on_disp_step fillRect_ok thenx_modify
          skip_commutes push)
    moreover have "carried_out (rre_loop n x y) ?s (rre_items x y n (unread (sock ?s)))"
      using Suc.prems(1) l by (intro Suc.IH) (simp_all add: rq.adv_ok)
    moreover have "unread (sock ?s) = drop 12 ?u" using Suc.prems(1) l by (simp add: rq.adv_unread)
    ultimately show ?thesis using l
      by (cases "rre_items x y n (drop 12 ?u)") (simp add: carried_out_def rre_item_def)
  qed
qed

lemma rre_decode_carried_out:
  assumes "rq_inv (sock s)"
  shows "carried_out (rre_decodeRect x y w h) s (rre_parse x y w h (rre_subrects s) (unread (sock s)))"
proof -
  have rest: "carried_out (bindx (gets rre_subrects) (\<lambda>k. rre_loop (nat k) x y)) t
      (rre_rest x y (rre_subrects t) (unread (sock t)))" if "rq_inv (sock t)" for t :: "'a rect_ctx_scheme"
  proof (cases "rre_subrects t > 0")
    case True
    then show ?thesis using rre_loop_carried_out [OF that, of "nat (rre_subrects t)" x y]
      by (simp add: rre_rest_def carried_out_def bindx_gets split: prod.splits)
  next
    case False
    then show ?thesis using that by (simp add: rre_rest_def carried_out_def bindx_gets ret_def)
  qed
  let ?u = "unread (sock s)"
  show ?thesis
  proof (cases "rre_subrects s = 0")
    case False
    then show ?thesis using rest [OF assms] by (simp add: rre_decodeRect_def rre_parse_def carried_out_def bindx_gets)
  next
    case k: True
    show ?thesis
    proof (cases "length ?u < 8")
      case True
      then show ?thesis using k assms
        by (simp add: rre_decodeRect_def rre_parse_def carried_out_def bindx_gets first_steps ret_def Let_def)
    next
      case l: False
      let ?d = "snd (fillRect x y w h (Some (take 4 (drop 4 ?u))) (disp s))"
      let ?s = "skip 8 (s\<lparr>rre_subrects := shift_value 4 ?u, disp := ?d\<rparr>)"
      have u: "unread (sock ?s) = drop 8 ?u" "rq_inv (sock ?s)"
        using assms l by (simp_all add: rq.adv_unread rq.adv_ok)
      have push: "(skip 4 s)\<lparr>rre_subrects := n\<rparr> = skip 4 (s\<lparr>rre_subrects := n\<rparr>)" for n
        by (simp add: skip_def)
      have "rre_decodeRect x y w h s = bindx (gets rre_subrects) (\<lambda>k. rre_loop (nat k) x y) ?s"
        unfolding rre_decodeRect_def Let_def bindx_gets [of rre_subrects _ s]
        using assms l k
        by (simp add: first_steps shiftBytes_num thenx_modify push on_disp_step fillRect_ok skip_commutes)
      then show ?thesis using rest [OF u(2)] k l unfolding u(1)
        by (cases "rre_rest x y (shift_value 4 ?u) (drop 8 ?u)")
          (simp add: carried_out_def rre_parse_def)
    qed
  qed
qed

section \<open>Independence of the network\<close>

lemma rre_items_consumes: "rre_items x y n bs = (r, os, k', rest) \<Longrightarrow> length rest \<le> length bs"
proof (induction n arbitrary: bs os)
  case (Suc n)
  show ?case
  proof (cases "length bs < 12")
    case False
    then obtain os' where "rre_items x y n (drop 12 bs) = (r, os', k', rest)"
      using Suc.prems by (cases "rre_items x y n (drop 12 bs)") auto
    from Suc.IH [OF this] show ?thesis by simp
  qed (use Suc.prems in auto)
qed simp

lemma rre_parse_consumes: "rre_parse x y w h k bs = (r, os, k', rest) \<Longrightarrow> length rest \<le> length bs"
proof -
  have rest: "rre_rest x y k bs = (r, os, k', rest) \<Longrightarrow> length rest \<le> length bs" for k bs os
    using rre_items_consumes by (auto simp: rre_rest_def split: if_splits)
  assume p: "rre_parse x y w h k bs = (r, os, k', rest)"
  show ?thesis
  proof (cases "k = 0 \<and> \<not> length bs < 8")
    case True
    then obtain os' where "rre_rest x y (shift_value 4 bs) (drop 8 bs) = (r, os', k', rest)"
      using p by (cases "rre_rest x y (shift_value 4 bs) (drop 8 bs)") (auto simp: rre_parse_def)
    from rest [OF this] show ?thesis by simp
  qed (use p rest in \<open>auto simp: rre_parse_def split: if_splits\<close>)
qed

interpretation copyrect_code: rect_decoder "copyrect_parse x y w h" "\<lambda>_. True" "\<lambda>_. ()"
    "copyrect_decodeRect x y w h"
proof unfold_locales
  show "\<exists>s'. copyrect_decodeRect x y w h s = (r, s') \<and> rq_inv (sock s') \<and> unread (sock s') = rest \<and>
      disp s' = draws os (disp s) \<and> () = k \<and> True"
    if "rq_inv (sock s)" "copyrect_parse x y w h () (unread (sock s)) = (r, os, k, rest)"
    for s :: "'a dctx_scheme" and r os k rest
    using copyrect_refines [OF that(1)] that(2) by simp
  show "copyrect_parse x y w h k bs = (r, os, k', rest) \<Longrightarrow> length rest \<le> length bs" for k bs r os k' rest
    by (auto simp: copyrect_parse_def split: if_splits)
qed simp_all

interpretation rre_code: rect_decoder "rre_parse x y w h" "\<lambda>_. True" rre_subrects "rre_decodeRect x y w h"
proof unfold_locales
  show "\<exists>s'. rre_decodeRect x y w h s = (r, s') \<and> rq_inv (sock s') \<and> unread (sock s') = rest \<and>
      disp s' = draws os (disp s) \<and> rre_subrects s' = k \<and> True"
    if "rq_inv (sock s)" "rre_parse x y w h (rre_subrects s) (unread (sock s)) = (r, os, k, rest)"
    for s :: "'a rect_ctx_scheme" and r os k rest
    using rre_decode_carried_out [OF that(1), of x y w h] that(2) by (simp add: carried_out_def)
  show "rre_parse x y w h k bs = (r, os, k', rest) \<Longrightarrow> length rest \<le> length bs" for k bs r os k' rest
    by (rule rre_parse_consumes)
qed simp_all

section \<open>Properties\<close>

text \<open>A CopyRect rectangle: with its four bytes at hand the decoder copies the area from the
  position they hold, reads exactly these bytes and reports completion; with fewer it reads nothing
  and draws nothing.\<close>

theorem copyrect_decodes:
  assumes "rq_inv (sock s)"
  shows "(length (unread (sock s)) < 4 \<longrightarrow> copyrect_decodeRect x y w h s = (Inr False, s)) \<and>
    (unread (sock s) = be16 sx @ be16 sy @ rest \<longrightarrow> w \<noteq> 0 \<longrightarrow> h \<noteq> 0 \<longrightarrow>
      (\<exists>s'. copyrect_decodeRect x y w h s = (Inr True, s') \<and> unread (sock s') = rest \<and>
        disp s' = snd (copyImage (sx mod 2 ^ 16) (sy mod 2 ^ 16) x y w h (disp s))))"
proof (intro conjI impI)
  assume "length (unread (sock s)) < 4"
  then show "copyrect_decodeRect x y w h s = (Inr False, s)"
    using assms by (simp add: copyrect_decodeRect_def first_steps ret_def)
next
  assume u: "unread (sock s) = be16 sx @ be16 sy @ rest" and "w \<noteq> 0" "h \<noteq> 0"
  then have "copyrect_parse x y w h () (unread (sock s)) =
      (Inr True, [DCopy (sx mod 2 ^ 16) (sy mod 2 ^ 16) x y w h], (), rest)"
    using shift_value_be16 [of sx "be16 sy @ rest"] shift_value_be16 [of sy rest]
    by (simp add: copyrect_parse_def be16_def)
  from copyrect_refines [OF assms this] show "\<exists>s'. copyrect_decodeRect x y w h s = (Inr True, s') \<and>
      unread (sock s') = rest \<and> disp s' = snd (copyImage (sx mod 2 ^ 16) (sy mod 2 ^ 16) x y w h (disp s))"
    by auto
qed


text \<open>The encoding of an RRE rectangle: the count, the background, the subrectangles.\<close>

definition rre_encode :: "byte list \<Rightarrow> (byte list \<times> int \<times> int \<times> int \<times> int) list \<Rightarrow> byte list" where
  "rre_encode bg subs = be32 (int (length subs)) @ bg @
     concat (map (\<lambda>(c, sx, sy, sw, sh). c @ be16 sx @ be16 sy @ be16 sw @ be16 sh) subs)"

definition rre_sub_ok :: "byte list \<times> int \<times> int \<times> int \<times> int \<Rightarrow> bool" where
  "rre_sub_ok = (\<lambda>(c, sx, sy, sw, sh). length c = 4 \<and> 0 \<le> sx \<and> sx < 65536 \<and> 0 \<le> sy \<and> sy < 65536 \<and>
     0 \<le> sw \<and> sw < 65536 \<and> 0 \<le> sh \<and> sh < 65536)"

lemma power2_16: "(2 :: int) ^ 16 = 65536"
  by simp

lemma sub_reads:
  assumes "length c = 4"
  shows "take 4 (c @ t) = c" "drop 4 (c @ t) = t" "drop 6 (c @ be16 p @ t) = t"
    "drop 8 (c @ be16 p @ be16 q @ t) = t" "drop 10 (c @ be16 p @ be16 q @ be16 u @ t) = t"
    "drop 12 (c @ be16 p @ be16 q @ be16 u @ be16 v @ t) = t"
  using assms by simp_all

lemma rre_items_encoded:
  "list_all rre_sub_ok subs \<Longrightarrow> rre_items x y (length subs)
      (concat (map (\<lambda>(c, sx, sy, sw, sh). c @ be16 sx @ be16 sy @ be16 sw @ be16 sh) subs) @ rest)
    = (Inr True, map (\<lambda>(c, sx, sy, sw, sh). DFill (x + sx) (y + sy) sw sh (Some c)) subs, 0, rest)"
proof (induction subs)
  case (Cons sub subs)
  obtain c sx sy sw sh where sub: "sub = (c, sx, sy, sw, sh)" by (metis prod_cases5)
  let ?t = "concat (map (\<lambda>(c, sx, sy, sw, sh). c @ be16 sx @ be16 sy @ be16 sw @ be16 sh) subs) @ rest"
  have b: "length c = 4" "0 \<le> sx" "sx < 65536" "0 \<le> sy" "sy < 65536" "0 \<le> sw" "sw < 65536" "0 \<le> sh" "sh < 65536"
    using Cons.prems sub by (auto simp: rre_sub_ok_def)
  define bs where "bs = c @ be16 sx @ be16 sy @ be16 sw @ be16 sh @ ?t"
  have "rre_item x y bs = DFill (x + sx) (y + sy) sw sh (Some c)" unfolding bs_def
    using b by (simp only: rre_item_def sub_reads shift_value_be16 mod_pos_pos_trivial power2_16)
  moreover have "drop 12 bs = ?t" unfolding bs_def using b(1) by (rule sub_reads)
  moreover have "\<not> length bs < 12" using b(1) by (simp add: bs_def)
  moreover have "rre_items x y (length subs) ?t =
      (Inr True, map (\<lambda>(c, sx, sy, sw, sh). DFill (x + sx) (y + sy) sw sh (Some c)) subs, 0, rest)"
    using Cons by simp
  moreover have "concat (map (\<lambda>(c, sx, sy, sw, sh). c @ be16 sx @ be16 sy @ be16 sw @ be16 sh) (sub # subs)) @ rest
      = bs" by (simp only: bs_def sub list.map concat.simps prod.case append_assoc)
  ultimately show ?case by (simp only: list.size add_Suc_right add_0_right rre_items.simps) (simp add: sub)
qed simp

text \<open>C24. An encoded RRE rectangle decodes to its background and its subrectangles, in order, at their
  offsets from the corner of the rectangle, and exactly its bytes are read.\<close>

theorem rre_roundtrip:
  assumes "rq_inv (sock s)" "rre_subrects s = 0" "unread (sock s) = rre_encode bg subs @ rest"
    "length bg = 4" "list_all rre_sub_ok subs" "length subs < 2 ^ 31"
  shows "\<exists>s'. rre_decodeRect x y w h s = (Inr True, s') \<and> unread (sock s') = rest \<and> rre_subrects s' = 0 \<and>
    disp s' = draws (DFill x y w h (Some bg) #
      map (\<lambda>(c, sx, sy, sw, sh). DFill (x + sx) (y + sy) sw sh (Some c)) subs) (disp s)"
proof -
  let ?t = "concat (map (\<lambda>(c, sx, sy, sw, sh). c @ be16 sx @ be16 sy @ be16 sw @ be16 sh) subs) @ rest"
  have u: "unread (sock s) = be32 (int (length subs)) @ bg @ ?t" using assms(3) by (simp add: rre_encode_def)
  have n: "shift_value 4 (unread (sock s)) = int (length subs)"
    unfolding u shift_value_be32 using assms(6) by (intro toSigned32bit_nonneg) simp_all
  have bg: "take 4 (drop 4 (unread (sock s))) = bg" and t: "drop 8 (unread (sock s)) = ?t"
    and l: "\<not> length (unread (sock s)) < 8"
    unfolding u using assms(4) by (simp_all add: be32_def)
  have "rre_rest x y (int (length subs)) ?t =
      (Inr True, map (\<lambda>(c, sx, sy, sw, sh). DFill (x + sx) (y + sy) sw sh (Some c)) subs, 0, rest)"
    using rre_items_encoded [OF assms(5), of x y rest] by (cases "subs = []") (simp_all add: rre_rest_def)
  then have "rre_parse x y w h (rre_subrects s) (unread (sock s)) = (Inr True, DFill x y w h (Some bg) #
      map (\<lambda>(c, sx, sy, sw, sh). DFill (x + sx) (y + sy) sw sh (Some c)) subs, 0, rest)"
    unfolding rre_parse_def n bg t using l assms(2) by simp
  from rre_code.decode_parse [OF assms(1) _ this] show ?thesis by auto
qed

text \<open>C37. A count of subrectangles from \<open>2 ^ 31\<close> on is read as a negative number. The rectangle is then
  reported complete after its background, but the count stays in the decoder, and every later RRE
  rectangle is reported complete without reading any of its bytes or drawing anything.\<close>

theorem rre_negative_count:
  assumes "rq_inv (sock s)" "rre_subrects s = 0" "unread (sock s) = be32 n @ bg @ rest"
    "length bg = 4" "2 ^ 31 \<le> n" "n < 2 ^ 32"
  shows "\<exists>s1. rre_decodeRect x y w h s = (Inr True, s1) \<and> unread (sock s1) = rest \<and>
    rre_subrects s1 = n - 2 ^ 32 \<and> rre_decodeRect x' y' w' h' s1 = (Inr True, s1)"
proof -
  have n: "shift_value 4 (unread (sock s)) = n - 2 ^ 32"
    unfolding assms(3) shift_value_be32 using assms(5,6) by (rule toSigned32bit_high)
  have "drop 8 (unread (sock s)) = rest" "\<not> length (unread (sock s)) < 8"
    unfolding assms(3) using assms(4) by (simp_all add: be32_def)
  then have "rre_parse x y w h (rre_subrects s) (unread (sock s)) =
      (Inr True, [DFill x y w h (Some (take 4 (drop 4 (unread (sock s)))))], n - 2 ^ 32, rest)"
    using assms(2,6) by (simp add: rre_parse_def rre_rest_def n)
  from rre_code.decode_parse [OF assms(1) _ this] obtain s1 where
    "rre_decodeRect x y w h s = (Inr True, s1)" "unread (sock s1) = rest" "rre_subrects s1 = n - 2 ^ 32" by auto
  moreover from this(3) have "rre_decodeRect x' y' w' h' s1 = (Inr True, s1)"
    using assms(6) by (simp add: rre_decodeRect_def bindx_gets Let_def ret_def)
  ultimately show ?thesis by blast
qed

definition blank_ctx :: "byte list \<Rightarrow> rect_ctx" where
  "blank_ctx bs = \<lparr>sock = small_socket bs, disp = new_display 16 16 16 16, rre_subrects = 0, raw_lines = 0\<rparr>"

lemma blank_ctx_ok: "length bs \<le> 1000 \<Longrightarrow> rq_inv (sock (blank_ctx bs)) \<and>
    unread (sock (blank_ctx bs)) = bs \<and> rre_subrects (blank_ctx bs) = 0 \<and> disp (blank_ctx bs) = new_display 16 16 16 16"
  by (simp add: blank_ctx_def small_socket_unread)

theorem copyrect_decodes_witness:
  "\<exists>s'. copyrect_decodeRect 1 2 3 4 (blank_ctx (be16 5 @ be16 6 @ [7])) = (Inr True, s') \<and>
    unread (sock s') = [7] \<and> disp s' = snd (copyImage (5 mod 2 ^ 16) (6 mod 2 ^ 16) 1 2 3 4 (new_display 16 16 16 16))"
  using copyrect_decodes [of "blank_ctx (be16 5 @ be16 6 @ [7])" 1 2 3 4 5 6 "[7]"]
  by (simp add: blank_ctx_ok)


theorem rre_roundtrip_witness:
  "let s = blank_ctx (rre_encode [1, 2, 3, 0] [([4, 5, 6, 0], 1, 2, 3, 4)] @ [9]) in
   \<exists>s'. rre_decodeRect 10 20 8 8 s = (Inr True, s') \<and> unread (sock s') = [9] \<and> rre_subrects s' = 0 \<and>
    disp s' = draws (DFill 10 20 8 8 (Some [1, 2, 3, 0]) #
      map (\<lambda>(c, sx, sy, sw, sh). DFill (10 + sx) (20 + sy) sw sh (Some c)) [([4, 5, 6, 0], 1, 2, 3, 4)]) (disp s)"
  unfolding Let_def
  by (rule rre_roundtrip) (simp_all add: blank_ctx_ok rre_encode_def rre_sub_ok_def)

theorem rre_negative_count_witness:
  "\<exists>s1. rre_decodeRect 0 0 8 8 (blank_ctx (be32 (2 ^ 31 + 5) @ [1, 2, 3, 0] @ [9])) = (Inr True, s1) \<and>
    unread (sock s1) = [9] \<and> rre_subrects s1 = 2 ^ 31 + 5 - 2 ^ 32 \<and>
    rre_decodeRect 4 4 2 2 s1 = (Inr True, s1)"
  by (rule rre_negative_count [where bg = "[1, 2, 3, 0]"]) (simp_all add: blank_ctx_ok)

end
