(* ===== verification/Hextile_Decoder.thy ===== *)
theory Hextile_Decoder
  imports Decoder_Steps
begin

text \<open>
  \<^verbatim>\<open>core/decoders/hextile.js\<close>. A rectangle is cut into tiles of at most 16 by 16 pixels, each with a
  subencoding byte and what its flags announce. The decoder waits until a whole tile is there, so
  \<open>hex_tile\<close> works on the bytes of one tile; \<open>hextile_decodeRect\<close> is the loop with its tests.
\<close>

section \<open>State\<close>

record hextile =
  h_tiles :: int
  h_tilesX :: int
  h_tilesY :: int
  h_totalTiles :: int
  h_lastsubencoding :: int
  h_background :: colour
  h_foreground :: colour
  h_tileBuffer :: "byte list"
  h_tileX :: int
  h_tileY :: int
  h_tileW :: int
  h_tileH :: int

definition new_hextile :: hextile where
  "new_hextile = \<lparr>h_tiles = 0, h_tilesX = 0, h_tilesY = 0, h_totalTiles = 0, h_lastsubencoding = 0,
     h_background = None, h_foreground = None, h_tileBuffer = replicate (16 * 16 * 4) 0,
     h_tileX = 0, h_tileY = 0, h_tileW = 0, h_tileH = 0\<rparr>"

record hextile_ctx = rect_ctx +
  hex :: hextile

section \<open>Pixels\<close>

text \<open>Reading outside an array gives \<open>undefined\<close>, which a \<open>Uint8Array\<close> stores as 0.\<close>

definition elt :: "byte list \<Rightarrow> nat \<Rightarrow> byte" where
  "elt a i = (if i < length a then a ! i else 0)"

definition put_pixel :: "byte list \<Rightarrow> nat \<Rightarrow> byte list \<Rightarrow> byte list" where
  "put_pixel color p data = data[p := elt color 0, p + 1 := elt color 1, p + 2 := elt color 2, p + 3 := 255]"

definition startTile :: "int \<Rightarrow> int \<Rightarrow> int \<Rightarrow> int \<Rightarrow> colour \<Rightarrow> (hextile, unit) exec" where
  "startTile x y width height color =
     thenx (modify (\<lambda>h. h\<lparr>h_tileX := x, h_tileY := y, h_tileW := width, h_tileH := height\<rparr>))
       (case color of
          None \<Rightarrow> throw TypeError
        | Some c \<Rightarrow> modify (\<lambda>h. h\<lparr>h_tileBuffer :=
            fold (\<lambda>i. put_pixel c (4 * i)) [0..<nat (width * height)] (h_tileBuffer h)\<rparr>))"

definition subTile :: "int \<Rightarrow> int \<Rightarrow> int \<Rightarrow> int \<Rightarrow> colour \<Rightarrow> (hextile, unit) exec" where
  "subTile x y w h color = (case color of
     None \<Rightarrow> throw TypeError
   | Some c \<Rightarrow> modify (\<lambda>t. t\<lparr>h_tileBuffer := fold (\<lambda>j. fold (\<lambda>i. put_pixel c (nat ((i + j * h_tileW t) * 4)))
         [x..x + w - 1]) [y..y + h - 1] (h_tileBuffer t)\<rparr>))"

section \<open>One tile\<close>

definition flag :: "int \<Rightarrow> int \<Rightarrow> bool" where
  "flag subencoding b \<longleftrightarrow> js_and subencoding b \<noteq> 0"

text \<open>The number of bytes announced by the flags, up to and including the count of subrectangles.\<close>

definition hex_base :: "int \<Rightarrow> int \<Rightarrow> int \<Rightarrow> int" where
  "hex_base sub tw th =
     (if flag sub 1 then 1 + tw * th * 4
      else 1 + (if flag sub 2 then 4 else 0) + (if flag sub 4 then 4 else 0) + (if flag sub 8 then 1 else 0))"

text \<open>The loop over the subrectangles; \<open>bs\<close> is what follows the count.\<close>

fun hex_subrects :: "nat \<Rightarrow> int \<Rightarrow> byte list \<Rightarrow> (hextile, unit) exec" where
  "hex_subrects 0 sub bs = ret ()"
| "hex_subrects (Suc n) sub bs = bindx (gets h_foreground) (\<lambda>foreground.
     let (color, bs) = (if flag sub 16 then (Some (map (elt bs) [0, 1, 2, 3]), drop 4 bs)
                         else (foreground, bs));
          xy = uint (elt bs 0);
          sx = js_sar xy 4; sy = js_and xy 0x0f;
          wh = uint (elt bs 1);
          sw = js_sar wh 4 + 1; sh = js_and wh 0x0f + 1
      in thenx (subTile sx sy sw sh color) (hex_subrects n sub (drop 2 bs)))"

text \<open>A tile that is neither blank nor raw: colours, background, subrectangles; \<open>bs\<close> is what follows
  the subencoding.\<close>

definition hex_colour_tile :: "int \<Rightarrow> int \<Rightarrow> int \<Rightarrow> int \<Rightarrow> int \<Rightarrow> byte list \<Rightarrow> (hextile, unit) exec" where
  "hex_colour_tile sub tx ty tw th bs =
     (let fg = (if flag sub 2 then drop 4 bs else bs);
          subs = (if flag sub 4 then drop 4 fg else fg)
      in thenx (modify (\<lambda>h. if flag sub 2 then h\<lparr>h_background := Some (map (elt bs) [0, 1, 2, 3])\<rparr> else h))
        (thenx (modify (\<lambda>h. if flag sub 4 then h\<lparr>h_foreground := Some (map (elt fg) [0, 1, 2, 3])\<rparr> else h))
        (bindx (gets h_background) (\<lambda>background.
         thenx (startTile tx ty tw th background)
           (if flag sub 8 then hex_subrects (unat (elt subs 0)) sub (drop 1 subs) else ret ())))))"

definition on_hex :: "(hextile, 'a) exec \<Rightarrow> ('s hextile_ctx_scheme, 'a) exec" where
  "on_hex = zoom hex (\<lambda>h s. s\<lparr>hex := h\<rparr>)"

text \<open>The state and the drawing of a tile whose bytes are \<open>tile\<close>, the subencoding first.\<close>

definition tile_done :: "int \<Rightarrow> hextile \<Rightarrow> hextile" where
  "tile_done sub h = h\<lparr>h_lastsubencoding := sub, h_tiles := h_tiles h - 1\<rparr>"

definition tile_place :: "int \<Rightarrow> int \<Rightarrow> int \<Rightarrow> int \<Rightarrow> hextile \<Rightarrow> int \<times> int \<times> int \<times> int" where
  "tile_place x y width height h =
     (let currTile = h_totalTiles h - h_tiles h;
          tileX = currTile mod h_tilesX h;
          tileY = currTile div h_tilesX h;
          tx = x + tileX * 16;
          ty = y + tileY * 16
      in (tx, ty, min 16 (x + width - tx), min 16 (y + height - ty)))"

definition hex_throw :: "('s hextile_ctx_scheme, bool) exec" where
  "hex_throw = throw (JsError ''Illegal hextile subencoding'')"

text \<open>The body of the loop after its waits: the tile at the head of the queue is complete.\<close>

definition hex_process :: "int \<Rightarrow> int \<Rightarrow> int \<Rightarrow> int \<Rightarrow> int \<Rightarrow> nat \<Rightarrow> ('s hextile_ctx_scheme, bool) exec" where
  "hex_process sub tx ty tw th bytes = bindx (gets id) (\<lambda>s.
     let h = hex s; t = sock s;
         tile = take bytes (drop (rQi t) (rQ t));
         finish = thenx (on_sock (modify (\<lambda>t. t\<lparr>rQi := rQi t + bytes\<rparr>)))
           (thenx (modify (\<lambda>s. s\<lparr>hex := tile_done sub (hex s)\<rparr>)) (ret True))
     in if sub = 0 then
          if flag (h_lastsubencoding h) 1 then finish
          else thenx (on_disp (fillRect tx ty tw th (h_background h))) finish
        else if flag sub 1 then
          thenx (on_sock (modify (\<lambda>t. t\<lparr>rQ := set_alpha (rQi t + 1) (nat (tw * th)) (rQ t)\<rparr>)))
         (thenx (\<lambda>s. on_disp (blitImage tx ty tw th (rQ (sock s)) 0 (rQi (sock s) + 1)) s) finish)
        else thenx (on_hex (hex_colour_tile sub tx ty tw th (drop 1 tile)))
          (thenx (\<lambda>s. on_disp (blitImage (h_tileX (hex s)) (h_tileY (hex s)) (h_tileW (hex s))
              (h_tileH (hex s)) (h_tileBuffer (hex s)) 0 0) s) finish))"

definition hex_step :: "int \<Rightarrow> int \<Rightarrow> int \<Rightarrow> int \<Rightarrow> ('s hextile_ctx_scheme, bool) exec" where
  "hex_step x y width height =
     bindx (on_sock (rQwait 1 0)) (\<lambda>w. if w then ret False else
     bindx (gets id) (\<lambda>s.
       let sub = rQ_at (sock s) (rQi (sock s));
           (tx, ty, tw, th) = tile_place x y width height (hex s);
           bytes = hex_base sub tw th
       in if sub > 30 then hex_throw
          else if \<not> flag sub 1 \<and> flag sub 8 then
            bindx (on_sock (rQwait bytes 0)) (\<lambda>w. if w then ret False else
              let subrects = rQ_at (sock s) (rQi (sock s) + nat bytes - 1);
                  bytes = bytes + subrects * (if flag sub 16 then 4 + 2 else 2)
              in bindx (on_sock (rQwait bytes 0)) (\<lambda>w. if w then ret False
                 else hex_process sub tx ty tw th (nat bytes)))
          else bindx (on_sock (rQwait bytes 0)) (\<lambda>w. if w then ret False
                 else hex_process sub tx ty tw th (nat bytes))))"

text \<open>The loop; every turn that goes on counts one tile down.\<close>

primrec hex_loop :: "nat \<Rightarrow> int \<Rightarrow> int \<Rightarrow> int \<Rightarrow> int \<Rightarrow> ('s hextile_ctx_scheme, bool) exec" where
  "hex_loop 0 x y width height = ret True"
| "hex_loop (Suc n) x y width height = bindx (hex_step x y width height) (\<lambda>go.
     if go then hex_loop n x y width height else ret False)"

definition hex_start :: "int \<Rightarrow> int \<Rightarrow> hextile \<Rightarrow> hextile" where
  "hex_start width height h =
     (if h_tiles h = 0 then
        let tx = \<lceil>of_int width / (16 :: rat)\<rceil>; ty = \<lceil>of_int height / (16 :: rat)\<rceil> in
        h\<lparr>h_tilesX := tx, h_tilesY := ty, h_totalTiles := tx * ty, h_tiles := tx * ty\<rparr>
      else h)"

definition hextile_decodeRect :: "int \<Rightarrow> int \<Rightarrow> int \<Rightarrow> int \<Rightarrow> ('s hextile_ctx_scheme, bool) exec" where
  "hextile_decodeRect x y width height =
     thenx (modify (\<lambda>s. s\<lparr>hex := hex_start width height (hex s)\<rparr>))
       (bindx (gets (h_tiles \<circ> hex)) (\<lambda>n. hex_loop (nat n) x y width height))"

end
