(* ===== verification/Hextile_Streams.thy ===== *)
theory Hextile_Streams
  imports Hextile_Decoder
begin

text \<open>
  Hextile rectangles as a loop of parsed tiles: each tile is read whole or not at all, so a rectangle
  decodes to the same tiles however its bytes arrive.
\<close>

section \<open>A tile as a parser\<close>

lemma flag_0 [simp]: "\<not> flag 0 n"
  by (simp add: flag_def js_and_def toSigned32bit_nonneg)

text \<open>How many bytes the tile needs, as far as the bytes at hand tell.\<close>

definition hex_need :: "int \<Rightarrow> int \<Rightarrow> int \<Rightarrow> byte list \<Rightarrow> int" where
  "hex_need sub tw th bs =
     (let base = hex_base sub tw th in
      if \<not> flag sub 1 \<and> flag sub 8 \<and> base \<le> int (length bs)
      then base + uint (bs ! (nat base - 1)) * (if flag sub 16 then 6 else 2) else base)"

definition hex_draw :: "int \<Rightarrow> int \<Rightarrow> int \<Rightarrow> int \<Rightarrow> int \<Rightarrow> byte list \<Rightarrow> hextile \<Rightarrow>
    (js_error + draw_request list) \<times> hextile" where
  "hex_draw sub tx ty tw th tile h =
     (if sub = 0 then
        if flag (h_lastsubencoding h) 1 then (Inr [], h)
        else (case h_background h of None \<Rightarrow> (Inl TypeError, h)
              | Some c \<Rightarrow> (Inr [DFill tx ty tw th (Some c)], h))
      else if flag sub 1 then (Inr [DBlit tx ty tw th (set_alpha 0 (nat (tw * th)) (drop 1 tile))], h)
      else (case hex_colour_tile sub tx ty tw th (drop 1 tile) h of
          (Inl e, h) \<Rightarrow> (Inl e, h)
        | (Inr _, h) \<Rightarrow> (Inr [DBlit (h_tileX h) (h_tileY h) (h_tileW h) (h_tileH h)
              (take (nat (h_tileW h * h_tileH h * 4)) (h_tileBuffer h))], h)))"

definition tile_parse :: "int \<Rightarrow> int \<Rightarrow> int \<Rightarrow> int \<Rightarrow> (hextile, draw_request) parser" where
  "tile_parse x y w h k bs =
     (if bs = [] then (Inr False, [], k, bs)
      else let sub = uint (hd bs);
               (tx, ty, tw, th) = tile_place x y w h k;
               n = hex_need sub tw th bs
           in if sub > 30 then (Inl (JsError ''Illegal hextile subencoding''), [], k, bs)
              else if int (length bs) < n then (Inr False, [], k, bs)
              else (case hex_draw sub tx ty tw th (take (nat n) bs) k of
                  (Inl e, k') \<Rightarrow> (Inl e, [], k', bs)
                | (Inr os, k') \<Rightarrow> (Inr True, os, tile_done sub k', drop (nat n) bs)))"

text \<open>What neither of two steps changes, their sequence does not.\<close>

lemma thenx_keeps:
  assumes "\<And>s. f (snd (m s)) = f s" "\<And>s. f (snd (n s)) = f s"
  shows "f (snd (thenx m n s)) = f s"
  using assms(1) [of s] assms(2) by (cases "m s"; cases "fst (m s)") (auto simp: thenx_def bindx_def)

lemma subTile_left: "h_tiles (snd (subTile x y w h c k)) = h_tiles k"
  by (simp add: subTile_def exec_simps split: option.split)

lemma startTile_left: "h_tiles (snd (startTile x y w h c k)) = h_tiles k"
  by (simp add: startTile_def exec_simps split: option.split)

lemma hex_subrects_left: "h_tiles (snd (hex_subrects n sub bs k)) = h_tiles k"
proof (induction n arbitrary: bs k)
  case (Suc n)
  show ?case unfolding hex_subrects.simps bindx_gets
    by (auto simp: Let_def split: prod.split intro!: thenx_keeps [where f = h_tiles] subTile_left Suc.IH)
qed (simp add: ret_def)

lemma hex_colour_tile_left: "h_tiles (snd (hex_colour_tile sub tx ty tw th bs h)) = h_tiles h"
proof -
  have "h_tiles (snd ((if b then hex_subrects n sub cs else ret ()) k)) = h_tiles k" for b n cs k
    by (simp add: hex_subrects_left ret_def)
  then show ?thesis
    by (simp add: hex_colour_tile_def Let_def thenx_modify bindx_gets thenx_keeps [where f = h_tiles]
        startTile_left)
qed

lemma hex_draw_left: "h_tiles (snd (hex_draw sub tx ty tw th tile k)) = h_tiles k"
  using hex_colour_tile_left [of sub tx ty tw th "drop 1 tile" k]
  by (auto simp: hex_draw_def split: option.split prod.split sum.split)

lemma hex_draw_left': "hex_draw sub tx ty tw th tile k = (q, k') \<Longrightarrow> h_tiles k' = h_tiles k"
  using hex_draw_left [of sub tx ty tw th tile k] by simp

lemma hex_need_append:
  assumes "hex_need sub tw th bs \<le> int (length bs)"
  shows "hex_need sub tw th (bs @ d) = hex_need sub tw th bs"
proof (cases "\<not> flag sub 1 \<and> flag sub 8")
  case False
  then show ?thesis by (cases "flag sub 1") (simp_all add: hex_need_def Let_def)
next
  case True
  then have "1 \<le> hex_base sub tw th" by (simp add: hex_base_def)
  moreover have "hex_base sub tw th \<le> int (length bs)"
    using assms True by (auto simp: hex_need_def Let_def split: if_splits)
  ultimately have "nat (hex_base sub tw th) - 1 < length bs" by linarith
  with True \<open>hex_base sub tw th \<le> int (length bs)\<close> show ?thesis
    by (simp add: hex_need_def Let_def nth_append)
qed

definition hex_inv :: "int \<Rightarrow> int \<Rightarrow> hextile \<Rightarrow> bool" where
  "hex_inv w h k \<longleftrightarrow> 0 \<le> w \<and> 0 \<le> h \<and> length (h_tileBuffer k) = 1024 \<and>
     (h_tiles k = 0 \<or> h_tilesX k = (w + 15) div 16 \<and> h_totalTiles k = (w + 15) div 16 * ((h + 15) div 16) \<and>
       0 < h_tiles k \<and> h_tiles k \<le> h_totalTiles k)"

text \<open>Every tile of a rectangle has an area, and lies in it.\<close>

lemma place_inside:
  assumes "hex_inv w h k" "0 < h_tiles k" "tile_place x y w h k = (tx, ty, tw, th)"
  shows "1 \<le> tw" "tw \<le> 16" "1 \<le> th" "th \<le> 16" "x \<le> tx" "tx + tw \<le> x + w" "y \<le> ty" "ty + th \<le> y + h"
proof -
  let ?X = "(w + 15) div 16" and ?Y = "(h + 15) div 16"
  let ?c = "h_totalTiles k - h_tiles k"
  have k: "h_tilesX k = ?X" "h_totalTiles k = ?X * ?Y" "0 \<le> ?c" "?c < ?X * ?Y" "0 \<le> w" "0 \<le> h"
    using assms(1,2) by (auto simp: hex_inv_def)
  have n: "0 \<le> ?X" "0 \<le> ?Y" using k(5,6) by (simp_all add: pos_imp_zdiv_nonneg_iff)
  have "0 < ?X * ?Y" using k(3,4) by linarith
  with n have X: "0 < ?X" "0 \<le> ?Y" by (simp_all only: zero_less_mult_iff) linarith+
  then have a: "0 \<le> ?c mod ?X" "?c mod ?X < ?X" by simp_all
  have b: "0 \<le> ?c div ?X" using X k(3) by (simp add: pos_imp_zdiv_nonneg_iff)
  have "?c div ?X < ?Y"
  proof (rule ccontr)
    assume "\<not> ?c div ?X < ?Y"
    then have "?Y * ?X \<le> ?c div ?X * ?X" using X by (intro mult_right_mono) simp_all
    moreover have "?c div ?X * ?X \<le> ?c" using a(1) div_mult_mod_eq [of ?c ?X] by linarith
    moreover have "?c < ?Y * ?X" using k(4) by (simp only: mult.commute)
    ultimately show False by linarith
  qed
  then have lt: "?c div ?X * 16 < h" "?c mod ?X * 16 < w" using a(2) by linarith+
  define cx cy where "cx = ?c mod ?X" and "cy = ?c div ?X"
  have "tx = x + cx * 16" "ty = y + cy * 16" "tw = min 16 (x + w - tx)" "th = min 16 (y + h - ty)"
    using assms(3) k(1) by (auto simp: tile_place_def Let_def cx_def cy_def)
  moreover have "0 \<le> cx" "0 \<le> cy" "cy * 16 < h" "cx * 16 < w" using lt a b by (simp_all only: cx_def cy_def)
  ultimately show "1 \<le> tw" "tw \<le> 16" "1 \<le> th" "th \<le> 16" "x \<le> tx" "tx + tw \<le> x + w" "y \<le> ty" "ty + th \<le> y + h"
    by linarith+
qed

text \<open>The cases of a parsed tile.\<close>

lemma tile_parse_cases:
  assumes "tile_parse x y w h k bs = (r, os, k', rest)"
  obtains (wait) "r = Inr False" "os = []" "k' = k" "rest = bs"
  | (illegal) "bs \<noteq> []" "uint (hd bs) > 30" "r = Inl (JsError ''Illegal hextile subencoding'')"
      "os = []" "k' = k" "rest = bs"
  | (tile) tx ty tw th n where "bs \<noteq> []" "\<not> uint (hd bs) > 30" "tile_place x y w h k = (tx, ty, tw, th)"
      "n = hex_need (uint (hd bs)) tw th bs" "n \<le> int (length bs)"
      "(r, os, k', rest) = (case hex_draw (uint (hd bs)) tx ty tw th (take (nat n) bs) k of
         (Inl e, k') \<Rightarrow> (Inl e, [], k', bs)
       | (Inr os, k') \<Rightarrow> (Inr True, os, tile_done (uint (hd bs)) k', drop (nat n) bs))"
proof -
  obtain tx ty tw th where pl: "tile_place x y w h k = (tx, ty, tw, th)" by (metis prod_cases4)
  consider "bs = []" | "bs \<noteq> []" "uint (hd bs) > 30"
    | "bs \<noteq> []" "\<not> uint (hd bs) > 30" "int (length bs) < hex_need (uint (hd bs)) tw th bs"
    | "bs \<noteq> []" "\<not> uint (hd bs) > 30" "\<not> int (length bs) < hex_need (uint (hd bs)) tw th bs" by blast
  then show thesis
  proof cases
    case 1
    then show ?thesis using assms by (intro wait) (simp_all add: tile_parse_def)
  next
    case 2
    then show ?thesis using assms by (intro illegal) (simp_all add: tile_parse_def Let_def pl)
  next
    case 3
    then show ?thesis using assms by (intro wait) (simp_all add: tile_parse_def Let_def pl)
  next
    case 4
    then have "tile_parse x y w h k bs =
        (case hex_draw (uint (hd bs)) tx ty tw th (take (nat (hex_need (uint (hd bs)) tw th bs)) bs) k of
         (Inl e, k') \<Rightarrow> (Inl e, [], k', bs)
       | (Inr os, k') \<Rightarrow> (Inr True, os, tile_done (uint (hd bs)) k',
           drop (nat (hex_need (uint (hd bs)) tw th bs)) bs))"
      by (simp add: tile_parse_def Let_def pl)
    with 4 assms show ?thesis by (intro tile [OF _ _ pl refl]) simp_all
  qed
qed

lemma hex_step_parser: "step_parser (tile_parse x y w h) h_tiles"
proof
  fix k bs r os k' rest d
  assume p: "tile_parse x y w h k bs = (r, os, k', rest)" and r: "r \<noteq> Inr False"
  from p show "tile_parse x y w h k (bs @ d) = (r, os, k', rest @ d)"
  proof (cases rule: tile_parse_cases)
    case wait
    then show ?thesis using r by simp
  next
    case illegal
    then show ?thesis by (simp add: tile_parse_def Let_def split: prod.split)
  next
    case (tile tx ty tw th n)
    then have t: "take (nat n) (bs @ d) = take (nat n) bs" "drop (nat n) (bs @ d) = drop (nat n) bs @ d"
      by simp_all
    have n: "hex_need (uint (hd bs)) tw th (bs @ d) = n" using tile(4,5) hex_need_append by simp
    have "tile_parse x y w h k (bs @ d) = (case hex_draw (uint (hd bs)) tx ty tw th (take (nat n) bs) k of
         (Inl e, k') \<Rightarrow> (Inl e, [], k', bs @ d)
       | (Inr os, k') \<Rightarrow> (Inr True, os, tile_done (uint (hd bs)) k', drop (nat n) bs @ d))"
      using tile(1,2,5) t by (simp only: tile_parse_def Let_def tile(3) prod.case n hd_append2 if_False
        append_is_Nil_conv simp_thms length_append of_nat_add) simp
    with tile(6) show ?thesis by (auto split: prod.splits sum.splits)
  qed
next
  show "os = [] \<and> k' = k \<and> rest = bs" if "tile_parse x y w h k bs = (Inr False, os, k', rest)"
    for k bs os k' rest
    using that by (cases rule: tile_parse_cases) (auto split: prod.splits sum.splits)
  show "h_tiles k' = h_tiles k - 1" if "tile_parse x y w h k bs = (Inr True, os, k', rest)"
    for k bs os k' rest
    using that
  proof (cases rule: tile_parse_cases)
    case (tile tx ty tw th n)
    obtain q k1 where q: "hex_draw (uint (hd bs)) tx ty tw th (take (nat n) bs) k = (q, k1)"
      by (metis surj_pair)
    then show ?thesis using tile(6) hex_draw_left' [OF q] by (auto simp: tile_done_def split: sum.splits)
  qed simp_all
  show "length rest \<le> length bs" if "tile_parse x y w h k bs = (r, os, k', rest)" for k bs r os k' rest
    using that by (cases rule: tile_parse_cases) (auto split: prod.splits sum.splits)
qed

interpretation hex_steps: step_parser "tile_parse x y w h" h_tiles
  by (rule hex_step_parser)

definition hex_parse :: "int \<Rightarrow> int \<Rightarrow> int \<Rightarrow> int \<Rightarrow> (hextile, draw_request) parser" where
  "hex_parse x y w h k bs =
     (let k = hex_start w h k in parse_loop (tile_parse x y w h) (nat (h_tiles k)) k bs)"

interpretation hextile: stream_decoder "hex_parse x y w h"
proof unfold_locales
  fix k bs r os k' rest d
  assume "hex_parse x y w h k bs = (r, os, k', rest)" "r \<noteq> Inr False"
  then show "hex_parse x y w h k (bs @ d) = (r, os, k', rest @ d)"
    using hex_steps.loop_done by (simp add: hex_parse_def Let_def)
next
  fix k bs os k' rest d
  let ?k = "hex_start w h k"
  assume p: "hex_parse x y w h k bs = (Inr False, os, k', rest)"
  then have l: "parse_loop (tile_parse x y w h) (nat (h_tiles ?k)) ?k bs = (Inr False, os, k', rest)"
    by (simp add: hex_parse_def Let_def)
  then have "h_tiles ?k = int (nat (h_tiles ?k))" by (cases "nat (h_tiles ?k)") auto
  from hex_steps.loop_more [OF l this, of d] have "0 < h_tiles k'"
    "parse_loop (tile_parse x y w h) (nat (h_tiles ?k)) ?k (bs @ d)
      = continue_with os (parse_loop (tile_parse x y w h) (nat (h_tiles k')) k' (rest @ d))" by simp_all
  then show "hex_parse x y w h k (bs @ d) = continue_with os (hex_parse x y w h k' (rest @ d))"
    by (simp add: hex_parse_def Let_def hex_start_def)
qed

section \<open>The code carries out the parser\<close>

definition hex_frame :: "hextile \<Rightarrow> int \<times> int \<times> int \<times> nat" where
  "hex_frame k = (h_tiles k, h_tilesX k, h_totalTiles k, length (h_tileBuffer k))"

definition hex_area :: "hextile \<Rightarrow> int \<times> int \<times> int \<times> int" where
  "hex_area k = (h_tileX k, h_tileY k, h_tileW k, h_tileH k)"

lemma length_put_pixel [simp]: "length (put_pixel c p data) = length data"
  by (simp add: put_pixel_def)

lemma length_fold [simp]: "(\<And>i d. length (f i d) = length d) \<Longrightarrow> length (fold f xs d) = length d"
  by (induction xs arbitrary: d) simp_all

lemma subTile_frame: "hex_frame (snd (subTile x y w h c k)) = hex_frame k"
  "hex_area (snd (subTile x y w h c k)) = hex_area k"
  by (simp_all add: subTile_def exec_simps hex_frame_def hex_area_def split: option.split)

lemma startTile_frame: "hex_frame (snd (startTile x y w h c k)) = hex_frame k"
  "hex_area (snd (startTile x y w h c k)) = (x, y, w, h)"
  by (simp_all add: startTile_def exec_simps hex_frame_def hex_area_def split: option.split)

lemma hex_subrects_frame: "hex_frame (snd (hex_subrects n sub bs k)) = hex_frame k"
proof (induction n arbitrary: bs k)
  case (Suc n)
  show ?case unfolding hex_subrects.simps bindx_gets
    by (auto simp: Let_def split: prod.split intro!: thenx_keeps [where f = hex_frame] subTile_frame Suc.IH)
qed (simp add: ret_def)

lemma hex_subrects_area: "hex_area (snd (hex_subrects n sub bs k)) = hex_area k"
proof (induction n arbitrary: bs k)
  case (Suc n)
  show ?case unfolding hex_subrects.simps bindx_gets
    by (auto simp: Let_def split: prod.split intro!: thenx_keeps [where f = hex_area] subTile_frame Suc.IH)
qed (simp add: ret_def)

lemma hex_colour_tile_frame: "hex_frame (snd (hex_colour_tile sub tx ty tw th bs k)) = hex_frame k"
proof -
  have "hex_frame (snd ((if b then hex_subrects n sub cs else ret ()) k)) = hex_frame k" for b n cs k
    by (simp add: hex_subrects_frame ret_def)
  then show ?thesis
    by (simp add: hex_colour_tile_def Let_def thenx_modify bindx_gets thenx_keeps [where f = hex_frame]
        startTile_frame) (simp add: hex_frame_def)
qed

lemma hex_colour_tile_area:
  assumes "hex_colour_tile sub tx ty tw th bs k = (Inr u, k')"
  shows "hex_area k' = (tx, ty, tw, th)"
proof -
  have keep: "hex_area (snd ((if b then hex_subrects n sub cs else ret ()) k)) = hex_area k" for b n cs k
    by (simp add: hex_subrects_area ret_def)
  have "hex_area (snd (thenx (startTile tx ty tw th c) (if b then hex_subrects n sub cs else ret ()) k))
      = (tx, ty, tw, th)" for c b n cs k
    using startTile_frame(2) [of tx ty tw th c k] keep
    by (cases "startTile tx ty tw th c k"; cases "fst (startTile tx ty tw th c k)")
      (auto simp: thenx_def bindx_def)
  then have "hex_area (snd (hex_colour_tile sub tx ty tw th bs k)) = (tx, ty, tw, th)"
    by (simp add: hex_colour_tile_def Let_def thenx_modify bindx_gets)
  then show ?thesis using assms by simp
qed

lemma ceiling_16: "\<lceil>of_int w / (16 :: rat)\<rceil> = (w + 15) div 16"
proof -
  have "\<lceil>of_int w / of_int (16 :: int) :: rat\<rceil> = - (- w div 16)" by (rule ceiling_divide_eq_div)
  then have "\<lceil>of_int w / (16 :: rat)\<rceil> = - (- w div 16)" by simp
  also have "\<dots> = (w + 15) div 16"
  proof -
    define a b where "a = - w div 16" and "b = (w + 15) div 16"
    have "16 * a \<le> - w" "- w < 16 * a + 16" unfolding a_def by linarith+
    moreover have "16 * b \<le> w + 15" "w + 15 < 16 * b + 16" unfolding b_def by linarith+
    ultimately have "- a = b" by linarith
    then show ?thesis by (simp only: a_def b_def)
  qed
  finally show ?thesis .
qed

lemma hex_start_inv:
  assumes "hex_inv w h k"
  shows "hex_inv w h (hex_start w h k)" "0 \<le> h_tiles (hex_start w h k)"
proof -
  have "0 \<le> w" "0 \<le> h" using assms by (simp_all add: hex_inv_def)
  then have "0 \<le> (w + 15) div 16" "0 \<le> (h + 15) div 16" by (simp_all add: pos_imp_zdiv_nonneg_iff)
  then have "0 \<le> (w + 15) div 16 * ((h + 15) div 16)" by simp
  moreover from this have "0 < (w + 15) div 16 * ((h + 15) div 16) \<or> (w + 15) div 16 * ((h + 15) div 16) = 0"
    by (simp only: order_le_less eq_commute [of 0])
  ultimately show "hex_inv w h (hex_start w h k)" "0 \<le> h_tiles (hex_start w h k)"
    using assms by (auto simp: hex_inv_def hex_start_def ceiling_16 Let_def)
qed

lemma hex_inv_frame: "hex_inv w h k \<Longrightarrow> hex_frame k' = hex_frame k \<Longrightarrow> hex_inv w h k'"
  by (simp add: hex_inv_def hex_frame_def)

lemma hex_inv_done: "hex_inv w h k \<Longrightarrow> 0 < h_tiles k \<Longrightarrow> hex_inv w h (tile_done sub k)"
  by (auto simp: hex_inv_def tile_done_def)

text \<open>Drawing with an empty queue happens at once and leaves it empty.\<close>

lemma fill_now: "renderQ d = [] \<Longrightarrow> fillRect x y w h (Some c) d = (Inr (), draws [DFill x y w h (Some c)] d)
    \<and> renderQ (draws [DFill x y w h (Some c)] d) = []"
  by (simp add: fillRect_def now_or_later_def exec_simps fillRect_now_def setFillColor_def Let_def
      damage_def call_def)

lemma blit_now:
  assumes "renderQ d = []" "0 < n" "n = nat (w * h * 4)" "pos + n \<le> length buf"
  shows "blitImage x y w h buf 0 pos d = (Inr (), draws [DBlit x y w h (take n (drop pos buf))] d) \<and>
    renderQ (draws [DBlit x y w h (take n (drop pos buf))] d) = []"
  using assms(1,2,4) unfolding draws_simps draw.simps blitImage_def blitImage_now_def assms(3) [symmetric]
  by (auto simp: exec_simps ta_view_def damage_def call_def)

lemma set_alpha_Suc: "set_alpha base (Suc n) d = (set_alpha base n d)[base + n * 4 + 3 := 255]"
  by (simp add: set_alpha_def)

lemma drop_set_alpha: "drop base (set_alpha base n d) = set_alpha 0 n (drop base d)"
proof (induction n)
  case (Suc n)
  have "drop base ((set_alpha base n d)[base + n * 4 + 3 := 255])
      = (drop base (set_alpha base n d))[n * 4 + 3 := 255]"
    by (cases "base + n * 4 + 3 < length d") (simp_all add: drop_update_swap list_update_beyond)
  then show ?case by (simp add: set_alpha_Suc Suc.IH)
qed (simp add: set_alpha_def)

lemma set_alpha_outside:
  "take base (set_alpha base n d) = take base d"
  "base + n * 4 \<le> m \<Longrightarrow> drop m (set_alpha base n d) = drop m d"
proof (induction n)
  case 0
  { case 1 show ?case by (simp add: set_alpha_def) next case 2 show ?case by (simp add: set_alpha_def) }
next
  case (Suc n)
  { case 1 show ?case using Suc by (simp add: set_alpha_Suc)
    next case 2 then show ?case using Suc(2) by (simp add: set_alpha_Suc drop_update_cancel) }
qed

lemma take_set_alpha: "n * 4 \<le> m \<Longrightarrow> take m (set_alpha 0 n d) = set_alpha 0 n (take m d)"
proof (induction n)
  case (Suc n)
  then show ?case by (simp add: set_alpha_Suc take_update_swap)
qed (simp add: set_alpha_def)

text \<open>The bytes of a tile at the head of the queue, and the queue after it.\<close>

lemma unread_take: "rq_inv t \<Longrightarrow> n \<le> length (unread t) \<Longrightarrow> take n (drop (rQi t) (rQ t)) = take n (unread t)"
  by (simp add: length_unread) (simp add: unread_def min_absorb1)

lemma skip_alpha:
  assumes "rq_inv t" "1 + 4 * n \<le> m" "m \<le> length (unread t)"
  shows "rq_inv (t\<lparr>rQ := set_alpha (rQi t + 1) n (rQ t), rQi := rQi t + m\<rparr>) \<and>
    unread (t\<lparr>rQ := set_alpha (rQi t + 1) n (rQ t), rQi := rQi t + m\<rparr>) = drop m (unread t)"
proof -
  have "drop (rQi t + m) (set_alpha (rQi t + 1) n (rQ t)) = drop (rQi t + m) (rQ t)"
    using assms(2) by (intro set_alpha_outside) simp
  moreover have "rQi t + m \<le> rQlen' t" using assms(1,3) by (auto simp: length_unread rq_inv_def)
  ultimately show ?thesis using assms(1)
    by (auto simp: rq_inv_def unread_def drop_take add.commute)
qed

definition hex_ready :: "int \<Rightarrow> int \<Rightarrow> 's hextile_ctx_scheme \<Rightarrow> bool" where
  "hex_ready w h s \<longleftrightarrow> renderQ (disp s) = [] \<and> hex_inv w h (hex s)"

definition hex_outcome :: "(js_error + bool) \<times> 's hextile_ctx_scheme \<Rightarrow> int \<Rightarrow> int \<Rightarrow> display \<Rightarrow>
    (hextile, draw_request) outcome \<Rightarrow> bool" where
  "hex_outcome res w h d p = (case (res, p) of ((r', s'), (r, os, k, rest)) \<Rightarrow>
     r' = r \<and> rq_inv (sock s') \<and> unread (sock s') = rest \<and> disp s' = draws os d \<and> hex s' = k \<and>
     hex_ready w h s')"

lemma hex_process_outcome:
  assumes "rq_inv (sock s)" "hex_ready w h s" "0 < h_tiles (hex s)"
    and "tile_place x y w h (hex s) = (tx, ty, tw, th)" "unread (sock s) \<noteq> []"
    and "sub = uint (hd (unread (sock s)))" "n = hex_need sub tw th (unread (sock s))"
    and "n \<le> int (length (unread (sock s)))"
  shows "hex_outcome (hex_process sub tx ty tw th (nat n) s) w h (disp s)
    (case hex_draw sub tx ty tw th (take (nat n) (unread (sock s))) (hex s) of
         (Inl e, k') \<Rightarrow> (Inl e, [], k', unread (sock s))
       | (Inr os, k') \<Rightarrow> (Inr True, os, tile_done sub k', drop (nat n) (unread (sock s))))"
proof -
  let ?u = "unread (sock s)" and ?t = "sock s"
  have rdy: "renderQ (disp s) = []" "hex_inv w h (hex s)" using assms(2) by (simp_all add: hex_ready_def)
  note inside = place_inside [OF rdy(2) assms(3,4)]
  have n: "nat n \<le> length ?u" using assms(8) by simp
  then have tile: "take (nat n) (drop (rQi ?t) (rQ ?t)) = take (nat n) ?u"
    using assms(1) by (simp add: unread_take)
  have adv: "rq_inv (?t\<lparr>rQi := rQi ?t + nat n\<rparr>)" "unread (?t\<lparr>rQi := rQi ?t + nat n\<rparr>) = drop (nat n) ?u"
    using rq.adv_ok [OF assms(1) n] rq.adv_unread [OF assms(1) n] by (simp_all add: rQskipBytes_def)
  consider "sub = 0" "flag (h_lastsubencoding (hex s)) 1"
    | "sub = 0" "\<not> flag (h_lastsubencoding (hex s)) 1" | "sub \<noteq> 0" "flag sub 1" | "sub \<noteq> 0" "\<not> flag sub 1"
    by blast
  then show ?thesis
  proof cases
    case 1
    then show ?thesis using adv hex_inv_done [OF rdy(2) assms(3)] rdy(1)
      by (simp add: hex_process_def hex_draw_def bindx_gets exec_simps on_sock_def hex_outcome_def hex_ready_def)
  next
    case 2
    show ?thesis
    proof (cases "h_background (hex s)")
      case None
      have "fillRect tx ty tw th None (disp s) = (Inl TypeError, disp s)"
        using rdy(1) by (simp add: fillRect_def now_or_later_def exec_simps fillRect_now_def setFillColor_def)
      then show ?thesis using 2 None assms(1,2)
        by (simp add: hex_process_def hex_draw_def bindx_gets exec_simps on_disp_def hex_outcome_def)
    next
      case (Some c)
      obtain d' where d: "fillRect tx ty tw th (Some c) (disp s) = (Inr (), d')"
        "draws [DFill tx ty tw th (Some c)] (disp s) = d'" "renderQ d' = []"
        using fill_now [OF rdy(1), of tx ty tw th c] by (metis (no_types))
      then show ?thesis using 2 Some adv hex_inv_done [OF rdy(2) assms(3)]
        by (simp add: hex_process_def hex_draw_def bindx_gets exec_simps on_sock_def on_disp_def
            hex_outcome_def hex_ready_def del: draws_simps)
    qed
  next
    case 3
    have nn: "nat n = 1 + 4 * nat (tw * th)" "nat (tw * th * 4) = 4 * nat (tw * th)" "0 < 4 * nat (tw * th)"
      using 3 inside(1,3) assms(7) by (simp_all add: hex_need_def hex_base_def Let_def nat_add_distrib nat_mult_distrib)
    have rQlen: "rQi ?t + nat n \<le> length (rQ ?t)" using n assms(1) by (auto simp: length_unread rq_inv_def)
    let ?q = "set_alpha (rQi ?t + 1) (nat (tw * th)) (rQ ?t)"
    have "take (4 * nat (tw * th)) (drop (rQi ?t + 1) ?q)
        = set_alpha 0 (nat (tw * th)) (take (4 * nat (tw * th)) (drop (rQi ?t + 1) (rQ ?t)))"
      by (simp add: drop_set_alpha take_set_alpha)
    also have "take (4 * nat (tw * th)) (drop (rQi ?t + 1) (rQ ?t)) = drop 1 (take (nat n) ?u)"
      by (simp only: tile [symmetric]) (simp add: nn(1) drop_take add.commute)
    finally have px: "take (4 * nat (tw * th)) (drop (rQi ?t + 1) ?q)
        = set_alpha 0 (nat (tw * th)) (drop 1 (take (nat n) ?u))" .
    have "rQi ?t + 1 + 4 * nat (tw * th) \<le> length ?q" using rQlen nn(1) by simp
    note b = blit_now [OF rdy(1) nn(3) nn(2) [symmetric] this, of tx ty, unfolded px]
    have "1 + 4 * nat (tw * th) \<le> nat n" using nn(1) by simp
    note sk = skip_alpha [OF assms(1) this n]
    show ?thesis using 3 b sk hex_inv_done [OF rdy(2) assms(3)]
      by (simp add: hex_process_def hex_draw_def bindx_gets exec_simps on_sock_def on_disp_def
          hex_outcome_def hex_ready_def)
  next
    case 4
    obtain q k' where c: "hex_colour_tile sub tx ty tw th (drop 1 (take (nat n) ?u)) (hex s) = (q, k')"
      by (metis surj_pair)
    have fr: "hex_frame k' = hex_frame (hex s)" using hex_colour_tile_frame [of sub tx ty tw th _ "hex s"] c by (metis snd_conv)
    then have inv: "hex_inv w h k'" "0 < h_tiles k'" "length (h_tileBuffer k') = 1024"
      using rdy(2) assms(3) by (simp_all add: hex_inv_def hex_frame_def)
    show ?thesis
    proof (cases q)
      case (Inl e)
      then show ?thesis using 4 c tile assms(1) rdy(1) inv(1)
        by (simp add: hex_process_def hex_draw_def bindx_gets exec_simps on_hex_def hex_outcome_def hex_ready_def)
    next
      case (Inr v)
      have ar: "h_tileX k' = tx" "h_tileY k' = ty" "h_tileW k' = tw" "h_tileH k' = th"
        using hex_colour_tile_area [of sub tx ty tw th _ "hex s" v k'] c Inr by (auto simp: hex_area_def)
      have "tw * th \<le> 16 * 16" using inside(1-4) by (intro mult_mono) simp_all
      moreover have "1 * 1 \<le> tw * th" using inside(1,3) by (intro mult_mono) simp_all
      ultimately have "0 < nat (tw * th * 4)" "0 + nat (tw * th * 4) \<le> length (h_tileBuffer k')"
        using inv(3) by simp_all
      note b = blit_now [OF rdy(1) this(1) refl this(2), of tx ty]
      show ?thesis using 4 c tile b Inr adv hex_inv_done [OF inv(1,2)] ar
        by (simp add: hex_process_def hex_draw_def bindx_gets exec_simps on_hex_def on_disp_def on_sock_def
            hex_outcome_def hex_ready_def)
    qed
  qed
qed

lemma hex_step_wait:
  "rq_inv (sock s) \<Longrightarrow> bindx (on_sock (rQwait m 0)) f s = f (int (length (unread (sock s))) < m) s"
  by (simp add: dq.wait_here bindx_ok)

lemma hex_outcome_here:
  "rq_inv (sock s) \<Longrightarrow> hex_ready w h s \<Longrightarrow>
    hex_outcome (r, s) w h (disp s) (r, [], hex s, unread (sock s))"
  by (simp add: hex_outcome_def)

text \<open>The tests before a tile is processed: the tile, or the wait.\<close>

lemma hex_step_unfold:
  assumes "rq_inv (sock s)" "unread (sock s) \<noteq> []" "sub = uint (hd (unread (sock s)))"
    and "tile_place x y w h (hex s) = (tx, ty, tw, th)" "0 \<le> tw" "0 \<le> th"
    and "n = hex_need sub tw th (unread (sock s))"
  shows "hex_step x y w h s = (if sub > 30 then (Inl (JsError ''Illegal hextile subencoding''), s)
     else if int (length (unread (sock s))) < n then (Inr False, s)
     else hex_process sub tx ty tw th (nat n) s)"
proof -
  let ?u = "unread (sock s)"
  have "0 < length ?u" using assms(2) by simp
  from rQ_at_unread [OF assms(1) this] have sub: "rQ_at (sock s) (rQi (sock s)) = sub"
    using assms(2,3) by (simp add: hd_conv_nth)
  have one: "\<not> int (length ?u) < 1" using assms(2) by (cases ?u) simp_all
  note base = hex_base_def [of sub tw th]
  have b1: "1 \<le> hex_base sub tw th" using assms(5,6) by (simp add: base)
  have at: "rQ_at (sock s) (rQi (sock s) + nat (hex_base sub tw th) - 1) = uint (?u ! (nat (hex_base sub tw th) - 1))"
    if "hex_base sub tw th \<le> int (length ?u)"
  proof -
    have "nat (hex_base sub tw th) - 1 < length ?u" using that b1 by linarith
    moreover have "rQi (sock s) + nat (hex_base sub tw th) - 1 = rQi (sock s) + (nat (hex_base sub tw th) - 1)"
      using b1 by linarith
    ultimately show ?thesis by (simp only: rQ_at_unread [OF assms(1)])
  qed
  show ?thesis
  proof (cases "\<not> flag sub 1 \<and> flag sub 8")
    case False
    then show ?thesis using assms(7) one
      by (auto simp add: hex_step_def hex_step_wait [OF assms(1)] bindx_gets sub assms(4) Let_def hex_throw_def
          throw_def ret_def hex_need_def)
  next
    case True
    let ?n = "hex_base sub tw th + uint (?u ! (nat (hex_base sub tw th) - 1)) * (if flag sub 16 then 6 else 2)"
    show ?thesis
    proof (cases "hex_base sub tw th \<le> int (length ?u)")
      case le: True
      then have "n = ?n" using True assms(7) by (simp add: hex_need_def Let_def)
      with True le one at [OF le] show ?thesis
        by (simp add: hex_step_def hex_step_wait [OF assms(1)] bindx_gets sub assms(4) Let_def hex_throw_def
          throw_def ret_def)
    next
      case False
      then have "n = hex_base sub tw th" using assms(7) by (simp add: hex_need_def Let_def)
      with True False one show ?thesis
        by (simp add: hex_step_def hex_step_wait [OF assms(1)] bindx_gets sub assms(4) Let_def hex_throw_def
          throw_def ret_def)
    qed
  qed
qed

lemma hex_step_outcome:
  assumes "rq_inv (sock s)" "hex_ready w h s" "0 < h_tiles (hex s)"
  shows "hex_outcome (hex_step x y w h s) w h (disp s) (tile_parse x y w h (hex s) (unread (sock s)))"
proof -
  let ?u = "unread (sock s)"
  obtain tx ty tw th where pl: "tile_place x y w h (hex s) = (tx, ty, tw, th)" by (metis prod_cases4)
  have inv: "hex_inv w h (hex s)" using assms(2) by (simp add: hex_ready_def)
  have wh: "0 \<le> tw" "0 \<le> th" using place_inside [OF inv assms(3) pl] by linarith+
  show ?thesis
  proof (cases "?u = []")
    case True
    then show ?thesis using hex_outcome_here [OF assms(1,2), of "Inr False"]
      by (simp add: hex_step_def hex_step_wait [OF assms(1)] tile_parse_def ret_def)
  next
    case False
    define sub n where "sub = uint (hd ?u)" and "n = hex_need sub tw th ?u"
    note st = hex_step_unfold [OF assms(1) False sub_def pl wh n_def]
    have tp: "tile_parse x y w h (hex s) ?u =
      (if sub > 30 then (Inl (JsError ''Illegal hextile subencoding''), [], hex s, ?u)
       else if int (length ?u) < n then (Inr False, [], hex s, ?u)
       else (case hex_draw sub tx ty tw th (take (nat n) ?u) (hex s) of
                  (Inl e, k') \<Rightarrow> (Inl e, [], k', ?u)
                | (Inr os, k') \<Rightarrow> (Inr True, os, tile_done sub k', drop (nat n) ?u)))"
      using False by (simp only: tile_parse_def Let_def pl sub_def n_def if_False prod.case)
    consider "sub > 30" | "\<not> sub > 30" "int (length ?u) < n" | "\<not> sub > 30" "\<not> int (length ?u) < n" by blast
    then show ?thesis
    proof cases
      case 1
      then show ?thesis unfolding st tp using hex_outcome_here [OF assms(1,2)] by simp
    next
      case 2
      then show ?thesis unfolding st tp using hex_outcome_here [OF assms(1,2)] by simp
    next
      case 3
      then show ?thesis unfolding st tp if_not_P [OF 3(1)] if_not_P [OF 3(2)]
        by (intro hex_process_outcome [OF assms pl False sub_def n_def]) simp
    qed
  qed
qed

lemma hex_outcome_continue:
  assumes "hex_outcome res w h (draws os d) p"
  shows "hex_outcome res w h d (continue_with os p)"
  using assms by (cases p; cases res) (simp add: hex_outcome_def draws_append)

lemma hex_loop_outcome:
  "rq_inv (sock s) \<Longrightarrow> hex_ready w h s \<Longrightarrow> h_tiles (hex s) = int n \<Longrightarrow>
   hex_outcome (hex_loop n x y w h s) w h (disp s) (parse_loop (tile_parse x y w h) n (hex s) (unread (sock s)))"
proof (induction n arbitrary: s)
  case 0
  then show ?case using hex_outcome_here [of s w h "Inr True"] by (simp add: ret_def)
next
  case (Suc n)
  have "hex_outcome (hex_step x y w h s) w h (disp s) (tile_parse x y w h (hex s) (unread (sock s)))"
    using Suc.prems by (intro hex_step_outcome) simp_all
  moreover obtain r os k rest where p: "tile_parse x y w h (hex s) (unread (sock s)) = (r, os, k, rest)"
    by (metis prod_cases4)
  ultimately obtain s' where s': "hex_step x y w h s = (r, s')" "rq_inv (sock s')" "unread (sock s') = rest"
    "disp s' = draws os (disp s)" "hex s' = k" "hex_ready w h s'"
    by (cases "hex_step x y w h s") (auto simp: hex_outcome_def)
  show ?case
  proof (cases "r = Inr True")
    case True
    have "h_tiles k = h_tiles (hex s) - 1" using hex_steps.step_left p True by blast
    then have "h_tiles (hex s') = int n" using Suc.prems(3) s'(5) by simp
    note ih = Suc.IH [OF s'(2,6) this, unfolded s'(3,4,5), THEN hex_outcome_continue]
    show ?thesis using ih p s'(1) True by (simp add: bindx_def)
  next
    case False
    then have "hex_loop (Suc n) x y w h s = (r, s')"
      using s'(1) by (cases r) (auto simp: bindx_def ret_def)
    with False p s' show ?thesis by (simp add: hex_outcome_def)
  qed
qed

lemma hex_decode_outcome:
  assumes "rq_inv (sock s)" "hex_ready w h s"
  shows "hex_outcome (hextile_decodeRect x y w h s) w h (disp s) (hex_parse x y w h (hex s) (unread (sock s)))"
proof -
  let ?s = "s\<lparr>hex := hex_start w h (hex s)\<rparr>"
  have "hex_inv w h (hex s)" using assms(2) by (simp add: hex_ready_def)
  note st = hex_start_inv [OF this]
  have "hex_ready w h ?s" using assms(2) st(1) by (simp add: hex_ready_def)
  moreover have "h_tiles (hex ?s) = int (nat (h_tiles (hex ?s)))" using st(2) by simp
  ultimately have "hex_outcome (hex_loop (nat (h_tiles (hex ?s))) x y w h ?s) w h (disp ?s)
      (parse_loop (tile_parse x y w h) (nat (h_tiles (hex ?s))) (hex ?s) (unread (sock ?s)))"
    using assms(1) by (intro hex_loop_outcome) simp_all
  then show ?thesis by (simp add: hextile_decodeRect_def thenx_modify bindx_gets hex_parse_def Let_def)
qed

interpretation hextile_code: rect_decoder "hex_parse x y w h" "hex_ready w h" hex "hextile_decodeRect x y w h"
proof
  show "\<exists>s'. hextile_decodeRect x y w h s = (r, s') \<and> rq_inv (sock s') \<and> unread (sock s') = rest \<and>
        disp s' = draws os (disp s) \<and> hex s' = k \<and> hex_ready w h s'"
    if "rq_inv (sock s)" "hex_ready w h s" "hex_parse x y w h (hex s) (unread (sock s)) = (r, os, k, rest)"
    for s :: "'s hextile_ctx_scheme" and r os k rest
    using hex_decode_outcome [OF that(1,2), of x y] that(3)
    by (cases "hextile_decodeRect x y w h s") (auto simp: hex_outcome_def)
  show "length rest \<le> length bs" if "hex_parse x y w h k bs = (r, os, k', rest)" for k bs r os k' rest
    using that hex_steps.loop_consumes by (simp add: hex_parse_def Let_def)
qed (simp_all add: hex_ready_def)

section \<open>Properties\<close>

text \<open>C11. On a display with nothing queued, hextile does not depend on how the network cuts its data: the result,
  the picture, the decoder's tile counters and colours and what is left unread are those of a single message with
  all of the bytes, at whatever tile of the rectangle the decoder stood when they began to arrive (its counters being those
  of a rectangle of this size, or none), as long as all bytes fit the largest receive buffer. The queue has to be
  empty: while an image is pending, the block of a raw tile is queued with the bytes from the beginning of the receive
  buffer (\<open>blit_offset_ignored\<close>), so that the picture does depend on where in the buffer the tile arrived.\<close>

theorem hextile_fragmentation:
  assumes "rq_inv (sock s)" "renderQ (disp s) = []" "hex_inv w h (hex s)" "cs \<noteq> []"
    "int (length (unread (sock s)) + length (concat cs)) \<le> MAX_RQ_GROW_SIZE"
  shows "\<exists>r s1 s2. receive (hextile_decodeRect x y w h) cs s = (r, s1) \<and>
    receive (hextile_decodeRect x y w h) [concat cs] s = (r, s2) \<and>
    unread (sock s1) = unread (sock s2) \<and> disp s1 = disp s2 \<and> hex s1 = hex s2"
  using assms by (intro hextile_code.receive_pieces) (simp_all add: hex_ready_def)

text \<open>Where a request draws.\<close>

fun covers :: "int \<Rightarrow> int \<Rightarrow> int \<Rightarrow> int \<Rightarrow> draw_request \<Rightarrow> bool" where
  "covers x y w h (DFill a b c d _) \<longleftrightarrow> x \<le> a \<and> a + c \<le> x + w \<and> y \<le> b \<and> b + d \<le> y + h \<and> 1 \<le> c \<and> 1 \<le> d"
| "covers x y w h (DBlit a b c d px) \<longleftrightarrow> x \<le> a \<and> a + c \<le> x + w \<and> y \<le> b \<and> b + d \<le> y + h \<and> 1 \<le> c \<and> 1 \<le> d \<and>
     int (length px) = c * d * 4"
| "covers x y w h _ \<longleftrightarrow> False"

lemma hex_draw_covers:
  assumes "hex_inv w h k" "0 < h_tiles k" "tile_place x y w h k = (tx, ty, tw, th)"
    and "hex_draw sub tx ty tw th tile k = (Inr os, k')" "flag sub 1 \<longrightarrow> int (length tile) = 1 + tw * th * 4"
  shows "list_all (covers x y w h) os \<and> hex_inv w h k'"
proof -
  note inside = place_inside [OF assms(1-3)]
  have "tw * th \<le> 16 * 16" using inside(1-4) by (intro mult_mono) simp_all
  moreover have "1 * 1 \<le> tw * th" using inside(1,3) by (intro mult_mono) simp_all
  ultimately have area: "1 \<le> tw * th" "tw * th \<le> 256" by simp_all
  consider "sub = 0" | "sub \<noteq> 0" "flag sub 1" | v where "sub \<noteq> 0" "\<not> flag sub 1"
      "hex_colour_tile sub tx ty tw th (drop 1 tile) k = (Inr v, k')"
    using assms(4) by (auto simp: hex_draw_def split: prod.splits sum.splits if_splits)
  then show ?thesis
  proof cases
    case 1
    then show ?thesis using assms(1,4) inside by (auto simp: hex_draw_def split: if_splits option.splits)
  next
    case 2
    then show ?thesis using assms(1,4,5) inside area by (auto simp: hex_draw_def)
  next
    case (3 v)
    have ar: "h_tileX k' = tx" "h_tileY k' = ty" "h_tileW k' = tw" "h_tileH k' = th"
      using hex_colour_tile_area [OF 3(3)] by (auto simp: hex_area_def)
    have "hex_frame k' = hex_frame k" using hex_colour_tile_frame [of sub tx ty tw th "drop 1 tile" k] 3(3) by simp
    then have inv: "hex_inv w h k'" using assms(1) hex_inv_frame by blast
    then have "length (h_tileBuffer k') = 1024" by (simp add: hex_inv_def)
    with area have "int (length (take (nat (tw * th * 4)) (h_tileBuffer k'))) = tw * th * 4" by simp
    with 3 assms(4) inv inside ar show ?thesis by (auto simp: hex_draw_def)
  qed
qed

lemma tile_parse_covers:
  assumes "hex_inv w h k" "0 < h_tiles k" "tile_parse x y w h k bs = (r, os, k', rest)"
  shows "list_all (covers x y w h) os \<and> (r = Inr True \<longrightarrow> hex_inv w h k')"
  using assms(3)
proof (cases rule: tile_parse_cases)
  case (tile tx ty tw th n)
  obtain q k1 where q: "hex_draw (uint (hd bs)) tx ty tw th (take (nat n) bs) k = (q, k1)"
    by (metis surj_pair)
  have "flag (uint (hd bs)) 1 \<longrightarrow> n = 1 + tw * th * 4" using tile(4) by (simp add: hex_need_def hex_base_def Let_def)
  moreover have "1 \<le> tw" "1 \<le> th" using place_inside [OF assms(1,2) tile(3)] by linarith+
  ultimately have l: "flag (uint (hd bs)) 1 \<longrightarrow> int (length (take (nat n) bs)) = 1 + tw * th * 4"
    using tile(5) by (auto simp: min_absorb2)
  show ?thesis
  proof (cases q)
    case (Inr os1)
    have "h_tiles k1 = h_tiles k" using hex_draw_left' [OF q] .
    with hex_draw_covers [OF assms(1,2) tile(3) q [unfolded Inr] l] Inr q tile(6) assms(2)
    show ?thesis by (auto intro: hex_inv_done)
  qed (use q tile(6) in simp)
qed simp_all

lemma tile_loop_covers:
  "hex_inv w h k \<Longrightarrow> h_tiles k = int n \<Longrightarrow> parse_loop (tile_parse x y w h) n k bs = (r, os, k', rest) \<Longrightarrow>
    list_all (covers x y w h) os \<and> (r = Inr True \<longrightarrow> h_tiles k' = 0)"
proof (induction n arbitrary: k bs os)
  case (Suc n)
  obtain r1 os1 k1 rest1 where p: "tile_parse x y w h k bs = (r1, os1, k1, rest1)" by (metis prod_cases4)
  have c: "list_all (covers x y w h) os1 \<and> (r1 = Inr True \<longrightarrow> hex_inv w h k1)"
    using Suc.prems(1,2) p by (intro tile_parse_covers) simp_all
  show ?case
  proof (cases "r1 = Inr True")
    case True
    obtain os2 where "parse_loop (tile_parse x y w h) n k1 rest1 = (r, os2, k', rest)" "os = os1 @ os2"
      using Suc.prems(3) p True by (cases "parse_loop (tile_parse x y w h) n k1 rest1") auto
    moreover have "h_tiles k1 = int n" using hex_steps.step_left p True Suc.prems(2) by fastforce
    ultimately show ?thesis using Suc.IH [of k1 rest1 os2] c True by simp
  next
    case False
    then show ?thesis using Suc.prems(3) p c by auto
  qed
qed simp

text \<open>C31. Whatever bytes a hextile rectangle holds, what its decoding draws are fills and blits that
  lie inside the rectangle, are not empty, and each blit carries exactly the pixels of its area; when
  the rectangle is complete no tile is left to come.\<close>

theorem hextile_draws_inside:
  assumes "rq_inv (sock s)" "hex_ready w h s"
  shows "\<exists>r os s'. hextile_decodeRect x y w h s = (r, s') \<and> disp s' = draws os (disp s) \<and>
    list_all (covers x y w h) os \<and> (r = Inr True \<longrightarrow> h_tiles (hex s') = 0)"
proof -
  obtain r os k rest where p: "hex_parse x y w h (hex s) (unread (sock s)) = (r, os, k, rest)"
    by (metis prod_cases4)
  obtain s' where "hextile_decodeRect x y w h s = (r, s')" "disp s' = draws os (disp s)" "hex s' = k"
    using hextile_code.decode_parse [OF assms p] by blast
  moreover have "hex_inv w h (hex s)" using assms(2) by (simp add: hex_ready_def)
  note st = hex_start_inv [OF this]
  have "list_all (covers x y w h) os \<and> (r = Inr True \<longrightarrow> h_tiles k = 0)"
    using st p by (intro tile_loop_covers [OF st(1)]) (simp_all add: hex_parse_def Let_def)
  ultimately show ?thesis by blast
qed

text \<open>A subencoding above 30 is an error whatever follows it, raised before anything is drawn or
  taken from the queue; and a blank first tile, for which no background has been sent, ends in a
  \<open>TypeError\<close> when its colour is set, not in a protocol error.\<close>

theorem hextile_errors:
  assumes "rq_inv (sock s)" "hex_ready w h s" "0 < w" "0 < h" "unread (sock s) = b # rest"
  shows "(30 < uint b \<longrightarrow>
      (\<exists>s'. hextile_decodeRect x y w h s = (Inl (JsError ''Illegal hextile subencoding''), s') \<and>
        unread (sock s') = b # rest \<and> disp s' = disp s)) \<and>
    (b = 0 \<and> h_background (hex s) = None \<and> \<not> flag (h_lastsubencoding (hex s)) 1 \<longrightarrow>
      (\<exists>s'. hextile_decodeRect x y w h s = (Inl TypeError, s') \<and> unread (sock s') = b # rest \<and>
        disp s' = disp s))"
proof -
  let ?k = "hex_start w h (hex s)"
  have inv: "hex_inv w h (hex s)" using assms(2) by (simp add: hex_ready_def)
  have "0 < (w + 15) div 16" "0 < (h + 15) div 16" using assms(3,4) by (simp_all add: pos_imp_zdiv_pos_iff)
  then have "0 < (w + 15) div 16 * ((h + 15) div 16)" by simp
  then have "0 < h_tiles ?k" using hex_start_inv [OF inv] inv
    by (auto simp: hex_start_def ceiling_16 hex_inv_def Let_def)
  then obtain n where n: "nat (h_tiles ?k) = Suc n" by (cases "nat (h_tiles ?k)") simp_all
  have out: "\<exists>s'. hextile_decodeRect x y w h s = (Inl e, s') \<and> unread (sock s') = b # rest \<and> disp s' = disp s"
    if "tile_parse x y w h ?k (b # rest) = (Inl e, [], k', b # rest)" for e k'
  proof -
    have "hex_parse x y w h (hex s) (unread (sock s)) = (Inl e, [], k', b # rest)"
      using n that assms(5) by (simp add: hex_parse_def Let_def)
    from hextile_code.decode_parse [OF assms(1,2) this] show ?thesis by auto
  qed
  have "\<exists>s'. hextile_decodeRect x y w h s = (Inl (JsError ''Illegal hextile subencoding''), s') \<and>
      unread (sock s') = b # rest \<and> disp s' = disp s" if "30 < uint b"
    using that by (intro out [where k' = ?k]) (simp add: tile_parse_def Let_def split: prod.split)
  moreover have "\<exists>s'. hextile_decodeRect x y w h s = (Inl TypeError, s') \<and> unread (sock s') = b # rest \<and>
      disp s' = disp s" if "b = 0" "h_background (hex s) = None" "\<not> flag (h_lastsubencoding (hex s)) 1"
  proof -
    have k: "h_background ?k = None" "\<not> flag (h_lastsubencoding ?k) 1" using that(2,3) by (simp_all add: hex_start_def Let_def)
    have "hex_need 0 tw th (b # rest) = 1" for tw th by (simp add: hex_need_def hex_base_def)
    with k that(1) show ?thesis
      by (intro out [where k' = ?k]) (simp add: tile_parse_def Let_def hex_draw_def split: prod.split)
  qed
  ultimately show ?thesis by (intro conjI impI) (simp_all only: simp_thms)
qed

definition hex_ctx :: "byte list \<Rightarrow> hextile_ctx" where
  "hex_ctx bs = \<lparr>sock = small_socket bs, disp = new_display 16 16 16 16, rre_subrects = 0, raw_lines = 0,
     hex = new_hextile\<rparr>"

lemma hex_ctx_ok: "length bs \<le> 1000 \<Longrightarrow> rq_inv (sock (hex_ctx bs)) \<and> unread (sock (hex_ctx bs)) = bs \<and>
    hex (hex_ctx bs) = new_hextile \<and> disp (hex_ctx bs) = new_display 16 16 16 16"
  by (simp add: hex_ctx_def small_socket_unread)

lemma hex_ctx_ready: "0 \<le> w \<Longrightarrow> 0 \<le> h \<Longrightarrow> hex_ready w h (hex_ctx bs)"
  by (simp add: hex_ready_def hex_inv_def hex_ctx_def new_hextile_def new_display_def)

theorem hextile_fragmentation_witness:
  "\<exists>r s1 s2. receive (hextile_decodeRect 0 0 20 8) [[10], [1, 2, 3], [0, 1, 0x12, 0x34, 0]] (hex_ctx []) = (r, s1) \<and>
    receive (hextile_decodeRect 0 0 20 8) [concat [[10], [1, 2, 3], [0, 1, 0x12, 0x34, 0]]] (hex_ctx []) = (r, s2) \<and>
    unread (sock s1) = unread (sock s2) \<and> disp s1 = disp s2 \<and> hex s1 = hex s2"
  using hex_ctx_ready [of 20 8 "[]"]
  by (intro hextile_fragmentation) (simp_all add: hex_ctx_ok hex_ready_def MAX_RQ_GROW_SIZE_def)

theorem hextile_draws_inside_witness:
  "\<exists>r os s'. hextile_decodeRect 3 4 20 8 (hex_ctx [2, 1, 2, 3, 0, 0]) = (r, s') \<and>
    disp s' = draws os (new_display 16 16 16 16) \<and> list_all (covers 3 4 20 8) os \<and>
    (r = Inr True \<longrightarrow> h_tiles (hex s') = 0)"
  using hextile_draws_inside [of "hex_ctx [2, 1, 2, 3, 0, 0]" 20 8 3 4] by (simp add: hex_ctx_ok hex_ctx_ready)

theorem hextile_errors_witness:
  "(\<exists>s'. hextile_decodeRect 0 0 8 8 (hex_ctx [31, 5]) = (Inl (JsError ''Illegal hextile subencoding''), s') \<and>
      unread (sock s') = [31, 5] \<and> disp s' = new_display 16 16 16 16) \<and>
   (\<exists>s'. hextile_decodeRect 0 0 8 8 (hex_ctx [0, 5]) = (Inl TypeError, s') \<and> unread (sock s') = [0, 5] \<and>
      disp s' = new_display 16 16 16 16)"
  using hextile_errors [of "hex_ctx [31, 5]" 8 8 31 "[5]" 0 0] hextile_errors [of "hex_ctx [0, 5]" 8 8 0 "[5]" 0 0]
  by (simp add: hex_ctx_ok hex_ctx_ready new_hextile_def)

end
