(* ===== verification/Tight_Decoder.thy ===== *)
theory Tight_Decoder
  imports Hextile_Decoder
begin

text \<open>
  \<^verbatim>\<open>core/inflator.js\<close>, \<^verbatim>\<open>core/decoders/tight.js\<close> and \<^verbatim>\<open>core/decoders/tightpng.js\<close>. The decoder object
  keeps what it has read of a rectangle (control byte, filter, palette, length of the compressed data)
  until the rectangle is complete, and the zlib streams across rectangles. zlib itself is vendored code:
  a stream is the list of the calls made on it, and \<open>pako\<close> says what the last of them returned, so any
  deterministic implementation of the library is an instance.
\<close>

section \<open>Inflator\<close>

datatype zcall = ZInput "byte list" | ZNoInput | ZInflate int | ZReset

record inflator =
  z_calls :: "zcall list"
  chunkSize :: int

definition new_inflator :: inflator where
  "new_inflator = \<lparr>z_calls = [], chunkSize = 1024 * 10 * 10\<rparr>"

text \<open>The result of the library's \<open>inflate\<close>: its return code, and the bytes it put in the output.\<close>

type_synonym pako = "zcall list \<Rightarrow> int \<times> byte list"

definition z_call :: "zcall \<Rightarrow> inflator \<Rightarrow> inflator" where
  "z_call c z = z\<lparr>z_calls := z_calls z @ [c]\<rparr>"

definition setInput :: "byte list option \<Rightarrow> inflator \<Rightarrow> inflator" where
  "setInput data = (case data of None \<Rightarrow> z_call ZNoInput | Some d \<Rightarrow> z_call (ZInput d))"

definition inflate :: "pako \<Rightarrow> int \<Rightarrow> (inflator, byte list) exec" where
  "inflate pako expected =
     thenx (modify (\<lambda>z. if expected > chunkSize z then z\<lparr>chunkSize := expected\<rparr> else z))
    (thenx (modify (z_call (ZInflate expected)))
    (bindx (gets (pako \<circ> z_calls)) (\<lambda>(r, output).
       if r < 0 then throw (JsError ''zlib inflate failed'')
       else if int (length output) \<noteq> expected then throw (JsError ''Incomplete zlib block'')
       else ret output)))"

definition inflate_reset :: "inflator \<Rightarrow> inflator" where
  "inflate_reset = z_call ZReset"

section \<open>State\<close>

record tight =
  t_ctl :: "int option"
  t_filter :: "int option"
  t_numColors :: int
  t_palette :: "byte list"
  t_len :: int
  t_zlibs :: "inflator list"
  t_scratch :: "byte list option"

definition new_tight :: tight where
  "new_tight = \<lparr>t_ctl = None, t_filter = None, t_numColors = 0, t_palette = replicate 1024 0, t_len = 0,
     t_zlibs = replicate 4 new_inflator, t_scratch = None\<rparr>"

text \<open>The state of a method call: the socket, the display and the object it is called on.\<close>

record tight_ctx = dctx +
  this :: tight

definition set_this :: "(tight \<Rightarrow> tight) \<Rightarrow> ('s tight_ctx_scheme, unit) exec" where
  "set_this f = modify (\<lambda>s. s\<lparr>this := f (this s)\<rparr>)"

definition this_get :: "(tight \<Rightarrow> 'a) \<Rightarrow> ('s tight_ctx_scheme, 'a) exec" where
  "this_get f = gets (\<lambda>s. f (this s))"

definition on_zlib :: "nat \<Rightarrow> (inflator, 'a) exec \<Rightarrow> ('s tight_ctx_scheme, 'a) exec" where
  "on_zlib i = zoom (\<lambda>s. t_zlibs (this s) ! i) (\<lambda>z s. s\<lparr>this := (this s)\<lparr>t_zlibs := (t_zlibs (this s))[i := z]\<rparr>\<rparr>)"

section \<open>Reading compressed data\<close>

definition readData :: "('s tight_ctx_scheme, byte list option) exec" where
  "readData = bindx (this_get t_len) (\<lambda>len.
     let rest = bindx (this_get t_len) (\<lambda>len.
       bindx (on_sock (rQwait len 0)) (\<lambda>w. if w then ret None else
       bindx (on_sock (rQshiftBytes len)) (\<lambda>data.
       thenx (set_this (\<lambda>t. t\<lparr>t_len := 0\<rparr>)) (ret (Some data)))))
     in if len = 0 then
       bindx (on_sock (rQwait 3 0)) (\<lambda>w. if w then ret None else
       bindx (on_sock rQshift8) (\<lambda>b.
       thenx (set_this (\<lambda>t. t\<lparr>t_len := js_and b 0x7f\<rparr>))
      (thenx
        (if js_and b 0x80 \<noteq> 0 then
           bindx (on_sock rQshift8) (\<lambda>b.
           thenx (set_this (\<lambda>t. t\<lparr>t_len := js_or (t_len t) (js_shl (js_and b 0x7f) 7)\<rparr>))
             (if js_and b 0x80 \<noteq> 0 then
                bindx (on_sock rQshift8) (\<lambda>b. set_this (\<lambda>t. t\<lparr>t_len := js_or (t_len t) (js_shl b 14)\<rparr>))
              else ret ()))
         else ret ())
        rest)))
     else rest)"

text \<open>The data of a filter: as it is when short, inflated otherwise; None for a wait.\<close>

definition filter_data :: "pako \<Rightarrow> nat \<Rightarrow> int \<Rightarrow> ('s tight_ctx_scheme, byte list option) exec" where
  "filter_data pako streamId uncompressedSize =
     (if uncompressedSize < 12 then
        bindx (on_sock (rQwait uncompressedSize 0)) (\<lambda>w. if w then ret None else
        bindx (on_sock (rQshiftBytes uncompressedSize)) (\<lambda>d. ret (Some d)))
      else bindx readData (\<lambda>d. case d of None \<Rightarrow> ret None
        | Some data \<Rightarrow>
          thenx (on_zlib streamId (modify (setInput (Some data))))
         (bindx (on_zlib streamId (inflate pako uncompressedSize)) (\<lambda>d.
          thenx (on_zlib streamId (modify (setInput None))) (ret (Some d))))))"

section \<open>Filters\<close>

definition rgbx_of :: "nat \<Rightarrow> byte list \<Rightarrow> byte list" where
  "rgbx_of pixels data =
     concat (map (\<lambda>p. [elt data (3 * p), elt data (3 * p + 1), elt data (3 * p + 2), 255]) [0..<pixels])"

definition copyFilter :: "pako \<Rightarrow> nat \<Rightarrow> int \<Rightarrow> int \<Rightarrow> int \<Rightarrow> int \<Rightarrow> ('s tight_ctx_scheme, bool) exec" where
  "copyFilter pako streamId x y width height =
     (let uncompressedSize = width * height * 3 in
      if uncompressedSize = 0 then ret True
      else bindx (filter_data pako streamId uncompressedSize) (\<lambda>d. case d of None \<Rightarrow> ret False
        | Some data \<Rightarrow>
          thenx (on_disp (blitImage x y width height (rgbx_of (nat (width * height)) data) 0 0)) (ret True)))"

definition getScratchBuffer :: "int \<Rightarrow> tight \<Rightarrow> byte list" where
  "getScratchBuffer n t = (case t_scratch t of
     Some b \<Rightarrow> if int (length b) < n then replicate (nat n) 0 else b
   | None \<Rightarrow> replicate (nat n) 0)"

text \<open>One pixel of a monochrome rectangle: bit \<open>b\<close> of byte \<open>x\<close> of row \<open>y\<close>.\<close>

definition mono_pixel :: "nat \<Rightarrow> nat \<Rightarrow> byte list \<Rightarrow> byte list \<Rightarrow> nat \<Rightarrow> nat \<Rightarrow> nat \<Rightarrow> byte list \<Rightarrow> byte list" where
  "mono_pixel width w data palette y x b dest =
     (let dp = (y * width + x * 8 + 7 - b) * 4;
          sp = nat (js_and (js_sar (uint (elt data (y * w + x))) b) 1 * 3)
      in dest[dp := elt palette sp, dp + 1 := elt palette (sp + 1), dp + 2 := elt palette (sp + 2), dp + 3 := 255])"

definition mono_row :: "nat \<Rightarrow> byte list \<Rightarrow> byte list \<Rightarrow> nat \<Rightarrow> byte list \<Rightarrow> byte list" where
  "mono_row width data palette y dest =
     (let w = (width + 7) div 8; w1 = width div 8;
          dest = fold (\<lambda>x. fold (mono_pixel width w data palette y x) (rev [0..<8])) [0..<w1] dest
      in fold (mono_pixel width w data palette y w1) (rev [8 - width mod 8..<8]) dest)"

definition monoRect :: "int \<Rightarrow> int \<Rightarrow> int \<Rightarrow> int \<Rightarrow> byte list \<Rightarrow> byte list \<Rightarrow> ('s tight_ctx_scheme, unit) exec" where
  "monoRect x y width height data palette =
     bindx (this_get (getScratchBuffer (width * height * 4))) (\<lambda>dest.
     let dest = fold (mono_row (nat width) data palette) [0..<nat height] dest in
     thenx (set_this (\<lambda>t. t\<lparr>t_scratch := Some dest\<rparr>))
       (on_disp (blitImage x y width height dest 0 0)))"

text \<open>An index past the end of the data is not a number, and neither is a colour of that index.\<close>

definition palette_pixel :: "byte list \<Rightarrow> byte list \<Rightarrow> nat \<Rightarrow> byte list \<Rightarrow> byte list" where
  "palette_pixel data palette j dest =
     (let colour = (\<lambda>k. if j < length data then elt palette (unat (data ! j) * 3 + k) else 0); i = 4 * j
      in dest[i := colour 0, i + 1 := colour 1, i + 2 := colour 2, i + 3 := 255])"

definition paletteRect :: "int \<Rightarrow> int \<Rightarrow> int \<Rightarrow> int \<Rightarrow> byte list \<Rightarrow> byte list \<Rightarrow> ('s tight_ctx_scheme, unit) exec" where
  "paletteRect x y width height data palette =
     bindx (this_get (getScratchBuffer (width * height * 4))) (\<lambda>dest.
     let dest = fold (palette_pixel data palette) [0..<nat (width * height)] dest in
     thenx (set_this (\<lambda>t. t\<lparr>t_scratch := Some dest\<rparr>))
       (on_disp (blitImage x y width height dest 0 0)))"

definition paletteFilter :: "pako \<Rightarrow> nat \<Rightarrow> int \<Rightarrow> int \<Rightarrow> int \<Rightarrow> int \<Rightarrow> ('s tight_ctx_scheme, bool) exec" where
  "paletteFilter pako streamId x y width height =
     (let draw_data = bindx (this_get t_numColors) (\<lambda>n.
        let bpp = (if n \<le> 2 then 1 else 8);
            rowSize = (width * bpp + 7) div 8;
            uncompressedSize = rowSize * height
        in if uncompressedSize = 0 then ret True
           else bindx (filter_data pako streamId uncompressedSize) (\<lambda>d. case d of None \<Rightarrow> ret False
             | Some data \<Rightarrow> bindx (this_get t_palette) (\<lambda>palette.
                 thenx (if n = 2 then monoRect x y width height data palette
                        else paletteRect x y width height data palette)
                (thenx (set_this (\<lambda>t. t\<lparr>t_numColors := 0\<rparr>)) (ret True)))))
      in bindx (this_get t_numColors) (\<lambda>n. if n = 0 then
           bindx (on_sock (rQwait 1 0)) (\<lambda>w. if w then ret False else
           bindx (on_sock (gets rQpeek8)) (\<lambda>p.
           let numColors = p + 1; paletteSize = numColors * 3 in
           bindx (on_sock (rQwait (1 + paletteSize) 0)) (\<lambda>w. if w then ret False else
           thenx (set_this (\<lambda>t. t\<lparr>t_numColors := numColors\<rparr>))
          (thenx (on_sock (modify (rQskipBytes 1)))
          (bindx (this_get t_palette) (\<lambda>palette.
           bindx (on_sock (rQshiftTo palette (nat paletteSize))) (\<lambda>palette.
           thenx (set_this (\<lambda>t. t\<lparr>t_palette := palette\<rparr>)) draw_data)))))))
         else draw_data))"

definition gradientFilter :: "('s tight_ctx_scheme, bool) exec" where
  "gradientFilter = throw (JsError ''Gradient filter not implemented'')"

section \<open>Rectangles\<close>

definition tight_fillRect :: "int \<Rightarrow> int \<Rightarrow> int \<Rightarrow> int \<Rightarrow> ('s tight_ctx_scheme, bool) exec" where
  "tight_fillRect x y width height =
     bindx (on_sock (rQwait 3 0)) (\<lambda>w. if w then ret False else
     bindx (gets sock) (\<lambda>t.
     let color = map (\<lambda>i. to_byte (rQ_at t (rQi t + i))) [0, 1, 2] in
     thenx (on_disp (fillRect x y width height (Some color)))
    (thenx (on_sock (modify (rQskipBytes 3))) (ret True))))"

definition image_data :: "string \<Rightarrow> int \<Rightarrow> int \<Rightarrow> int \<Rightarrow> int \<Rightarrow> ('s tight_ctx_scheme, bool) exec" where
  "image_data mime x y width height =
     bindx readData (\<lambda>d. case d of None \<Rightarrow> ret False
     | Some data \<Rightarrow> thenx (on_disp (imageRect x y width height mime data)) (ret True))"

definition jpegRect :: "int \<Rightarrow> int \<Rightarrow> int \<Rightarrow> int \<Rightarrow> ('s tight_ctx_scheme, bool) exec" where
  "jpegRect = image_data ''image/jpeg''"

text \<open>The two methods that the subclass for TightPNG overrides.\<close>

definition tight_pngRect :: "int \<Rightarrow> int \<Rightarrow> int \<Rightarrow> int \<Rightarrow> ('s tight_ctx_scheme, bool) exec" where
  "tight_pngRect x y width height = throw (JsError ''PNG received in standard Tight rect'')"

definition tight_basicRect :: "pako \<Rightarrow> int \<Rightarrow> int \<Rightarrow> int \<Rightarrow> int \<Rightarrow> int \<Rightarrow> ('s tight_ctx_scheme, bool) exec" where
  "tight_basicRect pako ctl x y width height =
     (let streamId = nat (js_and ctl 3);
          run = bindx (this_get t_filter) (\<lambda>f.
            bindx (if f = Some 0 then copyFilter pako streamId x y width height
                   else if f = Some 1 then paletteFilter pako streamId x y width height
                   else if f = Some 2 then gradientFilter
                   else throw (JsError ''Illegal tight filter received''))
              (\<lambda>r. thenx (if r then set_this (\<lambda>t. t\<lparr>t_filter := None\<rparr>) else ret ()) (ret r)))
      in bindx (this_get t_filter) (\<lambda>f. if f = None then
           if js_and ctl 4 \<noteq> 0 then
             bindx (on_sock (rQwait 1 0)) (\<lambda>w. if w then ret False else
             bindx (on_sock rQshift8) (\<lambda>b. thenx (set_this (\<lambda>t. t\<lparr>t_filter := Some b\<rparr>)) run))
           else thenx (set_this (\<lambda>t. t\<lparr>t_filter := Some 0\<rparr>)) run
         else run))"

definition tightpng_pngRect :: "int \<Rightarrow> int \<Rightarrow> int \<Rightarrow> int \<Rightarrow> ('s tight_ctx_scheme, bool) exec" where
  "tightpng_pngRect = image_data ''image/png''"

definition tightpng_basicRect :: "int \<Rightarrow> int \<Rightarrow> int \<Rightarrow> int \<Rightarrow> int \<Rightarrow> ('s tight_ctx_scheme, bool) exec" where
  "tightpng_basicRect ctl x y width height = throw (JsError ''BasicCompression received in TightPNG rect'')"

definition reset_streams :: "int \<Rightarrow> tight \<Rightarrow> tight" where
  "reset_streams ctl t = fold (\<lambda>i t. if js_and (js_sar ctl i) 1 \<noteq> 0
     then t\<lparr>t_zlibs := (t_zlibs t)[i := inflate_reset (t_zlibs t ! i)]\<rparr> else t) [0..<4] t"

text \<open>\<open>decodeRect\<close> with the two methods as they are bound in the object's class.\<close>

definition tight_decode ::
  "(int \<Rightarrow> int \<Rightarrow> int \<Rightarrow> int \<Rightarrow> ('s tight_ctx_scheme, bool) exec) \<Rightarrow>
   (int \<Rightarrow> int \<Rightarrow> int \<Rightarrow> int \<Rightarrow> int \<Rightarrow> ('s tight_ctx_scheme, bool) exec) \<Rightarrow>
   int \<Rightarrow> int \<Rightarrow> int \<Rightarrow> int \<Rightarrow> ('s tight_ctx_scheme, bool) exec" where
  "tight_decode pngRect basicRect x y width height =
     (let run = bindx (this_get t_ctl) (\<lambda>c. let ctl = the c in
        bindx (if ctl = 0x08 then tight_fillRect x y width height
               else if ctl = 0x09 then jpegRect x y width height
               else if ctl = 0x0A then pngRect x y width height
               else if js_and ctl 0x08 = 0 then basicRect ctl x y width height
               else throw (JsError ''Illegal tight compression received''))
          (\<lambda>r. thenx (if r then set_this (\<lambda>t. t\<lparr>t_ctl := None\<rparr>) else ret ()) (ret r)))
      in bindx (this_get t_ctl) (\<lambda>c. if c = None then
           bindx (on_sock (rQwait 1 0)) (\<lambda>w. if w then ret False else
           bindx (on_sock rQshift8) (\<lambda>ctl.
           thenx (set_this (reset_streams ctl))
          (thenx (set_this (\<lambda>t. t\<lparr>t_ctl := Some (js_sar ctl 4)\<rparr>)) run)))
         else run))"

definition tight_decodeRect :: "pako \<Rightarrow> int \<Rightarrow> int \<Rightarrow> int \<Rightarrow> int \<Rightarrow> ('s tight_ctx_scheme, bool) exec" where
  "tight_decodeRect pako = tight_decode tight_pngRect (tight_basicRect pako)"

definition tightpng_decodeRect :: "int \<Rightarrow> int \<Rightarrow> int \<Rightarrow> int \<Rightarrow> ('s tight_ctx_scheme, bool) exec" where
  "tightpng_decodeRect = tight_decode tightpng_pngRect tightpng_basicRect"

end
