(* ===== verification/Tight_Streams.thy ===== *)
theory Tight_Streams
  imports Tight_Decoder
begin

text \<open>
  The compact length of Tight: one to three bytes of seven, seven and eight bits, and the data it announces,
  through the queue in any two pieces.
\<close>

section \<open>The encoding\<close>

definition compact :: "nat \<Rightarrow> byte list" where
  "compact n =
     (if n < 128 then [to_byte (int n)]
      else if n < 16384 then [to_byte (int (n mod 128 + 128)), to_byte (int (n div 128))]
      else [to_byte (int (n mod 128 + 128)), to_byte (int (n div 128 mod 128 + 128)), to_byte (int (n div 16384))])"

lemma compact_length: "length (compact n) \<in> {1, 2, 3}"
  by (simp add: compact_def)

section \<open>Bits\<close>

lemma high_bit: "0 \<le> b \<Longrightarrow> b < 256 \<Longrightarrow> js_and b 0x80 = 0 \<longleftrightarrow> b < 128"
proof -
  assume b: "0 \<le> b" "b < 256"
  then have "js_and b 0x80 = 0 \<longleftrightarrow> \<not> bit b 7"
    using js_and_nonneg [of b 128] and_exp_eq_0_iff_not_bit [of b 7] by simp
  also have "\<dots> \<longleftrightarrow> even (b div 128)" by (simp add: bit_iff_odd)
  also have "\<dots> \<longleftrightarrow> b < 128"
  proof (cases "b < 128")
    case False
    with b have "b div 128 = 1" by (simp add: int_div_pos_eq)
    with False show ?thesis by simp
  qed (use b in simp)
  finally show ?thesis .
qed

lemma low_bits: "0 \<le> b \<Longrightarrow> b < 256 \<Longrightarrow> js_and b 0x7f = b mod 128"
  using js_and_mask [of b 7] by simp

lemma js_or_low: "0 \<le> a \<Longrightarrow> 0 \<le> c \<Longrightarrow> c < 2 ^ n \<Longrightarrow> a * 2 ^ n + c < 2147483648 \<Longrightarrow> n < 32 \<Longrightarrow> js_or c (js_shl a n) = a * 2 ^ n + c"
proof -
  assume a: "0 \<le> a" "0 \<le> c" "c < 2 ^ n" "a * 2 ^ n + c < 2147483648" "n < 32"
  then have "js_shl a n = a * 2 ^ n" by (intro js_shl_nonneg) linarith+
  then have "js_or c (js_shl a n) = js_or (a * 2 ^ n) c" by (simp add: js_or_def or.commute)
  also have "\<dots> = a * 2 ^ n + c" using a by (intro js_or_disjoint)
  finally show ?thesis .
qed

section \<open>Reading\<close>

lemma tight_sock: "bindx (on_sock m) f s =
    (case m (sock s) of (Inl e, t) \<Rightarrow> (Inl e, s\<lparr>sock := t\<rparr>) | (Inr a, t) \<Rightarrow> f a (s\<lparr>sock := t\<rparr>))"
  by (simp add: bindx_def on_sock_def zoom_def split: prod.split sum.split)

text \<open>The part after the length.\<close>

definition payload_data :: "('s tight_ctx_scheme, byte list option) exec" where
  "payload_data = bindx (this_get t_len) (\<lambda>len.
     bindx (on_sock (rQwait len 0)) (\<lambda>w. if w then ret None else
     bindx (on_sock (rQshiftBytes len)) (\<lambda>data. thenx (set_this (\<lambda>t. t\<lparr>t_len := 0\<rparr>)) (ret (Some data)))))"

lemma payload_data_eq:
  assumes "rq_inv (sock c)" "t_len (this c) = int n"
  shows "payload_data c = (if length (unread (sock c)) < n then (Inr None, c)
    else (Inr (Some (take n (unread (sock c)))), c\<lparr>sock := rQskipBytes n (sock c), this := (this c)\<lparr>t_len := 0\<rparr>\<rparr>))"
  using assms rQshiftBytes_unread [OF assms(1), of n]
  by (simp add: payload_data_def this_get_def set_this_def bindx_gets tight_sock rQwait_here thenx_modify ret_def)

lemma readData_payload: "t_len (this c) \<noteq> 0 \<Longrightarrow> readData c = payload_data c"
  by (simp add: readData_def payload_data_def this_get_def bindx_gets Let_def)

text \<open>The length is read once three bytes are there.\<close>

lemma readData_length:
  assumes c: "rq_inv (sock c)" "t_len (this c) = 0" and n: "unread (sock c) = compact n @ xs" "n < 2 ^ 22"
    and l: "3 \<le> length (compact n @ xs)"
  shows "readData c = payload_data (c\<lparr>sock := rQskipBytes (length (compact n)) (sock c), this := (this c)\<lparr>t_len := int n\<rparr>\<rparr>)"
proof -
  have w: "rQwait 3 0 (sock c) = (Inr False, sock c)" using c(1) n(1) l by (simp add: rQwait_here)
  have wt: "bindx (on_sock (rQwait 3 0)) f c = f False c" for f :: "bool \<Rightarrow> ('a tight_ctx_scheme, byte list option) exec"
    by (simp add: tight_sock w)
  have sh: "rQshift8 (rQskipBytes k (sock c)) = (Inr (uint ((compact n @ xs) ! k)), rQskipBytes (Suc k) (sock c))" if "k < 3" for k
  proof -
    have "k < length (compact n @ xs)" using that l by simp
    then have "drop k (compact n @ xs) = (compact n @ xs) ! k # drop (Suc k) (compact n @ xs)" by (rule Cons_nth_drop_Suc [symmetric])
    then show ?thesis
      using rq.shift_adv [OF c(1), of k 1] n(1) \<open>k < length (compact n @ xs)\<close>
      by (simp add: rQshift8_def shift_value_1 [simplified])
  qed
  note s0 = sh [of 0, simplified skip_0] and s1 = sh [of "Suc 0"] and s2 = sh [of "Suc (Suc 0)"]
  have r: "readData c = bindx (on_sock rQshift8) (\<lambda>b.
      thenx (set_this (\<lambda>t. t\<lparr>t_len := js_and b 0x7f\<rparr>))
     (thenx
       (if js_and b 0x80 \<noteq> 0 then
          bindx (on_sock rQshift8) (\<lambda>b.
          thenx (set_this (\<lambda>t. t\<lparr>t_len := js_or (t_len t) (js_shl (js_and b 0x7f) 7)\<rparr>))
            (if js_and b 0x80 \<noteq> 0 then
               bindx (on_sock rQshift8) (\<lambda>b. set_this (\<lambda>t. t\<lparr>t_len := js_or (t_len t) (js_shl b 14)\<rparr>))
             else ret ()))
        else ret ())
       payload_data)) c"
    using c(2) unfolding readData_def payload_data_def [symmetric] Let_def
    by (simp add: this_get_def bindx_gets wt)
  note ev = r thenx_assoc tight_sock set_this_def thenx_modify thenx_ok ret_def modify_def [of "\<lambda>s. s\<lparr>this := f (this s)\<rparr>" for f]
    compact_def high_bit low_bits uint_to_byte_id s0 s1 s2
  consider "n < 128" | "128 \<le> n" "n < 16384" | "16384 \<le> n" by linarith
  then show ?thesis
  proof cases
    case 1
    then show ?thesis using s0 by (simp add: ev)
  next
    case 2
    have "int (n div 128) < 128" using 2 by linarith
    moreover have e: "int (n div 128) * 128 + int (n mod 128) = int n" by presburger
    moreover have "js_or (int (n mod 128)) (js_shl (int (n div 128)) 7) = int n"
      using 2 js_or_low [of "int (n div 128)" "int (n mod 128)" 7] e by simp
    ultimately show ?thesis using 2 s0 s1 by (simp add: ev)
  next
    case 3
    have "n < 4194304" using n(2) by simp
    then have 2: "int (n div 128 mod 128) < 128" "int (n div 16384) < 256" by linarith+
    have e: "int (n div 16384) * 16384 + (int (n div 128 mod 128) * 128 + int (n mod 128)) = int n"
    proof -
      have "n mod 16384 = 128 * (n div 128 mod 128) + n mod 128" using mod_mult2_eq [of n 128 128] by simp
      with div_mult_mod_eq [of n 16384] have "n div 16384 * 16384 + (n div 128 mod 128 * 128 + n mod 128) = n" by linarith
      then show ?thesis by (metis of_nat_add of_nat_mult of_nat_numeral)
    qed
    have "js_or (int (n mod 128)) (js_shl (int (n div 128 mod 128)) 7) = int (n div 128 mod 128) * 128 + int (n mod 128)"
      using 2 js_or_low [of "int (n div 128 mod 128)" "int (n mod 128)" 7] by simp
    moreover have "js_or (int (n div 128 mod 128) * 128 + int (n mod 128)) (js_shl (int (n div 16384)) 14) = int n"
      using 2 js_or_low [of "int (n div 16384)" "int (n div 128 mod 128) * 128 + int (n mod 128)" 14] e by simp
    ultimately show ?thesis using 2 3 s0 s1 s2 by (simp add: ev)
  qed
qed

section \<open>The property\<close>

text \<open>Once three bytes are there.\<close>

lemma tight_data_parts:
  assumes c: "rq_inv (sock c)" "t_len (this c) = 0" and d: "0 < length data" "length data < 2 ^ 22"
    and q: "unread (sock c) = compact (length data) @ xs" "3 \<le> length (compact (length data) @ xs)"
  shows "(\<forall>rest. xs = data @ rest \<longrightarrow> (\<exists>c'. readData c = (Inr (Some data), c') \<and> unread (sock c') = rest \<and> this c' = this c))
    \<and> (\<forall>j < length data. xs = take j data \<longrightarrow>
        (\<exists>c'. readData c = (Inr None, c') \<and> unread (sock c') = xs \<and>
          (\<forall>t rest. rq_inv t \<and> unread t = data @ rest \<longrightarrow>
            (\<exists>c''. readData (c'\<lparr>sock := t\<rparr>) = (Inr (Some data), c'') \<and> unread (sock c'') = rest \<and> this c'' = this c))))"
proof -
  let ?n = "length data" and ?k = "length (compact (length data))"
  let ?c = "c\<lparr>sock := rQskipBytes ?k (sock c), this := (this c)\<lparr>t_len := int ?n\<rparr>\<rparr>"
  have r: "readData c = payload_data ?c" by (rule readData_length [OF c q(1) d(2) q(2)])
  have k: "rq_inv (sock ?c)" "unread (sock ?c) = xs" using c(1) q(1) by (simp_all add: rq_inv_skip unread_skip)
  have same: "(this c)\<lparr>t_len := 0\<rparr> = this c" using c(2) by (cases "this c") simp
  have whole: "\<exists>c''. payload_data u = (Inr (Some data), c'') \<and> unread (sock c'') = rest \<and> this c'' = this c"
    if "rq_inv (sock u)" "unread (sock u) = data @ rest" "this u = (this c)\<lparr>t_len := int ?n\<rparr>" for u :: "'a tight_ctx_scheme" and rest
    using that payload_data_eq [OF that(1), of ?n] same by (simp add: unread_skip)
  have part: "\<exists>c'. readData c = (Inr None, c') \<and> unread (sock c') = xs \<and>
      (\<forall>t rest. rq_inv t \<and> unread t = data @ rest \<longrightarrow>
        (\<exists>c''. readData (c'\<lparr>sock := t\<rparr>) = (Inr (Some data), c'') \<and> unread (sock c'') = rest \<and> this c'' = this c))"
    if "xs = take j data" "j < ?n" for j
  proof -
    have "readData c = (Inr None, ?c)" using r payload_data_eq [OF k(1), of ?n] k(2) that by simp
    moreover have "readData (?c\<lparr>sock := t\<rparr>) = payload_data (?c\<lparr>sock := t\<rparr>)" for t
      using d(1) by (intro readData_payload) simp
    ultimately show ?thesis using k(2) whole [of "?c\<lparr>sock := t\<rparr>" for t] by auto
  qed
  show ?thesis using r whole [of ?c] k part by auto
qed

text \<open>C16. Compressed data of Tight through the queue. Take data of 1 byte to 4 MB behind its compact length of one to
  three bytes, followed by anything, and let any first part \<open>p\<close> of these bytes be what is unread. If that is less than
  three bytes, the decoder waits and changes nothing (also where the length is complete: data of one byte is only read
  once a third byte is there). If it is more, but not all of the data, nothing is returned and the length alone is
  taken from the queue and kept; once the rest has arrived exactly the data is returned. If all of the data is there, it
  is returned at once. Nothing behind the data is taken, and the decoder is as it was before.\<close>

theorem tight_data_roundtrip:
  assumes c: "rq_inv (sock c)" "t_len (this c) = 0" and d: "0 < length data" "length data < 2 ^ 22"
    and p: "compact (length data) @ data @ rest = p @ q" "unread (sock c) = p"
  shows "(length p < 3 \<longrightarrow> readData c = (Inr None, c))
    \<and> (3 \<le> length p \<and> length p < length (compact (length data) @ data) \<longrightarrow>
        (\<exists>c'. readData c = (Inr None, c') \<and> unread (sock c') = drop (length (compact (length data))) p \<and>
          (\<forall>t. rq_inv t \<and> unread t = data @ rest \<longrightarrow>
            (\<exists>c''. readData (c'\<lparr>sock := t\<rparr>) = (Inr (Some data), c'') \<and> unread (sock c'') = rest \<and> this c'' = this c))))
    \<and> (3 \<le> length p \<and> length (compact (length data) @ data) \<le> length p \<longrightarrow>
        (\<exists>c'. readData c = (Inr (Some data), c') \<and> p = compact (length data) @ data @ unread (sock c') \<and> this c' = this c))"
proof -
  let ?l = "compact (length data)"
  have wait: "readData c = (Inr None, c)" if "length p < 3"
    using c p(2) that by (simp add: readData_def this_get_def bindx_gets tight_sock rQwait_here ret_def)
  define xs where "xs = drop (length ?l) p"
  have xs: "p = ?l @ xs" "xs @ q = data @ rest" if "3 \<le> length p"
  proof -
    have l: "length ?l \<le> length p" using compact_length [of "length data"] that by auto
    have "take (length ?l) (p @ q) = ?l" "drop (length ?l) (p @ q) = data @ rest"
      by (simp_all add: p(1) [symmetric])
    with l show "xs @ q = data @ rest" "p = ?l @ xs"
      using append_take_drop_id [of "length ?l" p] by (simp_all add: xs_def)
  qed
  have parts: "(\<forall>rest. xs = data @ rest \<longrightarrow> (\<exists>c'. readData c = (Inr (Some data), c') \<and> unread (sock c') = rest \<and> this c' = this c))
    \<and> (\<forall>j < length data. xs = take j data \<longrightarrow>
        (\<exists>c'. readData c = (Inr None, c') \<and> unread (sock c') = xs \<and>
          (\<forall>t rest. rq_inv t \<and> unread t = data @ rest \<longrightarrow>
            (\<exists>c''. readData (c'\<lparr>sock := t\<rparr>) = (Inr (Some data), c'') \<and> unread (sock c'') = rest \<and> this c'' = this c))))"
    if "3 \<le> length p"
    using that p(2) xs(1) [OF that] by (intro tight_data_parts [OF c d]) simp_all
  have whole: "\<exists>r. xs = data @ r" if "3 \<le> length p" "length data \<le> length xs"
    using xs(2) [OF that(1)] that(2) by (auto simp: append_eq_append_conv2)
  show ?thesis
  proof (intro conjI impI)
    show "readData c = (Inr None, c)" if "length p < 3" using that by (rule wait)
  next
    assume "3 \<le> length p \<and> length p < length (?l @ data)"
    then have h: "3 \<le> length p" "length p < length (?l @ data)" by simp_all
    then have "length xs < length data" using xs(1) by simp
    moreover have "xs = take (length xs) data"
      using arg_cong [OF xs(2) [OF h(1)], of "take (length xs)"] \<open>length xs < length data\<close> by simp
    ultimately obtain c' where "readData c = (Inr None, c')" "unread (sock c') = xs"
      "\<forall>t rest. rq_inv t \<and> unread t = data @ rest \<longrightarrow>
        (\<exists>c''. readData (c'\<lparr>sock := t\<rparr>) = (Inr (Some data), c'') \<and> unread (sock c'') = rest \<and> this c'' = this c)"
      using conjunct2 [OF parts [OF h(1)], rule_format, of "length xs"] by metis
    then show "\<exists>c'. readData c = (Inr None, c') \<and> unread (sock c') = drop (length ?l) p \<and>
          (\<forall>t. rq_inv t \<and> unread t = data @ rest \<longrightarrow>
            (\<exists>c''. readData (c'\<lparr>sock := t\<rparr>) = (Inr (Some data), c'') \<and> unread (sock c'') = rest \<and> this c'' = this c))"
      by (auto simp: xs_def)
  next
    assume "3 \<le> length p \<and> length (?l @ data) \<le> length p"
    then have h: "3 \<le> length p" "length (?l @ data) \<le> length p" by simp_all
    then have "length data \<le> length xs" using xs(1) by simp
    with whole h(1) obtain r where "xs = data @ r" by blast
    with conjunct1 [OF parts [OF h(1)], rule_format, of r] xs(1) [OF h(1)]
    show "\<exists>c'. readData c = (Inr (Some data), c') \<and> p = ?l @ data @ unread (sock c') \<and> this c' = this c"
      by auto
  qed
qed

text \<open>A queue that holds three bytes behind their length.\<close>

definition three_bytes :: tight_ctx where
  "three_bytes = \<lparr>sock = new_websock\<lparr>rQ := [3, 7, 8, 9], rQlen' := 4, rQbufferSize := 4\<rparr>, disp = new_display 0 0 0 0,
     this = new_tight\<rparr>"

theorem tight_data_roundtrip_witness:
  "\<exists>c'. readData three_bytes = (Inr (Some [7, 8, 9]), c') \<and> [3, 7, 8, 9] = [3, 7, 8, 9] @ unread (sock c') \<and> this c' = new_tight"
  using tight_data_roundtrip [of three_bytes "[7, 8, 9]" "[]" "[3, 7, 8, 9]" "[]"]
  by (simp add: three_bytes_def new_tight_def rq_inv_def unread_def new_websock_def MAX_RQ_GROW_SIZE_def compact_def to_byte_def)

end
