(* ===== verification/Key_Input.thy ===== *)
theory Key_Input
  imports Key_Tables Utf8_Strings "HOL-Library.AList"
begin

text \<open>
  \<^verbatim>\<open>core/input/util.js\<close>, \<^verbatim>\<open>core/input/keyboard.js\<close>, the functions of \<^verbatim>\<open>domkeytable.js\<close> and
  \<^verbatim>\<open>keysymdef.js\<close>: from the browser's key events to presses and releases of keysyms. What the browser
  is and how it changes case is the \<open>platform\<close>; a key event is the record of the attributes read.
  Physical keys are the browser's code names, or the number of a key that has none.
\<close>

section \<open>Tables\<close>

text \<open>A string literal of the code as code units.\<close>

definition units :: "string \<Rightarrow> js_string" where
  "units s = map of_char s"

type_synonym dom_table = "(string \<times> int list) list"

fun dom_key :: "dom_call \<Rightarrow> string" where
  "dom_key (AddStandard key _) = key"
| "dom_key (AddLeftRight key _ _) = key"
| "dom_key (AddNumpad key _ _) = key"

text \<open>The keysyms of the four locations, or the error for one that is not in the keysym table.\<close>

fun dom_row :: "dom_call \<Rightarrow> js_error + int list" where
  "dom_row (AddStandard key (Some s)) = Inr [s, s, s, s]"
| "dom_row (AddLeftRight key (Some l) (Some r)) = Inr [l, l, r, l]"
| "dom_row (AddNumpad key (Some s) (Some n)) = Inr [s, s, s, n]"
| "dom_row _ = Inl (JsError ''Undefined keysym for key'')"

definition dom_add :: "dom_call \<Rightarrow> (dom_table, unit) exec" where
  "dom_add c t = (case dom_row c of
     Inl e \<Rightarrow> (Inl e, t)
   | Inr row \<Rightarrow> if dom_key c \<in> fst ` set t then (Inl (JsError ''Duplicate entry for key''), t)
               else (Inr (), t @ [(dom_key c, row)]))"

primrec dom_build :: "dom_call list \<Rightarrow> (dom_table, unit) exec" where
  "dom_build [] = ret ()"
| "dom_build (c # cs) = thenx (dom_add c) (dom_build cs)"

definition DOMKeyTable :: dom_table where
  "DOMKeyTable = snd (dom_build dom_calls [])"

definition dom_lookup :: "js_string \<Rightarrow> int list option" where
  "dom_lookup key = map_option snd (find (\<lambda>(k, row). units k = key) DOMKeyTable)"

definition lookup :: "int \<Rightarrow> int" where
  "lookup u = (if u \<ge> 0x20 \<and> u \<le> 0xff then u
     else case map_of codepoints u of Some keysym \<Rightarrow> keysym | None \<Rightarrow> js_or 0x01000000 u)"

section \<open>Events\<close>

record platform =
  isMac :: bool
  isIOS :: bool
  isWindows :: bool
  to_upper :: "nat \<Rightarrow> nat"

datatype code = Code string | Platform nat | Unidentified

datatype key_identifier = KeyName string | KeyUnicode nat

record key_event =
  ev_code :: string
  keyCode :: int
  location :: "int option"
  ev_key :: "js_string option"
  charCode :: nat
  keyIdentifier :: "key_identifier option"
  timeStamp :: int

definition getKeycode :: "platform \<Rightarrow> key_event \<Rightarrow> code" where
  "getKeycode pf evt =
     (if ev_code evt \<noteq> [] then
        (if ev_code evt = ''OSLeft'' then Code ''MetaLeft''
         else if ev_code evt = ''OSRight'' then Code ''MetaRight''
         else if ev_code evt = ''Unidentified'' then Unidentified
         else Code (ev_code evt))
      else case map_of vkeys (keyCode evt) of
        None \<Rightarrow> Unidentified
      | Some code \<Rightarrow>
          let code = (if isMac pf \<and> code = ''ContextMenu'' then ''MetaRight'' else code);
              variant = (if location evt = Some 2 then
                  [(''ShiftLeft'', ''ShiftRight''), (''ControlLeft'', ''ControlRight''), (''AltLeft'', ''AltRight'')]
                else if location evt = Some 3 then
                  [(''Delete'', ''NumpadDecimal''), (''Insert'', ''Numpad0''), (''End'', ''Numpad1''),
                   (''ArrowDown'', ''Numpad2''), (''PageDown'', ''Numpad3''), (''ArrowLeft'', ''Numpad4''),
                   (''ArrowRight'', ''Numpad6''), (''Home'', ''Numpad7''), (''ArrowUp'', ''Numpad8''),
                   (''PageUp'', ''Numpad9''), (''Enter'', ''NumpadEnter'')]
                else [])
          in Code (case map_of variant code of Some v \<Rightarrow> v | None \<Rightarrow> code))"

definition key_fixes :: "(js_string \<times> js_string) list" where
  "key_fixes = map (\<lambda>(a, b). (units a, units b))
     [(''OS'', ''Meta''), (''LaunchMyComputer'', ''LaunchApplication1''),
      (''LaunchCalculator'', ''LaunchApplication2''),
      (''UIKeyInputUpArrow'', ''ArrowUp''), (''UIKeyInputDownArrow'', ''ArrowDown''),
      (''UIKeyInputLeftArrow'', ''ArrowLeft''), (''UIKeyInputRightArrow'', ''ArrowRight''),
      (''UIKeyInputEscape'', ''Escape'')]"

definition getKey :: "platform \<Rightarrow> key_event \<Rightarrow> js_string" where
  "getKey pf evt = (case ev_key evt of
     Some key \<Rightarrow>
       (case map_of key_fixes key of
          Some k \<Rightarrow> k
        | None \<Rightarrow> if key = [0] \<and> ev_code evt = ''NumpadDecimal'' then units ''Delete'' else key)
   | None \<Rightarrow>
       (case (case getKeycode pf evt of Code c \<Rightarrow> map_of fixedkeys c | _ \<Rightarrow> None) of
          Some k \<Rightarrow> units k
        | None \<Rightarrow> if charCode evt \<noteq> 0 then [charCode evt mod 65536] else units ''Unidentified''))"

definition dom_location :: "platform \<Rightarrow> js_string \<Rightarrow> key_event \<Rightarrow> int" where
  "dom_location pf key evt =
     (let location = location evt;
          location = (if key = units ''Meta'' \<and> location = Some 0 then Some 2 else location);
          location = (if key = units ''Clear'' \<and> location = Some 3 \<and> getKeycode pf evt = Code ''NumLock''
                      then Some 0 else location)
      in case location of None \<Rightarrow> 0 | Some l \<Rightarrow> if l > 3 then 0 else l)"

text \<open>The result is None for \<open>null\<close>; a location is an index of the table's rows.\<close>

definition getKeysym :: "platform \<Rightarrow> key_event \<Rightarrow> int option" where
  "getKeysym pf evt =
     (let key = getKey pf evt; code = getKeycode pf evt in
      if key = units ''Unidentified'' then None
      else case dom_lookup key of
        Some row \<Rightarrow>
          if key = units ''Meta'' \<and> code = Code ''AltLeft'' then Some XK_Meta_L
          else if key = units ''Meta'' \<and> code = Code ''AltRight'' then Some XK_Meta_R
          else if key = units ''Clear'' \<and> code = Code ''NumLock'' then Some XK_Num_Lock
          else if isWindows pf \<and> key \<in> {units ''Zenkaku'', units ''Hankaku''} then Some XK_Zenkaku_Hankaku
          else if isWindows pf \<and> key \<in> {units ''Romaji'', units ''KanaMode''} then Some XK_Romaji
          else Some (row ! nat (dom_location pf key evt))
      | None \<Rightarrow>
          if length key \<noteq> 1 then None
          else if hd key \<noteq> 0 then Some (lookup (int (hd key))) else None)"

section \<open>The keyboard\<close>

type_synonym key_action = "int option \<times> code \<times> bool"

text \<open>\<open>kb_out\<close> records the calls of \<open>onkeyevent\<close>; \<open>altGrTimeout\<close> whether that timer is running.\<close>

record keyboard =
  keyDownList :: "(code \<times> int option) list"
  altGrArmed :: bool
  altGrTimeout :: bool
  altGrCtrlTime :: int
  kb_grabbed :: bool
  kb_out :: "key_action list"

definition new_keyboard :: keyboard where
  "new_keyboard = \<lparr>keyDownList = [], altGrArmed = False, altGrTimeout = False, altGrCtrlTime = 0,
     kb_grabbed = False, kb_out = []\<rparr>"

definition sendKeyEvent :: "int option \<Rightarrow> code \<Rightarrow> bool \<Rightarrow> keyboard \<Rightarrow> keyboard" where
  "sendKeyEvent keysym code down k =
     (if down then k\<lparr>keyDownList := AList.update code keysym (keyDownList k),
                     kb_out := kb_out k @ [(keysym, code, down)]\<rparr>
      else if code \<notin> fst ` set (keyDownList k) then k
      else k\<lparr>keyDownList := AList.delete code (keyDownList k),
             kb_out := kb_out k @ [(keysym, code, down)]\<rparr>)"

definition getKeyCode :: "platform \<Rightarrow> key_event \<Rightarrow> code" where
  "getKeyCode pf e =
     (let code = getKeycode pf e in
      if code \<noteq> Unidentified then code
      else if keyCode e \<noteq> 0 \<and> keyCode e \<noteq> 229 then Platform (nat (keyCode e))
      else case keyIdentifier e of
        Some (KeyName n) \<Rightarrow> Code n
      | Some (KeyUnicode codepoint) \<Rightarrow> Platform (to_upper pf (codepoint mod 65536))
      | None \<Rightarrow> Unidentified)"

definition held_keysym :: "code \<Rightarrow> keyboard \<Rightarrow> int option" where
  "held_keysym code k = (case map_of (keyDownList k) code of Some s \<Rightarrow> s | None \<Rightarrow> None)"

definition controlLeft_down :: "keyboard \<Rightarrow> keyboard" where
  "controlLeft_down = sendKeyEvent (Some XK_Control_L) (Code ''ControlLeft'') True"

definition capsLock_click :: "keyboard \<Rightarrow> keyboard" where
  "capsLock_click = sendKeyEvent (Some XK_Caps_Lock) (Code ''CapsLock'') False
     \<circ> sendKeyEvent (Some XK_Caps_Lock) (Code ''CapsLock'') True"

definition mac_shuffle :: "int option \<Rightarrow> int option" where
  "mac_shuffle keysym =
     (if keysym = Some XK_Super_L then Some XK_Alt_L
      else if keysym = Some XK_Super_R then Some XK_Super_L
      else if keysym = Some XK_Alt_L then Some XK_Mode_switch
      else if keysym = Some XK_Alt_R then Some XK_ISO_Level3_Shift
      else keysym)"

definition jpBadKeys :: "int list" where
  "jpBadKeys = [XK_Zenkaku_Hankaku, XK_Eisu_toggle, XK_Katakana, XK_Hiragana, XK_Romaji]"

text \<open>The end of an AltGr detection: the keysym of the new key, and the held back Control press.\<close>

definition altGr_resolve :: "code \<Rightarrow> int \<Rightarrow> int option \<Rightarrow> keyboard \<Rightarrow> int option \<times> keyboard" where
  "altGr_resolve code time keysym k =
     (if altGrArmed k then
        let k = k\<lparr>altGrArmed := False, altGrTimeout := False\<rparr> in
        if code = Code ''AltRight'' \<and> time - altGrCtrlTime k < 50
        then (Some XK_ISO_Level3_Shift, k)
        else (keysym, controlLeft_down k)
      else (keysym, k))"

definition handleKeyDown :: "platform \<Rightarrow> key_event \<Rightarrow> keyboard \<Rightarrow> keyboard" where
  "handleKeyDown pf e k =
     (let code = getKeyCode pf e;
          (keysym, k) = altGr_resolve code (timeStamp e) (getKeysym pf e) k
      in if code = Unidentified then
           (if keysym \<noteq> None \<and> keysym \<noteq> Some 0
            then sendKeyEvent keysym code False (sendKeyEvent keysym code True k) else k)
         else
           let keysym = (if isMac pf \<or> isIOS pf then mac_shuffle keysym else keysym);
               keysym = (if code \<in> fst ` set (keyDownList k) then held_keysym code k else keysym)
           in if (isMac pf \<or> isIOS pf) \<and> code = Code ''CapsLock'' then capsLock_click k
              else if isWindows pf \<and> keysym \<in> Some ` set jpBadKeys
              then sendKeyEvent keysym code False (sendKeyEvent keysym code True k)
              else if code = Code ''ControlLeft'' \<and> isWindows pf
                \<and> Code ''ControlLeft'' \<notin> fst ` set (keyDownList k)
              then k\<lparr>altGrArmed := True, altGrTimeout := True, altGrCtrlTime := timeStamp e\<rparr>
              else sendKeyEvent keysym code True k)"

definition handleKeyUp :: "platform \<Rightarrow> key_event \<Rightarrow> keyboard \<Rightarrow> keyboard" where
  "handleKeyUp pf e k =
     (let code = getKeyCode pf e;
          release = (\<lambda>code k. sendKeyEvent (held_keysym code k) code False k);
          k = (if altGrArmed k
               then controlLeft_down (k\<lparr>altGrArmed := False, altGrTimeout := False\<rparr>) else k)
      in if (isMac pf \<or> isIOS pf) \<and> code = Code ''CapsLock'' then capsLock_click k
         else
           let k = release code k in
           if isWindows pf \<and> code \<in> {Code ''ShiftLeft'', Code ''ShiftRight''} then
             let k = (if Code ''ShiftRight'' \<in> fst ` set (keyDownList k) then release (Code ''ShiftRight'') k else k)
             in if Code ''ShiftLeft'' \<in> fst ` set (keyDownList k) then release (Code ''ShiftLeft'') k else k
           else k)"

definition handleAltGrTimeout :: "keyboard \<Rightarrow> keyboard" where
  "handleAltGrTimeout k = controlLeft_down (k\<lparr>altGrArmed := False, altGrTimeout := False\<rparr>)"

definition allKeysUp :: "keyboard \<Rightarrow> keyboard" where
  "allKeysUp k = fold (\<lambda>code k. sendKeyEvent (held_keysym code k) code False k) (map fst (keyDownList k)) k"

definition grab :: "keyboard \<Rightarrow> keyboard" where
  "grab k = k\<lparr>kb_grabbed := True\<rparr>"

definition ungrab :: "keyboard \<Rightarrow> keyboard" where
  "ungrab k = allKeysUp (k\<lparr>kb_grabbed := False\<rparr>)"

section \<open>Events as steps\<close>

datatype kb_event = KeyDown key_event | KeyUp key_event | Blur | AltGrTimer

text \<open>What reaches the keyboard: key events and the loss of focus while it is grabbed, its timer always.\<close>

inductive kb_step :: "platform \<Rightarrow> keyboard \<Rightarrow> keyboard \<Rightarrow> bool" for pf where
  down: "kb_grabbed k \<Longrightarrow> kb_step pf k (handleKeyDown pf e k)"
| up: "kb_grabbed k \<Longrightarrow> kb_step pf k (handleKeyUp pf e k)"
| blur: "kb_grabbed k \<Longrightarrow> kb_step pf k (allKeysUp k)"
| timer: "altGrTimeout k \<Longrightarrow> kb_step pf k (handleAltGrTimeout k)"
| grabs: "kb_step pf k (grab k)"
| ungrabs: "kb_step pf k (ungrab k)"

inductive_cases kb_stepE: "kb_step pf k k'"

text \<open>What the receiver of the actions holds down: a release must be of a key that is down, with the
  keysym it was pressed with; a repeated press must keep the keysym.\<close>

fun play :: "key_action list \<Rightarrow> (code \<rightharpoonup> int option) \<Rightarrow> (code \<rightharpoonup> int option) option" where
  "play [] m = Some m"
| "play ((keysym, code, down) # as) m =
     (if down then (if m code = None \<or> m code = Some keysym then play as (m(code \<mapsto> keysym)) else None)
      else (if m code = Some keysym then play as (m(code := None)) else None))"

end
