(* ===== verification/Key_Safety.thy ===== *)
theory Key_Safety
  imports Key_Input
begin

text \<open>
  What the keyboard promises the receiver of its actions: presses and releases match in every reachable
  state, releasing everything leaves nothing down; and how a pending AltGr detection breaks the latter.
\<close>

section \<open>The contract of one action\<close>

definition kb_ok :: "keyboard \<Rightarrow> bool" where
  "kb_ok k \<longleftrightarrow> distinct (map fst (keyDownList k)) \<and>
     play (kb_out k) Map.empty = Some (map_of (keyDownList k))"

lemma play_append: "play (as @ bs) m = Option.bind (play as m) (play bs)"
proof (induction as arbitrary: m)
  case (Cons a as)
  then show ?case by (cases a) (simp add: fun_upd_def)
qed simp

lemma in_keyDownList: "c \<in> fst ` set (keyDownList k) \<longleftrightarrow> map_of (keyDownList k) c \<noteq> None"
  by (simp add: map_of_eq_None_iff)

lemma not_in_keyDownList: "c \<notin> fst ` set (keyDownList k) \<longleftrightarrow> map_of (keyDownList k) c = None"
  by (simp add: map_of_eq_None_iff)

lemma held_keysym_eq: "map_of (keyDownList k) c = Some s \<Longrightarrow> held_keysym c k = s"
  by (simp add: held_keysym_def)

lemma send_fields [simp]:
  "altGrArmed (sendKeyEvent s c d k) = altGrArmed k" "altGrTimeout (sendKeyEvent s c d k) = altGrTimeout k"
  "altGrCtrlTime (sendKeyEvent s c d k) = altGrCtrlTime k" "kb_grabbed (sendKeyEvent s c d k) = kb_grabbed k"
  by (simp_all add: sendKeyEvent_def)

lemma send_down:
  assumes "kb_ok k" "map_of (keyDownList k) c = None \<or> map_of (keyDownList k) c = Some s"
  shows "kb_ok (sendKeyEvent s c True k)"
    "map_of (keyDownList (sendKeyEvent s c True k)) = (map_of (keyDownList k))(c \<mapsto> s)"
  using assms by (auto simp: kb_ok_def sendKeyEvent_def update_conv' play_append distinct_update)

lemma send_up:
  assumes "kb_ok k" "map_of (keyDownList k) c \<noteq> None \<longrightarrow> map_of (keyDownList k) c = Some s"
  shows "kb_ok (sendKeyEvent s c False k)"
    "map_of (keyDownList (sendKeyEvent s c False k)) = (map_of (keyDownList k))(c := None)"
proof -
  have "kb_ok (sendKeyEvent s c False k) \<and>
    map_of (keyDownList (sendKeyEvent s c False k)) = (map_of (keyDownList k))(c := None)"
  proof (cases "map_of (keyDownList k) c")
    case None
    then show ?thesis using assms(1)
      by (simp only: sendKeyEvent_def not_in_keyDownList if_False if_True) (simp add: fun_upd_idem)
  next
    case (Some x)
    then have "x = s" using assms(2) by simp
    then show ?thesis using assms(1) Some
      by (simp only: sendKeyEvent_def not_in_keyDownList if_False)
        (simp add: kb_ok_def delete_conv' play_append distinct_delete)
  qed
  then show "kb_ok (sendKeyEvent s c False k)"
    "map_of (keyDownList (sendKeyEvent s c False k)) = (map_of (keyDownList k))(c := None)" by simp_all
qed

lemma release_ok:
  assumes "kb_ok k"
  shows "kb_ok (sendKeyEvent (held_keysym c k) c False k)"
    "map_of (keyDownList (sendKeyEvent (held_keysym c k) c False k)) = (map_of (keyDownList k))(c := None)"
proof -
  have "map_of (keyDownList k) c \<noteq> None \<longrightarrow> map_of (keyDownList k) c = Some (held_keysym c k)"
    by (auto simp: held_keysym_eq)
  from send_up [OF assms this] show "kb_ok (sendKeyEvent (held_keysym c k) c False k)"
    "map_of (keyDownList (sendKeyEvent (held_keysym c k) c False k)) = (map_of (keyDownList k))(c := None)" .
qed

lemma click_ok:
  assumes "kb_ok k" "map_of (keyDownList k) c = None \<or> map_of (keyDownList k) c = Some s"
  shows "kb_ok (sendKeyEvent s c False (sendKeyEvent s c True k))"
    "map_of (keyDownList (sendKeyEvent s c False (sendKeyEvent s c True k))) = (map_of (keyDownList k))(c := None)"
proof -
  note d = send_down [OF assms]
  have "map_of (keyDownList (sendKeyEvent s c True k)) c = Some s" using d(2) by simp
  then have "map_of (keyDownList (sendKeyEvent s c True k)) c \<noteq> None \<longrightarrow>
    map_of (keyDownList (sendKeyEvent s c True k)) c = Some s" by simp
  from send_up [OF d(1) this] d(2) show "kb_ok (sendKeyEvent s c False (sendKeyEvent s c True k))"
    "map_of (keyDownList (sendKeyEvent s c False (sendKeyEvent s c True k))) = (map_of (keyDownList k))(c := None)"
    by simp_all
qed

section \<open>The invariant\<close>

definition kb_inv :: "platform \<Rightarrow> keyboard \<Rightarrow> bool" where
  "kb_inv pf k \<longleftrightarrow> kb_ok k \<and> map_of (keyDownList k) Unidentified = None \<and>
     (isMac pf \<or> isIOS pf \<longrightarrow> map_of (keyDownList k) (Code ''CapsLock'') = None) \<and>
     altGrTimeout k = altGrArmed k \<and>
     (altGrArmed k \<longrightarrow> map_of (keyDownList k) (Code ''ControlLeft'') = None)"

lemma disarm_inv:
  "kb_inv pf k \<Longrightarrow> kb_inv pf (k\<lparr>altGrArmed := False, altGrTimeout := False\<rparr>)"
  by (simp add: kb_inv_def kb_ok_def)

lemma controlLeft_inv:
  assumes "kb_inv pf k" "altGrArmed k"
  shows "kb_inv pf (controlLeft_down (k\<lparr>altGrArmed := False, altGrTimeout := False\<rparr>))"
    "map_of (keyDownList (controlLeft_down (k\<lparr>altGrArmed := False, altGrTimeout := False\<rparr>))) =
      (map_of (keyDownList k))(Code ''ControlLeft'' \<mapsto> Some XK_Control_L)"
proof -
  let ?k = "k\<lparr>altGrArmed := False, altGrTimeout := False\<rparr>"
  have k: "kb_ok ?k" "map_of (keyDownList ?k) (Code ''ControlLeft'') = None"
    using assms by (simp_all add: kb_inv_def kb_ok_def)
  note s = send_down [OF k(1), of "Code ''ControlLeft''" "Some XK_Control_L"]
  show "kb_inv pf (controlLeft_down ?k)" using assms k s by (simp add: kb_inv_def controlLeft_down_def)
  show "map_of (keyDownList (controlLeft_down ?k)) =
      (map_of (keyDownList k))(Code ''ControlLeft'' \<mapsto> Some XK_Control_L)"
    using k s by (simp add: controlLeft_down_def)
qed

lemma resolve_inv:
  assumes "kb_inv pf k" "altGr_resolve code t s k = (s', k')"
  shows "kb_inv pf k'" "\<not> altGrArmed k'"
  using assms controlLeft_inv(1) [OF assms(1)] disarm_inv [OF assms(1)]
  by (auto simp: altGr_resolve_def Let_def controlLeft_down_def split: if_splits)

lemma capsLock_inv:
  assumes "kb_inv pf k" "isMac pf \<or> isIOS pf"
  shows "kb_inv pf (capsLock_click k)"
proof -
  have "kb_ok k" "map_of (keyDownList k) (Code ''CapsLock'') = None" using assms by (auto simp: kb_inv_def)
  with click_ok [of k "Code ''CapsLock''" "Some XK_Caps_Lock"] assms show ?thesis
    by (simp add: kb_inv_def capsLock_click_def)
qed

lemma release_inv: "kb_inv pf k \<Longrightarrow> kb_inv pf (sendKeyEvent (held_keysym c k) c False k)"
  using release_ok [of k c] by (simp add: kb_inv_def)

lemma keyDown_inv:
  assumes "kb_inv pf k"
  shows "kb_inv pf (handleKeyDown pf e k)"
proof -
  define code where "code = getKeyCode pf e"
  obtain s k1 where r: "altGr_resolve code (timeStamp e) (getKeysym pf e) k = (s, k1)" by (metis surj_pair)
  note inv = resolve_inv [OF assms r]
  define s1 where "s1 = (if code \<in> fst ` set (keyDownList k1) then held_keysym code k1
      else if isMac pf \<or> isIOS pf then mac_shuffle s else s)"
  have fits: "map_of (keyDownList k1) code = None \<or> map_of (keyDownList k1) code = Some s1"
    unfolding s1_def in_keyDownList by (auto simp: held_keysym_eq)
  have ok: "kb_ok k1" using inv(1) by (simp add: kb_inv_def)
  have eq: "handleKeyDown pf e k =
     (if code = Unidentified then
        (if s \<noteq> None \<and> s \<noteq> Some 0 then sendKeyEvent s code False (sendKeyEvent s code True k1) else k1)
      else if (isMac pf \<or> isIOS pf) \<and> code = Code ''CapsLock'' then capsLock_click k1
      else if isWindows pf \<and> s1 \<in> Some ` set jpBadKeys
      then sendKeyEvent s1 code False (sendKeyEvent s1 code True k1)
      else if code = Code ''ControlLeft'' \<and> isWindows pf \<and> Code ''ControlLeft'' \<notin> fst ` set (keyDownList k1)
      then k1\<lparr>altGrArmed := True, altGrTimeout := True, altGrCtrlTime := timeStamp e\<rparr>
      else sendKeyEvent s1 code True k1)"
    by (simp only: handleKeyDown_def Let_def code_def [symmetric] r prod.case s1_def)
  consider "code = Unidentified" | "code \<noteq> Unidentified" "(isMac pf \<or> isIOS pf) \<and> code = Code ''CapsLock''"
    | "code \<noteq> Unidentified" "\<not> ((isMac pf \<or> isIOS pf) \<and> code = Code ''CapsLock'')" by blast
  then show ?thesis
  proof cases
    case 1
    have "map_of (keyDownList k1) Unidentified = None" using inv(1) by (simp add: kb_inv_def)
    with click_ok [OF ok, of Unidentified s] inv(1) 1 show ?thesis unfolding eq by (simp add: kb_inv_def)
  next
    case 2
    then show ?thesis unfolding eq using capsLock_inv inv(1) by simp
  next
    case 3
    have c: "kb_inv pf (sendKeyEvent s1 code False (sendKeyEvent s1 code True k1))"
      using click_ok [OF ok fits] inv(1) by (simp add: kb_inv_def)
    have d: "kb_inv pf (sendKeyEvent s1 code True k1)"
      using send_down [OF ok fits] inv 3 by (auto simp: kb_inv_def)
    have a: "kb_inv pf (k1\<lparr>altGrArmed := True, altGrTimeout := True, altGrCtrlTime := t\<rparr>)"
      if "Code ''ControlLeft'' \<notin> fst ` set (keyDownList k1)" for t
      using inv(1) that unfolding not_in_keyDownList by (auto simp: kb_inv_def kb_ok_def)
    show ?thesis unfolding eq using 3 c d a by (simp only: if_False split: if_splits) blast
  qed
qed

lemma if_inv: "(b \<Longrightarrow> kb_inv pf k) \<Longrightarrow> (\<not> b \<Longrightarrow> kb_inv pf k') \<Longrightarrow> kb_inv pf (if b then k else k')"
  by simp

lemma keyUp_inv:
  assumes "kb_inv pf k"
  shows "kb_inv pf (handleKeyUp pf e k)"
proof -
  have "kb_inv pf (if altGrArmed k then controlLeft_down (k\<lparr>altGrArmed := False, altGrTimeout := False\<rparr>) else k)"
    using assms controlLeft_inv(1) [OF assms] by simp
  then obtain k1 where k1: "kb_inv pf k1" "(if altGrArmed k
      then controlLeft_down (k\<lparr>altGrArmed := False, altGrTimeout := False\<rparr>) else k) = k1" by simp
  show ?thesis unfolding handleKeyUp_def Let_def k1(2)
    by (intro if_inv release_inv capsLock_inv k1(1)) blast
qed

lemma allKeysUp_fold:
  "kb_ok k \<Longrightarrow> kb_ok (fold (\<lambda>c k. sendKeyEvent (held_keysym c k) c False k) cs k) \<and>
    map_of (keyDownList (fold (\<lambda>c k. sendKeyEvent (held_keysym c k) c False k) cs k))
      = (map_of (keyDownList k)) |` (- set cs) \<and>
    altGrArmed (fold (\<lambda>c k. sendKeyEvent (held_keysym c k) c False k) cs k) = altGrArmed k \<and>
    altGrTimeout (fold (\<lambda>c k. sendKeyEvent (held_keysym c k) c False k) cs k) = altGrTimeout k"
proof (induction cs arbitrary: k)
  case (Cons c cs)
  have "(m(c := None)) |` (- set cs) = m |` (- set (c # cs))" for m :: "code \<rightharpoonup> int option"
    by (auto simp: restrict_map_def fun_eq_iff)
  with Cons.IH [OF release_ok(1) [OF Cons.prems], of c] show ?case
    by (simp only: fold.simps comp_def release_ok(2) [OF Cons.prems] send_fields)
qed (simp add: restrict_map_def)

lemma allKeysUp_ok:
  assumes "kb_ok k"
  shows "kb_ok (allKeysUp k)" "map_of (keyDownList (allKeysUp k)) = Map.empty"
    "altGrArmed (allKeysUp k) = altGrArmed k" "altGrTimeout (allKeysUp k) = altGrTimeout k"
proof -
  have "(map_of xs |` (- set (map fst xs))) c = None" for xs :: "(code \<times> int option) list" and c
    by (cases "map_of xs c") (auto simp: restrict_map_def dest: map_of_SomeD intro: rev_image_eqI)
  then have "map_of (keyDownList k) |` (- set (map fst (keyDownList k))) = Map.empty" by blast
  with allKeysUp_fold [OF assms, of "map fst (keyDownList k)"]
  show "kb_ok (allKeysUp k)" "map_of (keyDownList (allKeysUp k)) = Map.empty"
    "altGrArmed (allKeysUp k) = altGrArmed k" "altGrTimeout (allKeysUp k) = altGrTimeout k"
    by (simp_all add: allKeysUp_def)
qed

lemma allKeysUp_inv: "kb_inv pf k \<Longrightarrow> kb_inv pf (allKeysUp k)"
  using allKeysUp_ok [of k] by (simp add: kb_inv_def)

lemma kb_step_inv: "kb_step pf k k' \<Longrightarrow> kb_inv pf k \<Longrightarrow> kb_inv pf k'"
proof (induction rule: kb_step.induct)
  case (timer k)
  then show ?case using controlLeft_inv(1) [of pf k] by (simp add: handleAltGrTimeout_def) (simp add: kb_inv_def)
next
  case (ungrabs k)
  then have "kb_inv pf (k\<lparr>kb_grabbed := False\<rparr>)" by (simp add: kb_inv_def kb_ok_def)
  then show ?case by (simp add: ungrab_def allKeysUp_inv)
next
  case (grabs k)
  then show ?case by (simp add: grab_def kb_inv_def kb_ok_def)
qed (simp_all add: keyDown_inv keyUp_inv allKeysUp_inv)

lemma kb_reachable_inv: "(kb_step pf)\<^sup>*\<^sup>* new_keyboard k \<Longrightarrow> kb_inv pf k"
proof (induction rule: rtranclp_induct)
  case base
  show ?case by (simp add: kb_inv_def kb_ok_def new_keyboard_def)
qed (rule kb_step_inv)

section \<open>Properties\<close>

text \<open>C13. In every reachable state the actions sent so far make sense to their receiver: a key is
  released only while it is down and with the keysym it was pressed with, a repeated press keeps the
  keysym, and the keys that are down for the receiver are those of the code's list.\<close>

theorem keys_match:
  assumes "(kb_step pf)\<^sup>*\<^sup>* new_keyboard k"
  shows "play (kb_out k) Map.empty = Some (map_of (keyDownList k)) \<and> distinct (map fst (keyDownList k))"
  using kb_reachable_inv [OF assms] by (simp add: kb_inv_def kb_ok_def)

text \<open>C30. When the keyboard is ungrabbed, or the window loses the focus, every key is released: nothing
  is down for the receiver.\<close>

theorem ungrab_releases:
  assumes "(kb_step pf)\<^sup>*\<^sup>* new_keyboard k"
  shows "play (kb_out (ungrab k)) Map.empty = Some Map.empty \<and>
    play (kb_out (allKeysUp k)) Map.empty = Some Map.empty"
proof -
  have "kb_ok k" "kb_ok (k\<lparr>kb_grabbed := False\<rparr>)"
    using kb_reachable_inv [OF assms] by (simp_all add: kb_inv_def kb_ok_def)
  then show ?thesis using allKeysUp_ok unfolding ungrab_def kb_ok_def [of "allKeysUp _"] by metis
qed

text \<open>C38. Ungrabbing does not stop the AltGr timer: if it is running when the keyboard is ungrabbed, its
  event presses the left Control key for the receiver after all keys were released. Then only two things can happen to
  the keyboard, which no event reaches: it is grabbed again, and the press is still held, or it is ungrabbed once more,
  which releases it.\<close>

theorem altGr_timer_after_ungrab:
  assumes "(kb_step pf)\<^sup>*\<^sup>* new_keyboard k" "altGrTimeout k"
  shows "\<exists>k'. kb_step pf (ungrab k) k' \<and>
    play (kb_out k') Map.empty = Some [Code ''ControlLeft'' \<mapsto> Some XK_Control_L] \<and>
    (\<forall>k''. kb_step pf k' k'' \<longleftrightarrow> k'' = grab k' \<or> k'' = ungrab k') \<and>
    play (kb_out (grab k')) Map.empty = Some [Code ''ControlLeft'' \<mapsto> Some XK_Control_L] \<and>
    play (kb_out (ungrab k')) Map.empty = Some Map.empty"
proof -
  let ?k = "k\<lparr>kb_grabbed := False\<rparr>" and ?u = "ungrab k"
  have k: "kb_inv pf k" "altGrArmed k" using kb_reachable_inv [OF assms(1)] assms(2) by (simp_all add: kb_inv_def)
  then have ok: "kb_inv pf ?k" "kb_ok ?k" by (simp_all add: kb_inv_def kb_ok_def)
  have g: "kb_grabbed (fold (\<lambda>c k. sendKeyEvent (held_keysym c k) c False k) cs x) = kb_grabbed x" for cs x
    by (induction cs arbitrary: x) simp_all
  have u: "kb_inv pf ?u" "altGrArmed ?u" "altGrTimeout ?u" "map_of (keyDownList ?u) = Map.empty" "\<not> kb_grabbed ?u"
    using allKeysUp_inv [OF ok(1)] allKeysUp_ok [OF ok(2)] k assms(2)
    by (simp_all add: ungrab_def) (simp add: allKeysUp_def g)
  let ?t = "handleAltGrTimeout ?u"
  have "kb_step pf ?u ?t" using u(3) by (rule kb_step.timer)
  moreover have "kb_ok ?t" "map_of (keyDownList ?t) = [Code ''ControlLeft'' \<mapsto> Some XK_Control_L]"
    using controlLeft_inv [OF u(1,2)] u(4) by (simp_all add: handleAltGrTimeout_def kb_inv_def)
  moreover have "\<not> kb_grabbed ?t" "\<not> altGrTimeout ?t" using u(5)
    by (simp_all add: handleAltGrTimeout_def controlLeft_down_def)
  then have "kb_step pf ?t k'' \<longleftrightarrow> k'' = grab ?t \<or> k'' = ungrab ?t" for k''
    by (auto elim: kb_stepE intro: kb_step.intros)
  moreover have "kb_out (grab ?t) = kb_out ?t" by (simp add: grab_def)
  moreover have "kb_ok (?t\<lparr>kb_grabbed := False\<rparr>)" using \<open>kb_ok ?t\<close> by (simp add: kb_ok_def)
  then have "play (kb_out (ungrab ?t)) Map.empty = Some Map.empty"
    using allKeysUp_ok unfolding ungrab_def kb_ok_def [of "allKeysUp _"] by metis
  ultimately show ?thesis by (intro exI [of _ ?t]) (simp add: kb_ok_def)
qed

text \<open>On Windows the fake Control press that precedes AltGr is held back: when the right Alt key
  follows within 50 ms only the AltGr keysym is sent, for the right Alt key; otherwise the Control press
  is sent first and the key after it with its own keysym.\<close>

theorem altGr_merged:
  assumes "isWindows pf" "\<not> isMac pf" "\<not> isIOS pf" "\<not> altGrArmed k"
    and "map_of (keyDownList k) (Code ''ControlLeft'') = None" "map_of (keyDownList k) (Code ''AltRight'') = None"
    and "getKeyCode pf e1 = Code ''ControlLeft''" "getKeysym pf e1 \<notin> Some ` set jpBadKeys"
    and "getKeyCode pf e2 = Code ''AltRight''" "getKeysym pf e2 \<notin> Some ` set jpBadKeys"
  shows "kb_out (handleKeyDown pf e1 k) = kb_out k \<and>
    kb_out (handleKeyDown pf e2 (handleKeyDown pf e1 k)) = kb_out k @
      (if timeStamp e2 - timeStamp e1 < 50 then [(Some XK_ISO_Level3_Shift, Code ''AltRight'', True)]
       else [(Some XK_Control_L, Code ''ControlLeft'', True), (getKeysym pf e2, Code ''AltRight'', True)])"
proof -
  let ?k = "k\<lparr>altGrArmed := True, altGrTimeout := True, altGrCtrlTime := timeStamp e1\<rparr>"
  have n: "Code ''ControlLeft'' \<notin> fst ` set (keyDownList k)" "Code ''AltRight'' \<notin> fst ` set (keyDownList k)"
    using assms(5,6) by (simp_all add: not_in_keyDownList)
  have "handleKeyDown pf e1 k = ?k"
    using assms(1-4,7,8) n unfolding handleKeyDown_def Let_def altGr_resolve_def by simp
  moreover have "Some XK_ISO_Level3_Shift \<notin> Some ` set jpBadKeys" by code_simp
  moreover have "Code ''AltRight'' \<notin> fst ` set (keyDownList (controlLeft_down (?k\<lparr>altGrArmed := False, altGrTimeout := False\<rparr>)))"
    using assms(6) unfolding not_in_keyDownList by (simp add: controlLeft_down_def sendKeyEvent_def update_conv')
  ultimately show ?thesis
    using assms(1-3,9,10) n unfolding handleKeyDown_def [of pf e2] Let_def altGr_resolve_def
    by (simp add: controlLeft_down_def) (simp add: sendKeyEvent_def)
qed

text \<open>Latin-1 characters are their own keysym, and a character without an entry in the table is sent as
  a Unicode keysym.\<close>

theorem lookup_ranges:
  assumes "0 \<le> u" "u < 2 ^ 24"
  shows "lookup u = (if 0x20 \<le> u \<and> u \<le> 0xff then u
    else case map_of codepoints u of Some k \<Rightarrow> k | None \<Rightarrow> 2 ^ 24 + u)"
proof -
  have "toSigned32bit 0x1000000 = 0x1000000" "toSigned32bit u = u"
    using assms by (simp_all add: toSigned32bit_nonneg)
  moreover have "0x1000000 OR u = 0x1000000 + u"
  proof -
    define v :: int where "v = push_bit 24 1"
    have "\<not> bit u n" if "24 \<le> n" for n
      using assms that by (simp add: bit_iff_odd) (metis assms div_pos_pos_trivial even_zero le_less_trans
        less_le_trans linorder_not_le numeral_One one_less_numeral_iff power_increasing_iff semiring_norm(76))
    moreover have "bit v n \<longleftrightarrow> 24 \<le> n \<and> bit (1 :: int) (n - 24)" for n
      unfolding v_def by (rule bit_push_bit_iff_int)
    ultimately have "\<not> bit v n \<or> \<not> bit u n" for n by blast
    then have "v OR u = v + u" by (intro disjunctive_add [symmetric])
    then show ?thesis by (simp add: v_def push_bit_eq_mult)
  qed
  ultimately show ?thesis by (simp add: lookup_def js_or_def split: option.split)
qed

text \<open>Two entries of the table collide with the Unicode keysym of another character: the small letter o
  with caron is sent as the capital one, and the sign "approximately equal to" as "almost equal to".\<close>

theorem lookup_collisions:
  "lookup 0x1d2 = 2 ^ 24 + 0x1d1 \<and> lookup 0x1d1 = lookup 0x1d2 \<and>
   lookup 0x2245 = 2 ^ 24 + 0x2248 \<and> lookup 0x2248 = 2 ^ 24 + 0x2248"
  by code_simp

section \<open>Instances\<close>

definition windows :: platform where
  "windows = \<lparr>isMac = False, isIOS = False, isWindows = True, to_upper = id\<rparr>"

text \<open>A key event with a code and a time, whose key is unidentified.\<close>

definition code_event :: "string \<Rightarrow> int \<Rightarrow> key_event" where
  "code_event c t = \<lparr>ev_code = c, keyCode = 0, location = None, ev_key = Some (units ''Unidentified''),
     charCode = 0, keyIdentifier = None, timeStamp = t\<rparr>"

definition ctrl_then :: "keyboard" where
  "ctrl_then = handleKeyDown windows (code_event ''ControlLeft'' 1000) (grab new_keyboard)"

lemma code_event_keys:
  "getKeysym windows (code_event c t) = None"
  "c \<noteq> [] \<Longrightarrow> c \<notin> {''OSLeft'', ''OSRight'', ''Unidentified''} \<Longrightarrow> getKeyCode windows (code_event c t) = Code c"
proof -
  have "getKey windows (code_event c t) = units ''Unidentified''" by (simp add: getKey_def code_event_def) code_simp
  then show "getKeysym windows (code_event c t) = None" by (simp add: getKeysym_def)
  show "c \<noteq> [] \<Longrightarrow> c \<notin> {''OSLeft'', ''OSRight'', ''Unidentified''} \<Longrightarrow> getKeyCode windows (code_event c t) = Code c"
    by (auto simp: getKeyCode_def getKeycode_def code_event_def)
qed

lemma ctrl_then_reached: "(kb_step windows)\<^sup>*\<^sup>* new_keyboard ctrl_then"
proof -
  have "kb_step windows new_keyboard (grab new_keyboard)" by (rule kb_step.grabs)
  moreover have "kb_step windows (grab new_keyboard) ctrl_then"
    unfolding ctrl_then_def by (rule kb_step.down) (simp add: grab_def)
  ultimately show ?thesis by (meson rtranclp.rtrancl_into_rtrancl rtranclp.rtrancl_refl)
qed

lemma ctrl_then_timer: "altGrTimeout ctrl_then"
  by (simp add: ctrl_then_def handleKeyDown_def altGr_resolve_def code_event_keys grab_def new_keyboard_def
      windows_def [THEN arg_cong, of isWindows] windows_def [THEN arg_cong, of isMac] windows_def [THEN arg_cong, of isIOS])
    (simp add: code_event_def)?

theorem keys_match_witness:
  "play (kb_out ctrl_then) Map.empty = Some (map_of (keyDownList ctrl_then)) \<and>
    distinct (map fst (keyDownList ctrl_then))"
  by (rule keys_match [OF ctrl_then_reached])

theorem ungrab_releases_witness:
  "play (kb_out (ungrab ctrl_then)) Map.empty = Some Map.empty \<and>
    play (kb_out (allKeysUp ctrl_then)) Map.empty = Some Map.empty"
  by (rule ungrab_releases [OF ctrl_then_reached])

theorem altGr_timer_after_ungrab_witness:
  "\<exists>k'. kb_step windows (ungrab ctrl_then) k' \<and>
    play (kb_out k') Map.empty = Some [Code ''ControlLeft'' \<mapsto> Some XK_Control_L] \<and>
    (\<forall>k''. kb_step windows k' k'' \<longleftrightarrow> k'' = grab k' \<or> k'' = ungrab k') \<and>
    play (kb_out (grab k')) Map.empty = Some [Code ''ControlLeft'' \<mapsto> Some XK_Control_L] \<and>
    play (kb_out (ungrab k')) Map.empty = Some Map.empty"
  by (rule altGr_timer_after_ungrab [OF ctrl_then_reached ctrl_then_timer])

theorem altGr_merged_witness:
  "kb_out (handleKeyDown windows (code_event ''ControlLeft'' 1000) new_keyboard) = [] \<and>
    kb_out (handleKeyDown windows (code_event ''AltRight'' 1001)
      (handleKeyDown windows (code_event ''ControlLeft'' 1000) new_keyboard))
      = [(Some XK_ISO_Level3_Shift, Code ''AltRight'', True)]"
  using altGr_merged [where pf = windows and k = new_keyboard and ?e1.0 = "code_event ''ControlLeft'' 1000"
    and ?e2.0 = "code_event ''AltRight'' 1001"]
  by (simp add: code_event_keys) (simp add: windows_def new_keyboard_def code_event_def)

theorem lookup_ranges_witness: "lookup 233 = 233"
  using lookup_ranges [of 233] by simp

end
