(* ===== verification/Gesture_Handler.thy ===== *)
theory Gesture_Handler
  imports JS_Prelude Complex_Main
begin

text \<open>
  \<^verbatim>\<open>core/input/gesturehandler.js\<close>: from touches to gestures. The state is a bit mask of the gestures
  that are still possible; a gesture is detected when one bit is left. Coordinates are rational numbers,
  times are integers and an argument of the handlers that read the clock. \<open>Math.hypot\<close> and \<open>Math.atan2\<close>,
  which the language leaves to the implementation, are the fields of a record; \<open>atan2\<close> is in degrees here.
\<close>

record js_math =
  hypot :: "rat \<Rightarrow> rat \<Rightarrow> rat"
  atan2 :: "rat \<Rightarrow> rat \<Rightarrow> rat"

section \<open>Constants and state\<close>

definition GH_NOGESTURE :: int where "GH_NOGESTURE = 0"
definition GH_ONETAP :: int where "GH_ONETAP = 1"
definition GH_TWOTAP :: int where "GH_TWOTAP = 2"
definition GH_THREETAP :: int where "GH_THREETAP = 4"
definition GH_DRAG :: int where "GH_DRAG = 8"
definition GH_LONGPRESS :: int where "GH_LONGPRESS = 16"
definition GH_TWODRAG :: int where "GH_TWODRAG = 32"
definition GH_PINCH :: int where "GH_PINCH = 64"
definition GH_INITSTATE :: int where "GH_INITSTATE = 127"
definition GH_MOVE_THRESHOLD :: rat where "GH_MOVE_THRESHOLD = 50"
definition GH_ANGLE_THRESHOLD :: rat where "GH_ANGLE_THRESHOLD = 90"
definition GH_MULTITOUCH_TIMEOUT :: int where "GH_MULTITOUCH_TIMEOUT = 250"
definition GH_TAP_TIMEOUT :: int where "GH_TAP_TIMEOUT = 1000"

lemmas GH_defs = GH_NOGESTURE_def GH_ONETAP_def GH_TWOTAP_def GH_THREETAP_def GH_DRAG_def GH_LONGPRESS_def
  GH_TWODRAG_def GH_PINCH_def GH_INITSTATE_def

record touch =
  t_id :: int
  started :: int
  active :: bool
  firstX :: rat
  firstY :: rat
  lastX :: rat
  lastY :: rat
  angle :: rat

datatype gesture_type = GestureStart | GestureMove | GestureEnd

record gesture_event =
  ge_type :: gesture_type
  ge_gesture :: string
  ge_X :: rat
  ge_Y :: rat
  ge_magnitude :: "(rat \<times> rat) option"

record gestures =
  g_state :: int
  tracked :: "touch list"
  ignored :: "int list"
  waitingRelease :: bool
  releaseStart :: int
  longpressTimer :: bool
  twoTouchTimer :: bool
  twoTouchPending :: bool
  g_target :: bool
  g_out :: "gesture_event list"

definition new_gestures :: gestures where
  "new_gestures = \<lparr>g_state = GH_INITSTATE, tracked = [], ignored = [], waitingRelease = False,
     releaseStart = 0, longpressTimer = False, twoTouchTimer = False, twoTouchPending = False,
     g_target = False, g_out = []\<rparr>"

definition gesture_attach :: "gestures \<Rightarrow> gestures" where
  "gesture_attach g =
     (let g = (if g_target g then g\<lparr>longpressTimer := False, twoTouchTimer := False, twoTouchPending := False, g_target := False\<rparr> else g)
      in g\<lparr>g_target := True\<rparr>)"

definition gesture_detach :: "gestures \<Rightarrow> gestures" where
  "gesture_detach g =
     (if g_target g then g\<lparr>longpressTimer := False, twoTouchTimer := False, twoTouchPending := False, g_target := False\<rparr> else g)"

definition clear :: "int \<Rightarrow> int \<Rightarrow> int" where
  "clear bits s = js_and s (js_not bits)"

definition clear_state :: "int \<Rightarrow> (gestures, unit) exec" where
  "clear_state bits = modify (\<lambda>g. g\<lparr>g_state := clear bits (g_state g)\<rparr>)"

definition hasDetectedGesture :: "gestures \<Rightarrow> bool" where
  "hasDetectedGesture g \<longleftrightarrow>
     g_state g \<noteq> GH_NOGESTURE \<and> js_and (g_state g) (g_state g - 1) = 0 \<and>
     \<not> (js_and (g_state g) (js_or (js_or GH_ONETAP GH_TWOTAP) GH_THREETAP) \<noteq> 0 \<and>
        list_ex active (tracked g))"

section \<open>Events\<close>

definition stateToGesture :: "int \<Rightarrow> js_error + string" where
  "stateToGesture s =
     (if s = GH_ONETAP then Inr ''onetap'' else if s = GH_TWOTAP then Inr ''twotap''
      else if s = GH_THREETAP then Inr ''threetap'' else if s = GH_DRAG then Inr ''drag''
      else if s = GH_LONGPRESS then Inr ''longpress'' else if s = GH_TWODRAG then Inr ''twodrag''
      else if s = GH_PINCH then Inr ''pinch'' else Inl (JsError ''Unknown gesture state''))"

text \<open>The average of the first and of the last positions.\<close>

definition getPosition :: "gestures \<Rightarrow> js_error + ((rat \<times> rat) \<times> rat \<times> rat)" where
  "getPosition g =
     (if tracked g = [] then Inl (JsError ''Failed to get gesture position, no tracked touches'')
      else let n = of_nat (length (tracked g)); avg = (\<lambda>f. sum_list (map f (tracked g)) / n)
           in Inr ((avg firstX, avg firstY), (avg lastX, avg lastY)))"

definition getAverageMovement :: "gestures \<Rightarrow> js_error + (rat \<times> rat)" where
  "getAverageMovement g =
     (if tracked g = [] then Inl (JsError ''Failed to get gesture movement, no tracked touches'')
      else let n = of_nat (length (tracked g)); avg = (\<lambda>f. sum_list (map f (tracked g)) / n)
           in Inr (avg (\<lambda>t. lastX t - firstX t), avg (\<lambda>t. lastY t - firstY t)))"

definition getAverageDistance :: "gestures \<Rightarrow> js_error + ((rat \<times> rat) \<times> rat \<times> rat)" where
  "getAverageDistance g =
     (if tracked g = [] then Inl (JsError ''Failed to get gesture distance, no tracked touches'')
      else let a = hd (tracked g); b = last (tracked g)
           in Inr ((\<bar>firstX b - firstX a\<bar>, \<bar>firstY b - firstY a\<bar>), (\<bar>lastX b - lastX a\<bar>, \<bar>lastY b - lastY a\<bar>)))"

definition magnitude :: "gesture_type \<Rightarrow> gestures \<Rightarrow> js_error + (rat \<times> rat) option" where
  "magnitude ty g =
     (if g_state g = GH_PINCH then
        map_sum id (\<lambda>(a, b). Some (if ty = GestureStart then a else b)) (getAverageDistance g)
      else if g_state g = GH_TWODRAG then
        (if ty = GestureStart then Inr (Some (0, 0)) else map_sum id Some (getAverageMovement g))
      else Inr None)"

definition lift_sum :: "('s \<Rightarrow> js_error + 'a) \<Rightarrow> ('s, 'a) exec" where
  "lift_sum f s = (f s, s)"

definition pushEvent :: "gesture_type \<Rightarrow> (gestures, unit) exec" where
  "pushEvent ty =
     bindx (lift_sum (stateToGesture \<circ> g_state)) (\<lambda>name.
     bindx (lift_sum getPosition) (\<lambda>(first, last).
     bindx (lift_sum (magnitude ty)) (\<lambda>mag.
     bindx (gets id) (\<lambda>g.
     let pos = (if ty = GestureStart then first else last);
         pos = (if g_state g = GH_TWODRAG \<or> g_state g = GH_PINCH then first else pos)
     in if g_target g then modify (\<lambda>g. g\<lparr>g_out := g_out g @ [\<lparr>ge_type = ty, ge_gesture = name,
            ge_X = fst pos, ge_Y = snd pos, ge_magnitude = mag\<rparr>]\<rparr>)
        else throw TypeError))))"

section \<open>Timers\<close>

definition stopLongpressTimeout :: "(gestures, unit) exec" where
  "stopLongpressTimeout = modify (\<lambda>g. g\<lparr>longpressTimer := False\<rparr>)"

definition startLongpressTimeout :: "(gestures, unit) exec" where
  "startLongpressTimeout = thenx stopLongpressTimeout (modify (\<lambda>g. g\<lparr>longpressTimer := True\<rparr>))"

definition stopTwoTouchTimeout :: "(gestures, unit) exec" where
  "stopTwoTouchTimeout = modify (\<lambda>g. g\<lparr>twoTouchTimer := False, twoTouchPending := False\<rparr>)"

definition startTwoTouchTimeout :: "(gestures, unit) exec" where
  "startTwoTouchTimeout = thenx stopTwoTouchTimeout (modify (\<lambda>g. g\<lparr>twoTouchTimer := True, twoTouchPending := True\<rparr>))"

text \<open>The code does not reset the identifier of a timer that fires. \<open>longpressTimer\<close> and \<open>twoTouchPending\<close> say
  that the timer will still fire; \<open>twoTouchTimer\<close> that the code holds an identifier, which is what
  \<open>_isTwoTouchTimeoutRunning\<close> tests.\<close>

definition longpressTimeout :: "(gestures, unit) exec" where
  "longpressTimeout = bindx (gets hasDetectedGesture) (\<lambda>d.
     if d then throw (JsError ''A longpress gesture failed, conflict with a different gesture'')
     else thenx (modify (\<lambda>g. g\<lparr>g_state := GH_LONGPRESS\<rparr>)) (pushEvent GestureStart))"

definition twoTouchTimeout :: "js_math \<Rightarrow> (gestures, unit) exec" where
  "twoTouchTimeout m = bindx (gets tracked) (\<lambda>ts.
     if ts = [] then throw (JsError ''A pinch or two drag gesture failed, no tracked touches'')
     else
       bindx (lift_sum getAverageMovement) (\<lambda>(mx, my).
       bindx (lift_sum getAverageDistance) (\<lambda>((fx, fy), (lx, ly)).
       let avgMoveH = \<bar>mx\<bar>; avgMoveV = \<bar>my\<bar>;
           deltaTouchDistance = \<bar>hypot m fx fy - hypot m lx ly\<bar>
       in thenx (modify (\<lambda>g. g\<lparr>g_state :=
            (if avgMoveV < deltaTouchDistance \<and> avgMoveH < deltaTouchDistance then GH_PINCH else GH_TWODRAG)\<rparr>))
          (thenx (pushEvent GestureStart) (pushEvent GestureMove)))))"

section \<open>Touches\<close>

definition touchStart :: "int \<Rightarrow> int \<Rightarrow> rat \<Rightarrow> rat \<Rightarrow> (gestures, unit) exec" where
  "touchStart now i x y = bindx (gets id) (\<lambda>g.
     let ignore = modify (\<lambda>g. g\<lparr>ignored := ignored g @ [i]\<rparr>);
         give_up = modify (\<lambda>g. g\<lparr>g_state := GH_NOGESTURE, ignored := ignored g @ [i]\<rparr>)
     in if hasDetectedGesture g \<or> g_state g = GH_NOGESTURE then ignore
        else if length (tracked g) > 0 \<and> now - started (tracked g ! 0) > GH_MULTITOUCH_TIMEOUT then give_up
        else if waitingRelease g then give_up
        else thenx (modify (\<lambda>g. g\<lparr>tracked := tracked g @ [\<lparr>t_id = i, started = now, active = True,
               firstX = x, firstY = y, lastX = x, lastY = y, angle = 0\<rparr>]\<rparr>))
         (bindx (gets (length \<circ> tracked)) (\<lambda>n.
            if n = 1 then startLongpressTimeout
            else if n = 2 then
              thenx (clear_state (js_or (js_or GH_ONETAP GH_DRAG) GH_LONGPRESS)) stopLongpressTimeout
            else if n = 3 then clear_state (js_or (js_or GH_TWOTAP GH_TWODRAG) GH_PINCH)
            else modify (\<lambda>g. g\<lparr>g_state := GH_NOGESTURE\<rparr>))))"

text \<open>The first touch with an identifier, and its update in place.\<close>

definition find_touch :: "int \<Rightarrow> gestures \<Rightarrow> touch option" where
  "find_touch i g = find (\<lambda>t. t_id t = i) (tracked g)"

fun update_touch :: "int \<Rightarrow> (touch \<Rightarrow> touch) \<Rightarrow> touch list \<Rightarrow> touch list" where
  "update_touch i f [] = []"
| "update_touch i f (t # ts) = (if t_id t = i then f t # ts else t # update_touch i f ts)"

definition moved_touch :: "js_math \<Rightarrow> rat \<Rightarrow> rat \<Rightarrow> touch \<Rightarrow> touch" where
  "moved_touch m x y t =
     (let t = t\<lparr>lastX := x, lastY := y\<rparr> in
      if firstX t \<noteq> lastX t \<or> firstY t \<noteq> lastY t then t\<lparr>angle := atan2 m (y - firstY t) (x - firstX t)\<rparr> else t)"

text \<open>The remainder operator of the language on a nonnegative number.\<close>

definition js_rem :: "rat \<Rightarrow> rat \<Rightarrow> rat" where
  "js_rem a b = a - b * of_int \<lfloor>a / b\<rfloor>"

text \<open>Two touches: which of the two gestures their directions rule out, when both have moved.\<close>

definition two_touch_move :: "js_math \<Rightarrow> int \<Rightarrow> touch \<Rightarrow> (gestures, unit) exec" where
  "two_touch_move m i touch = bindx (gets id) (\<lambda>g.
     case find (\<lambda>t. t_id t \<noteq> i) (tracked g) of
       None \<Rightarrow> throw TypeError
     | Some prevTouch \<Rightarrow>
         let prevDeltaMove = hypot m (firstX prevTouch - lastX prevTouch) (firstY prevTouch - lastY prevTouch) in
         if prevDeltaMove > GH_MOVE_THRESHOLD then
           let deltaAngle = \<bar>angle touch - angle prevTouch\<bar>;
               deltaAngle = \<bar>js_rem (deltaAngle + 180) 360 - 180\<bar>
           in thenx (clear_state (if deltaAngle > GH_ANGLE_THRESHOLD then GH_TWODRAG else GH_PINCH))
                stopTwoTouchTimeout
         else if \<not> twoTouchTimer g then startTwoTouchTimeout else ret ())"

definition touchMove :: "js_math \<Rightarrow> int \<Rightarrow> rat \<Rightarrow> rat \<Rightarrow> (gestures, unit) exec" where
  "touchMove m i x y = bindx (gets (find_touch i)) (\<lambda>r. case r of None \<Rightarrow> ret ()
   | Some t0 \<Rightarrow>
       let touch = moved_touch m x y t0; deltaX = x - firstX touch; deltaY = y - firstY touch in
       thenx (modify (\<lambda>g. g\<lparr>tracked := update_touch i (moved_touch m x y) (tracked g)\<rparr>))
      (bindx (gets id) (\<lambda>g.
         if hasDetectedGesture g then pushEvent GestureMove
         else if hypot m deltaX deltaY < GH_MOVE_THRESHOLD then ret ()
         else
           thenx (clear_state (js_or (js_or (js_or GH_ONETAP GH_TWOTAP) GH_THREETAP) GH_LONGPRESS))
          (thenx stopLongpressTimeout
          (thenx (if length (tracked g) \<noteq> 1 then clear_state GH_DRAG else ret ())
          (thenx (if length (tracked g) \<noteq> 2 then clear_state (js_or GH_TWODRAG GH_PINCH) else ret ())
          (thenx (if length (tracked g) = 2 then two_touch_move m i touch else ret ())
          (bindx (gets hasDetectedGesture) (\<lambda>d.
             if d then thenx (pushEvent GestureStart) (pushEvent GestureMove) else ret ())))))))))"

text \<open>The cleanup at the end of a gesture.\<close>

definition touch_cleanup :: "int \<Rightarrow> gestures \<Rightarrow> gestures" where
  "touch_cleanup i g =
     (let ign = remove1 i (ignored g @ map t_id (filter active (tracked g)));
          g = g\<lparr>ignored := ign, tracked := [], g_state := GH_NOGESTURE\<rparr>
      in if ign = [] then g\<lparr>g_state := GH_INITSTATE, waitingRelease := False\<rparr> else g)"

definition first_release :: "int \<Rightarrow> (gestures, unit) exec" where
  "first_release now = bindx (gets waitingRelease) (\<lambda>w. if w then ret () else
     thenx (modify (\<lambda>g. g\<lparr>releaseStart := now, waitingRelease := True\<rparr>))
    (bindx (gets (length \<circ> tracked)) (\<lambda>n.
       if n = 1 then clear_state (js_or GH_TWOTAP GH_THREETAP)
       else if n = 2 then clear_state (js_or GH_ONETAP GH_THREETAP) else ret ())))"

definition touchEnd :: "int \<Rightarrow> int \<Rightarrow> (gestures, unit) exec" where
  "touchEnd now i = bindx (gets id) (\<lambda>g.
     if i \<in> set (ignored g) then
       modify (\<lambda>g. let g = g\<lparr>ignored := remove1 i (ignored g)\<rparr> in
         if ignored g = [] \<and> tracked g = [] then g\<lparr>g_state := GH_INITSTATE, waitingRelease := False\<rparr> else g)
     else
       thenx (modify (\<lambda>g. if \<not> hasDetectedGesture g \<and> twoTouchTimer g
                then g\<lparr>twoTouchTimer := False, twoTouchPending := False, g_state := GH_NOGESTURE\<rparr> else g))
      (bindx (gets hasDetectedGesture) (\<lambda>d.
       thenx (if d then ret () else
                thenx (clear_state (js_or (js_or GH_DRAG GH_TWODRAG) GH_PINCH))
               (thenx (clear_state GH_LONGPRESS)
               (thenx stopLongpressTimeout (first_release now))))
      (bindx (gets waitingRelease) (\<lambda>w.
       let finish = bindx (gets hasDetectedGesture) (\<lambda>d.
             thenx (if d then pushEvent GestureEnd else ret ()) (modify (touch_cleanup i)))
       in if w then
            thenx (modify (\<lambda>g. if now - releaseStart g > GH_MULTITOUCH_TIMEOUT
                     then g\<lparr>g_state := GH_NOGESTURE\<rparr> else g))
           (thenx (modify (\<lambda>g. if list_ex (\<lambda>t. now - started t > GH_TAP_TIMEOUT) (tracked g)
                     then g\<lparr>g_state := GH_NOGESTURE\<rparr> else g))
           (bindx (gets (find_touch i)) (\<lambda>r. case r of None \<Rightarrow> throw TypeError
            | Some _ \<Rightarrow>
                thenx (modify (\<lambda>g. g\<lparr>tracked := update_touch i (\<lambda>t. t\<lparr>active := False\<rparr>) (tracked g)\<rparr>))
               (bindx (gets id) (\<lambda>g.
                  if hasDetectedGesture g then thenx (pushEvent GestureStart) finish
                  else if g_state g \<noteq> GH_NOGESTURE then ret () else finish)))))
          else finish)))))"

section \<open>Steps\<close>

text \<open>What can happen while the handler is attached: a new touch starts, one on the screen moves or ends
  (or is cancelled), a timer fires.\<close>

datatype touch_event = TStart int int rat rat | TMove int rat rat | TEnd int int | TLongpress | TTwoTouch

definition handle :: "js_math \<Rightarrow> touch_event \<Rightarrow> (gestures, unit) exec" where
  "handle m e = (case e of
     TStart now i x y \<Rightarrow> touchStart now i x y
   | TMove i x y \<Rightarrow> touchMove m i x y
   | TEnd now i \<Rightarrow> touchEnd now i
   | TLongpress \<Rightarrow> thenx (modify (\<lambda>g. g\<lparr>longpressTimer := False\<rparr>)) longpressTimeout
   | TTwoTouch \<Rightarrow> thenx (modify (\<lambda>g. g\<lparr>twoTouchPending := False\<rparr>)) (twoTouchTimeout m))"

text \<open>The browser's side: the identifiers of the touches on the screen. A touch starts once and moves and ends
  only while it is on the screen; a timer fires only while it is set.\<close>

fun enabled :: "touch_event \<Rightarrow> int set \<Rightarrow> gestures \<Rightarrow> bool" where
  "enabled (TStart now i x y) S g \<longleftrightarrow> i \<notin> S"
| "enabled (TMove i x y) S g \<longleftrightarrow> i \<in> S"
| "enabled (TEnd now i) S g \<longleftrightarrow> i \<in> S"
| "enabled TLongpress S g \<longleftrightarrow> longpressTimer g"
| "enabled TTwoTouch S g \<longleftrightarrow> twoTouchPending g"

fun on_screen :: "touch_event \<Rightarrow> int set \<Rightarrow> int set" where
  "on_screen (TStart now i x y) S = insert i S"
| "on_screen (TEnd now i) S = S - {i}"
| "on_screen _ S = S"

inductive touch_step :: "js_math \<Rightarrow> int set \<times> gestures \<Rightarrow> int set \<times> gestures \<Rightarrow> bool" for m where
  "enabled e S g \<Longrightarrow> handle m e g = (r, g') \<Longrightarrow> touch_step m (S, g) (on_screen e S, g')"

end
