(* ===== verification/Gesture_Safety.thy ===== *)
theory Gesture_Safety
  imports Gesture_Handler
begin

text \<open>
  The gesture handler under every sequence of touches a browser can report: no handler throws, and when
  no finger is left on the screen the handler is back in its initial state. Then the sequences of events
  in which it does not do what it means to.
\<close>

section \<open>The bit gesture_masks\<close>

definition states :: "int set" where
  "states = {127, 102, 96, 64, 32, 16, 8, 4, 2, 1, 0}"

lemma gesture_masks:
  "js_or (js_or GH_ONETAP GH_DRAG) GH_LONGPRESS = 25" "js_or (js_or GH_TWOTAP GH_TWODRAG) GH_PINCH = 98"
  "js_or (js_or (js_or GH_ONETAP GH_TWOTAP) GH_THREETAP) GH_LONGPRESS = 23"
  "js_or GH_TWODRAG GH_PINCH = 96" "js_or (js_or GH_DRAG GH_TWODRAG) GH_PINCH = 104"
  "js_or GH_TWOTAP GH_THREETAP = 6" "js_or GH_ONETAP GH_THREETAP = 5"
  "js_or (js_or GH_ONETAP GH_TWOTAP) GH_THREETAP = 7" "js_or 7 GH_LONGPRESS = 23"
  by code_simp+

lemma clear_one: "clear 23 127 = 104" "clear 96 104 = 8" "clear 104 127 = 23" "clear 16 23 = 7" "clear 6 7 = 1"
    "clear 23 8 = 8" "clear 96 8 = 8"
  by code_simp+

lemma clear_zero: "clear b 0 = 0"
  by (simp add: clear_def js_and_def toSigned32bit_nonneg)

lemma clear_two: "clear 25 127 = 102" "clear 23 102 = 96" "clear 8 96 = 96" "clear 32 96 = 64" "clear 64 96 = 32"
    "clear 23 96 = 96" "clear 23 2 = 0" "clear 104 102 = 6" "clear 16 6 = 6" "clear 5 6 = 2"
    "clear 104 96 = 0" "clear 104 2 = 2" "clear 16 2 = 2" "clear 5 2 = 2"
  by code_simp+

lemma clear_three: "clear 98 102 = 4" "clear 98 96 = 0" "clear 23 4 = 0" "clear 104 4 = 4" "clear 16 4 = 4"
  by code_simp+

lemmas clear_simps = clear_zero clear_one clear_two clear_three

lemma detected:
  assumes "g_state g \<in> states"
  shows "hasDetectedGesture g \<longleftrightarrow> g_state g \<in> {8, 16, 32, 64} \<or>
    g_state g \<in> {1, 2, 4} \<and> \<not> list_ex active (tracked g)"
proof -
  have "js_and 127 126 = 126" "js_and 102 101 = 100" "js_and 96 95 = 64"
    "js_and 64 63 = 0" "js_and 32 31 = 0" "js_and 16 15 = 0" "js_and 8 7 = 0" "js_and 4 3 = 0" "js_and 2 1 = 0"
    "js_and 1 0 = 0" "js_and 64 7 = 0" "js_and 32 7 = 0" "js_and 16 7 = 0" "js_and 4 7 = 4" "js_and 2 7 = 2"
    "js_and 1 7 = 1" by code_simp+
  then show ?thesis using assms unfolding hasDetectedGesture_def gesture_masks(8) states_def
    by (auto simp: GH_NOGESTURE_def)
qed

section \<open>The invariant\<close>

text \<open>Which gesture_masks and timers go with how many tracked touches.\<close>

definition shape :: "nat \<Rightarrow> bool \<Rightarrow> int \<Rightarrow> bool \<Rightarrow> bool \<Rightarrow> bool" where
  "shape n w s lt tp \<longleftrightarrow>
     (if n = 0 then \<not> lt \<and> \<not> tp
      else if n = 1 then \<not> w \<and> \<not> tp \<and> s \<in> {127, 0, 8, 16} \<and> (lt \<longrightarrow> s \<in> {127, 0})
      else if n = 2 then \<not> lt \<and> (if w then s \<in> {0, 2, 32, 64} else s \<in> {102, 0, 96, 32, 64}) \<and> (tp \<longrightarrow> s \<in> {96, 0})
      else \<not> lt \<and> s \<in> {4, 0, 32, 64} \<and> (tp \<longrightarrow> s = 0))"

definition active_ids :: "gestures \<Rightarrow> int set" where
  "active_ids g = t_id ` {t \<in> set (tracked g). active t}"

text \<open>\<open>S\<close> are the touches on the screen.\<close>

definition gh_inv :: "int set \<Rightarrow> gestures \<Rightarrow> bool" where
  "gh_inv S g \<longleftrightarrow> g_target g \<and> distinct (map t_id (tracked g)) \<and> distinct (ignored g) \<and>
     S = set (ignored g) \<union> active_ids g \<and> set (ignored g) \<inter> active_ids g = {} \<and>
     (\<not> waitingRelease g \<longrightarrow> list_all active (tracked g)) \<and>
     (tracked g \<noteq> [] \<longrightarrow> list_ex active (tracked g)) \<and>
     (tracked g = [] \<longrightarrow> (if ignored g = [] then g_state g = 127 \<and> \<not> waitingRelease g else g_state g = 0)) \<and>
     shape (length (tracked g)) (waitingRelease g) (g_state g) (longpressTimer g) (twoTouchPending g) \<and>
     (twoTouchPending g \<longrightarrow> twoTouchTimer g)"

lemma inv_out [simp]: "gh_inv S (g\<lparr>g_out := evs\<rparr>) = gh_inv S g"
  by (simp add: gh_inv_def active_ids_def)

lemma inv_states: "gh_inv S g \<Longrightarrow> g_state g \<in> states"
  by (auto simp: gh_inv_def shape_def states_def split: if_splits)

lemma pushEvent_ok:
  assumes "tracked g \<noteq> []" "g_target g" "g_state g \<in> {1, 2, 4, 8, 16, 32, 64}"
  shows "\<exists>ev. pushEvent ty g = (Inr (), g\<lparr>g_out := g_out g @ [ev]\<rparr>) \<and> ge_type ev = ty"
proof -
  obtain name where "stateToGesture (g_state g) = Inr name"
    using assms(3) by (auto simp: stateToGesture_def GH_defs)
  moreover have "\<exists>mag. magnitude ty g = Inr mag"
    using assms(1) by (simp add: magnitude_def getAverageDistance_def getAverageMovement_def Let_def)
  then obtain mag where "magnitude ty g = Inr mag" by blast
  ultimately show ?thesis using assms(1,2)
    by (auto simp: pushEvent_def lift_sum_def exec_simps getPosition_def Let_def)
qed

text \<open>The same for two events in a row.\<close>

lemma push_two:
  assumes "tracked g \<noteq> []" "g_target g" "g_state g \<in> {1, 2, 4, 8, 16, 32, 64}"
  shows "\<exists>evs. thenx (pushEvent ty) (pushEvent ty') g = (Inr (), g\<lparr>g_out := g_out g @ evs\<rparr>) \<and> map ge_type evs = [ty, ty']"
proof -
  obtain ev where e: "pushEvent ty g = (Inr (), g\<lparr>g_out := g_out g @ [ev]\<rparr>)" "ge_type ev = ty"
    using pushEvent_ok [OF assms] by blast
  obtain ev' where e': "pushEvent ty' (g\<lparr>g_out := g_out g @ [ev]\<rparr>)
      = (Inr (), g\<lparr>g_out := g_out g @ [ev], g_out := g_out (g\<lparr>g_out := g_out g @ [ev]\<rparr>) @ [ev']\<rparr>)" "ge_type ev' = ty'"
    using pushEvent_ok [of "g\<lparr>g_out := g_out g @ [ev]\<rparr>" ty'] assms by auto
  then show ?thesis using e by (intro exI [of _ "[ev, ev']"]) (simp add: exec_simps)
qed

section \<open>Each handler keeps it\<close>

lemma longpress_ok:
  assumes "gh_inv S g" "longpressTimer g"
  shows "\<exists>g'. handle m TLongpress g = (Inr (), g') \<and> gh_inv S g'"
proof -
  have s: "length (tracked g) = 1" "g_state g \<in> {127, 0}" "g_target g" "\<not> waitingRelease g" "\<not> twoTouchPending g"
    using assms by (auto simp: gh_inv_def shape_def split: if_splits)
  let ?g = "g\<lparr>longpressTimer := False\<rparr>"
  have "\<not> hasDetectedGesture ?g" using s(2) by (subst detected) (auto simp: states_def)
  moreover obtain ev where "pushEvent GestureStart (?g\<lparr>g_state := 16\<rparr>)
      = (Inr (), ?g\<lparr>g_state := 16, g_out := g_out (?g\<lparr>g_state := 16\<rparr>) @ [ev]\<rparr>)"
    using pushEvent_ok [of "?g\<lparr>g_state := 16\<rparr>"] s(1,3) by force
  ultimately have "handle m TLongpress g = (Inr (), ?g\<lparr>g_state := 16, g_out := g_out g @ [ev]\<rparr>)"
    by (simp add: handle_def longpressTimeout_def exec_simps GH_LONGPRESS_def)
  moreover have "gh_inv S (?g\<lparr>g_state := 16\<rparr>)" using assms s
    by (auto simp: gh_inv_def active_ids_def shape_def)
  ultimately show ?thesis by simp
qed

lemma twoTouch_ok:
  assumes "gh_inv S g" "twoTouchPending g"
  shows "\<exists>g'. handle m TTwoTouch g = (Inr (), g') \<and> gh_inv S g'"
proof -
  have "length (tracked g) \<noteq> 0" "length (tracked g) \<noteq> 1" and s: "g_target g" "\<not> longpressTimer g"
    using assms by (auto simp: gh_inv_def shape_def split: if_splits)
  then have s: "2 \<le> length (tracked g)" "g_target g" "\<not> longpressTimer g" by linarith+
  then have ne: "tracked g \<noteq> []" by auto
  let ?g = "\<lambda>v. g\<lparr>twoTouchPending := False, g_state := v\<rparr>"
  have p: "\<exists>evs. thenx (pushEvent GestureStart) (pushEvent GestureMove) (?g v) = (Inr (), (?g v)\<lparr>g_out := g_out g @ evs\<rparr>)"
    if "v \<in> {32, 64}" for v
    using push_two [of "?g v" GestureStart GestureMove] ne s(2) that by auto
  have inv: "gh_inv S (?g v)" if "v \<in> {32, 64}" for v
  proof -
    have "shape (length (tracked g)) (waitingRelease g) v False False" using s(1) that by (auto simp: shape_def)
    then show ?thesis using assms s ne unfolding gh_inv_def active_ids_def by simp
  qed
  let ?h = "g\<lparr>twoTouchPending := False\<rparr>"
  have "\<exists>mx my. getAverageMovement ?h = Inr (mx, my)" "\<exists>fx fy lx ly. getAverageDistance ?h = Inr ((fx, fy), (lx, ly))"
    using ne by (simp_all add: getAverageMovement_def getAverageDistance_def Let_def)
  then obtain mx my fx fy lx ly where avg: "getAverageMovement ?h = Inr (mx, my)"
    "getAverageDistance ?h = Inr ((fx, fy), (lx, ly))" by blast
  define d where "d = \<bar>hypot m fx fy - hypot m lx ly\<bar>"
  define v where "v = (if \<bar>my\<bar> < d \<and> \<bar>mx\<bar> < d then GH_PINCH else GH_TWODRAG)"
  have v: "v \<in> {32, 64}" "handle m TTwoTouch g = thenx (pushEvent GestureStart) (pushEvent GestureMove) (?g v)"
  proof -
    show "v \<in> {32, 64}" by (simp add: v_def GH_PINCH_def GH_TWODRAG_def)
    have "lift_sum getAverageMovement ?h = (Inr (mx, my), ?h)" "lift_sum getAverageDistance ?h = (Inr ((fx, fy), (lx, ly)), ?h)"
      by (simp_all add: lift_sum_def avg)
    then show "handle m TTwoTouch g = thenx (pushEvent GestureStart) (pushEvent GestureMove) (?g v)"
      unfolding handle_def twoTouchTimeout_def Let_def using ne
      by (simp add: bindx_gets thenx_modify bindx_ok v_def d_def)
  qed
  from p [OF v(1)] obtain evs where "handle m TTwoTouch g = (Inr (), (?g v)\<lparr>g_out := g_out g @ evs\<rparr>)"
    unfolding v(2) by blast
  then show ?thesis using inv [OF v(1)] by (intro exI [of _ "(?g v)\<lparr>g_out := g_out g @ evs\<rparr>"]) simp
qed

lemma start_ok:
  assumes "gh_inv S g" "i \<notin> S"
  shows "\<exists>g'. handle m (TStart now i x y) g = (Inr (), g') \<and> gh_inv (insert i S) g'"
proof -
  note st = inv_states [OF assms(1)]
  have fresh: "i \<notin> set (ignored g)" "i \<notin> active_ids g" using assms by (auto simp: gh_inv_def)
  have ign: "gh_inv (insert i S) (g\<lparr>ignored := ignored g @ [i]\<rparr>)" if "hasDetectedGesture g \<or> g_state g = 0"
    using assms(1) fresh that detected [OF st] unfolding gh_inv_def active_ids_def
    by (auto simp: shape_def split: if_splits)
  have up: "gh_inv (insert i S) (g\<lparr>g_state := 0, ignored := ignored g @ [i]\<rparr>)"
    if "tracked g \<noteq> [] \<or> waitingRelease g" "\<not> hasDetectedGesture g"
    using assms(1) fresh that detected [OF st] unfolding gh_inv_def active_ids_def
    by (auto simp: shape_def split: if_splits)
  define t where "t = \<lparr>t_id = i, started = now, active = True, firstX = x, firstY = y, lastX = x, lastY = y, angle = 0\<rparr>"
  let ?n = "length (tracked g)"
  have new: "gh_inv (insert i S) (g\<lparr>tracked := tracked g @ [t], longpressTimer := lt, g_state := s'\<rparr>)"
    if "\<not> waitingRelease g" "\<not> hasDetectedGesture g" "g_state g \<noteq> 0"
      "shape (Suc ?n) False s' lt (twoTouchPending g)" for lt s'
  proof -
    have a: "list_all active (tracked g)" using assms(1) that(1) by (simp add: gh_inv_def)
    then have "active_ids g = t_id ` set (tracked g)" by (auto simp: active_ids_def list_all_iff)
    then have n: "i \<notin> t_id ` set (tracked g)" using fresh by simp
    have t: "t_id t = i" "active t" by (simp_all add: t_def)
    let ?g = "g\<lparr>tracked := tracked g @ [t], longpressTimer := lt, g_state := s'\<rparr>"
    have "active_ids ?g = insert i (active_ids g)" using t by (auto simp: active_ids_def)
    then show ?thesis using assms(1) fresh that a n t unfolding gh_inv_def by auto
  qed
  consider "hasDetectedGesture g \<or> g_state g = 0"
    | "\<not> (hasDetectedGesture g \<or> g_state g = 0)"
      "length (tracked g) > 0 \<and> now - started (tracked g ! 0) > GH_MULTITOUCH_TIMEOUT \<or> waitingRelease g"
    | "\<not> (hasDetectedGesture g \<or> g_state g = 0)"
      "\<not> (length (tracked g) > 0 \<and> now - started (tracked g ! 0) > GH_MULTITOUCH_TIMEOUT)" "\<not> waitingRelease g" by blast
  then show ?thesis
  proof cases
    case 1
    then show ?thesis using ign by (simp add: handle_def touchStart_def exec_simps Let_def GH_NOGESTURE_def)
  next
    case 2
    then show ?thesis using up by (auto simp: handle_def touchStart_def exec_simps Let_def GH_NOGESTURE_def)
  next
    case 3
    then have sh: "shape ?n False (g_state g) (longpressTimer g) (twoTouchPending g)"
      using assms(1) by (simp add: gh_inv_def)
    have nd: "\<not> hasDetectedGesture g" "g_state g \<noteq> 0" using 3 by simp_all
    have "handle m (TStart now i x y) g = thenx (modify (\<lambda>g. g\<lparr>tracked := tracked g @ [t]\<rparr>))
         (bindx (gets (length \<circ> tracked)) (\<lambda>n.
            if n = 1 then startLongpressTimeout
            else if n = 2 then thenx (clear_state 25) stopLongpressTimeout
            else if n = 3 then clear_state 98 else modify (\<lambda>g. g\<lparr>g_state := 0\<rparr>))) g"
      unfolding handle_def touchStart_def Let_def gesture_masks GH_NOGESTURE_def t_def using 3
      by (cases "tracked g = []") (simp_all add: bindx_gets)
    then have h: "handle m (TStart now i x y) g = (Inr (), g\<lparr>tracked := tracked g @ [t],
        longpressTimer := (if ?n = 0 then True else if ?n = 1 then False else longpressTimer g),
        g_state := (if ?n = 0 then g_state g else if ?n = 1 then clear 25 (g_state g)
          else if ?n = 2 then clear 98 (g_state g) else 0)\<rparr>)"
      by (simp add: exec_simps startLongpressTimeout_def stopLongpressTimeout_def clear_state_def)
    have "shape (Suc ?n) False
        (if ?n = 0 then g_state g else if ?n = 1 then clear 25 (g_state g) else if ?n = 2 then clear 98 (g_state g) else 0)
        (if ?n = 0 then True else if ?n = 1 then False else longpressTimer g) (twoTouchPending g)"
    proof -
      have "?n = 0 \<Longrightarrow> g_state g = 127" using assms(1) nd(2) by (auto simp: gh_inv_def split: if_splits)
      moreover have "?n = 1 \<Longrightarrow> g_state g = 127" using sh nd detected [OF st] by (auto simp: shape_def)
      moreover have "?n = 2 \<Longrightarrow> g_state g = 102 \<or> g_state g = 96" using sh nd detected [OF st] by (auto simp: shape_def)
      ultimately show ?thesis using sh by (auto simp: shape_def clear_simps)
    qed
    from new [OF 3(3) nd this] show ?thesis unfolding h by blast
  qed
qed

section \<open>Moving and ending\<close>

lemma update_touch_ids: "(\<And>t. t_id (f t) = t_id t) \<Longrightarrow> map t_id (update_touch i f ts) = map t_id ts"
  by (induction ts) auto

lemma length_update_touch [simp]: "length (update_touch i f ts) = length ts"
  by (induction ts) simp_all

lemma update_touch_Nil [simp]: "update_touch i f ts = [] \<longleftrightarrow> ts = []"
  by (cases ts) auto

lemma set_update_touch:
  "distinct (map t_id ts) \<Longrightarrow> set (update_touch i f ts) = (\<lambda>t. if t_id t = i then f t else t) ` set ts"
proof (induction ts)
  case (Cons t ts)
  have "t' \<in> set ts \<Longrightarrow> t_id t = i \<Longrightarrow> t_id t' \<noteq> i" for t' using Cons.prems by (auto intro: rev_image_eqI)
  with Cons show ?case by (auto simp: image_iff)
qed simp

lemma moved_touch_fields [simp]: "t_id (moved_touch m x y t) = t_id t" "active (moved_touch m x y t) = active t"
  by (simp_all add: moved_touch_def Let_def)

lemma active_ids_update:
  assumes "\<And>t. t_id (f t) = t_id t" "\<And>t. active (f t) = active t"
  shows "active_ids (g\<lparr>tracked := update_touch i f (tracked g)\<rparr>) = active_ids g"
    "list_all active (update_touch i f (tracked g)) = list_all active (tracked g)"
    "list_ex active (update_touch i f (tracked g)) = list_ex active (tracked g)"
proof -
  let ?p = "\<lambda>t. (t_id t, active t)"
  have "map ?p (update_touch i f ts) = map ?p ts" for ts
    using assms by (induction ts) auto
  then have e: "map ?p (update_touch i f (tracked g)) = map ?p (tracked g)" .
  have a: "active_ids v = fst ` (set (map ?p (tracked v)) \<inter> {p. snd p})" for v by (force simp: active_ids_def)
  show "active_ids (g\<lparr>tracked := update_touch i f (tracked g)\<rparr>) = active_ids g" unfolding a using e by simp
  have l: "list_all active ts = list_all snd (map ?p ts)" "list_ex active ts = list_ex snd (map ?p ts)" for ts
    by (simp_all add: list.pred_map comp_def list_ex_iff)
  show "list_all active (update_touch i f (tracked g)) = list_all active (tracked g)" unfolding l e ..
  show "list_ex active (update_touch i f (tracked g)) = list_ex active (tracked g)" unfolding l e ..
qed

text \<open>What a move beyond the threshold leaves: the mask for the number of touches, and the timers.\<close>

lemma move_ok:
  assumes "gh_inv S g"
  shows "\<exists>g'. handle m (TMove i x y) g = (Inr (), g') \<and> gh_inv S g'"
proof (cases "find_touch i g")
  case None
  then show ?thesis using assms by (simp add: handle_def touchMove_def exec_simps)
next
  case (Some t0)
  let ?f = "moved_touch m x y" and ?n = "length (tracked g)"
  define touch where "touch = moved_touch m x y t0"
  define g1 where "g1 = g\<lparr>tracked := update_touch i ?f (tracked g)\<rparr>"
  have inv1: "gh_inv S g1" using assms active_ids_update [where f = ?f and i = i and g = g] update_touch_ids [of ?f i "tracked g"]
    unfolding gh_inv_def g1_def by simp
  have n: "length (tracked g1) = ?n" "tracked g1 \<noteq> []" "g_target g1"
    using Some inv1 by (auto simp: g1_def find_touch_def gh_inv_def)
  note st = inv_states [OF inv1]
  have det: "g_state v \<in> {1, 2, 4, 8, 16, 32, 64}" if "hasDetectedGesture v" "g_state v \<in> states" for v
    using that detected [OF that(2)] by auto
  define rest where "rest = bindx (gets hasDetectedGesture) (\<lambda>d.
      if d then thenx (pushEvent GestureStart) (pushEvent GestureMove) else ret ())"
  have rest: "\<exists>g'. rest v = (Inr (), g') \<and> gh_inv S g'" if "gh_inv S v" "tracked v \<noteq> []" for v
  proof (cases "hasDetectedGesture v")
    case True
    have "g_target v" using that(1) by (simp add: gh_inv_def)
    from push_two [OF that(2) this det [OF True inv_states [OF that(1)]]] obtain evs where
      "thenx (pushEvent GestureStart) (pushEvent GestureMove) v = (Inr (), v\<lparr>g_out := g_out v @ evs\<rparr>)" by blast
    with True that(1) show ?thesis by (simp add: rest_def bindx_gets)
  next
    case False
    with that(1) show ?thesis by (simp add: rest_def bindx_gets ret_def)
  qed
  have eq: "handle m (TMove i x y) g =
     (if hasDetectedGesture g1 then pushEvent GestureMove g1
      else if hypot m (x - firstX touch) (y - firstY touch) < GH_MOVE_THRESHOLD then (Inr (), g1)
      else thenx (clear_state 23) (thenx stopLongpressTimeout
          (thenx (if ?n \<noteq> 1 then clear_state 8 else ret ()) (thenx (if ?n \<noteq> 2 then clear_state 96 else ret ())
          (thenx (if ?n = 2 then two_touch_move m i touch else ret ()) rest)))) g1)"
    unfolding handle_def touchMove_def rest_def touch_def Let_def gesture_masks GH_DRAG_def
    using Some n(1) by (simp add: bindx_gets thenx_modify g1_def [symmetric]) (simp add: ret_def)
  show ?thesis
  proof (cases "hasDetectedGesture g1 \<or> hypot m (x - firstX touch) (y - firstY touch) < GH_MOVE_THRESHOLD")
    case True
    show ?thesis
    proof (cases "hasDetectedGesture g1")
      case True
      obtain ev where "pushEvent GestureMove g1 = (Inr (), g1\<lparr>g_out := g_out g1 @ [ev]\<rparr>)"
        using pushEvent_ok [OF n(2,3) det [OF True st]] by blast
      with True inv1 show ?thesis unfolding eq by simp
    next
      case False
      with \<open>hasDetectedGesture g1 \<or> _\<close> inv1 show ?thesis unfolding eq by simp
    qed
  next
    case False
    have nd: "\<not> hasDetectedGesture g1" using False by simp
    define s2 where "s2 = (if ?n \<noteq> 2 then clear 96 (if ?n \<noteq> 1 then clear 8 (clear 23 (g_state g1)) else clear 23 (g_state g1))
        else clear 8 (clear 23 (g_state g1)))"
    define g2 where "g2 = g1\<lparr>longpressTimer := False, g_state := s2\<rparr>"
    have run: "handle m (TMove i x y) g = thenx (if ?n = 2 then two_touch_move m i touch else ret ()) rest g2"
      unfolding eq if_not_P [OF nd] if_not_P [OF False [unfolded de_Morgan_disj, THEN conjunct2]]
      by (simp add: clear_state_def stopLongpressTimeout_def thenx_modify thenx_ok ret_def g2_def s2_def)
    have sh: "shape ?n (waitingRelease g1) (g_state g1) (longpressTimer g1) (twoTouchPending g1)"
      using inv1 n(1) by (simp add: gh_inv_def)
    have np: "?n \<noteq> 0" using n by auto
    have s2: "?n = 1 \<Longrightarrow> s2 = 8 \<or> s2 = 0" "?n = 2 \<Longrightarrow> s2 = 0 \<or> s2 = 96 \<and> \<not> waitingRelease g1" "?n \<noteq> 0 \<Longrightarrow> ?n \<noteq> 1 \<Longrightarrow> ?n \<noteq> 2 \<Longrightarrow> s2 = 0"
      using sh nd detected [OF st] by (auto simp: s2_def shape_def clear_simps clear_zero split: if_splits)
    have keep: "gh_inv S (g2\<lparr>g_state := s3, twoTouchTimer := tt, twoTouchPending := tp\<rparr>)"
      if "shape ?n (waitingRelease g1) s3 False tp" "tp \<longrightarrow> tt" for s3 tt tp
      using inv1 that n np unfolding gh_inv_def g2_def active_ids_def by simp
    have inv2: "gh_inv S g2"
    proof -
      have "shape ?n (waitingRelease g1) s2 False (twoTouchPending g1)"
        using s2 sh np by (auto simp: shape_def)
      then have "gh_inv S (g2\<lparr>g_state := s2, twoTouchTimer := twoTouchTimer g2, twoTouchPending := twoTouchPending g2\<rparr>)"
        using inv1 by (intro keep) (auto simp: g2_def gh_inv_def)
      then show ?thesis by (simp add: g2_def)
    qed
    have ne2: "tracked g2 \<noteq> []" using n by (simp add: g2_def)
    show ?thesis
    proof (cases "?n = 2")
      case False
      then show ?thesis unfolding run using rest [OF inv2 ne2] by (simp add: thenx_ok ret_def)
    next
      case True
      have other: "find (\<lambda>t. t_id t \<noteq> i) (tracked g2) \<noteq> None"
      proof
        assume "find (\<lambda>t. t_id t \<noteq> i) (tracked g2) = None"
        then have "\<forall>t \<in> set (tracked g1). t_id t = i" by (simp add: find_None_iff g2_def)
        then have "set (map t_id (tracked g1)) \<subseteq> {i}" by auto
        then have "card (set (map t_id (tracked g1))) \<le> 1" using card_mono [of "{i}"] by fastforce
        moreover have "card (set (map t_id (tracked g1))) = 2"
          using inv1 True n(1) distinct_card [of "map t_id (tracked g1)"] by (simp add: gh_inv_def)
        ultimately show False by simp
      qed
      have "\<exists>g3. two_touch_move m i touch g2 = (Inr (), g3) \<and> gh_inv S g3 \<and> tracked g3 \<noteq> []"
      proof -
        obtain p where p: "find (\<lambda>t. t_id t \<noteq> i) (tracked g2) = Some p" using other by blast
        have a: "gh_inv S (g2\<lparr>g_state := clear b s2, twoTouchTimer := False, twoTouchPending := False\<rparr>)"
          if "b = 32 \<or> b = 64" for b
          using s2(2) [OF True] that True by (intro keep) (auto simp: shape_def clear_simps)
        have b: "gh_inv S (g2\<lparr>g_state := s2, twoTouchTimer := True, twoTouchPending := True\<rparr>)"
          using s2(2) [OF True] True by (intro keep) (auto simp: shape_def)
        have g2: "g2\<lparr>g_state := s2\<rparr> = g2" "g_state g2 = s2" by (simp_all add: g2_def)
        show ?thesis using p a b inv2 ne2 g2
          by (auto simp: two_touch_move_def bindx_gets Let_def clear_state_def stopTwoTouchTimeout_def
              startTwoTouchTimeout_def exec_simps GH_TWODRAG_def GH_PINCH_def)
      qed
      then show ?thesis unfolding run using True rest by (auto simp: thenx_ok)
    qed
  qed
qed

definition finish :: "int \<Rightarrow> (gestures, unit) exec" where
  "finish i = bindx (gets hasDetectedGesture) (\<lambda>d.
     thenx (if d then pushEvent GestureEnd else ret ()) (modify (touch_cleanup i)))"

text \<open>What holds when the touches are cleaned up: only the queue of touches to ignore remains of them.\<close>

definition ending :: "int set \<Rightarrow> int \<Rightarrow> gestures \<Rightarrow> bool" where
  "ending S i v \<longleftrightarrow> g_target v \<and> distinct (map t_id (tracked v)) \<and> distinct (ignored v) \<and>
     set (ignored v) \<union> (active_ids v - {i}) = S - {i} \<and> i \<notin> set (ignored v) \<and>
     set (ignored v) \<inter> active_ids v = {} \<and> \<not> longpressTimer v \<and> \<not> twoTouchPending v"

lemma ending_out [simp]: "ending S i (v\<lparr>g_out := evs\<rparr>) = ending S i v"
  by (simp add: ending_def active_ids_def)

lemma cleanup_inv:
  assumes "ending S i v"
  shows "gh_inv (S - {i}) (touch_cleanup i v)"
proof -
  let ?act = "map t_id (filter active (tracked v))"
  let ?ign = "remove1 i (ignored v @ ?act)"
  have a: "set ?act = active_ids v" by (auto simp: active_ids_def)
  have "distinct ?act" using assms by (simp add: ending_def distinct_map_filter)
  then have d: "distinct (ignored v @ ?act)" using assms a by (simp add: ending_def)
  then have "set ?ign = set (ignored v @ ?act) - {i}" by (rule set_remove1_eq)
  also have "\<dots> = set (ignored v) \<union> (active_ids v - {i})" using assms a by (auto simp: ending_def)
  also have "\<dots> = S - {i}" using assms by (simp add: ending_def)
  finally have s: "set ?ign = S - {i}" .
  have "distinct ?ign" using d by (rule distinct_remove1)
  then obtain ign where ign: "?ign = ign" "set ign = S - {i}" "distinct ign" using s by blast
  then have "ign = [] \<Longrightarrow> S - {i} = {}" by simp
  with ign assms show ?thesis unfolding gh_inv_def touch_cleanup_def Let_def ign(1)
    by (simp add: active_ids_def shape_def ending_def GH_INITSTATE_def GH_NOGESTURE_def)
qed

lemma finish_ok:
  assumes "ending S i v" "tracked v \<noteq> []" "g_state v \<in> states"
  shows "\<exists>g'. finish i v = (Inr (), g') \<and> gh_inv (S - {i}) g'"
proof (cases "hasDetectedGesture v")
  case True
  then have "g_state v \<in> {1, 2, 4, 8, 16, 32, 64}" using detected [OF assms(3)] by auto
  moreover have "g_target v" using assms(1) by (simp add: ending_def)
  ultimately obtain ev where "pushEvent GestureEnd v = (Inr (), v\<lparr>g_out := g_out v @ [ev]\<rparr>)"
    using pushEvent_ok [OF assms(2)] by blast
  moreover have "gh_inv (S - {i}) (touch_cleanup i (v\<lparr>g_out := g_out v @ [ev]\<rparr>))"
    using assms(1) by (intro cleanup_inv) simp
  ultimately show ?thesis using True by (simp add: finish_def exec_simps)
next
  case False
  then show ?thesis using cleanup_inv [OF assms(1)] by (simp add: finish_def exec_simps)
qed

definition release :: "int \<Rightarrow> int \<Rightarrow> (gestures, unit) exec" where
  "release now i =
     thenx (modify (\<lambda>g. if now - releaseStart g > GH_MULTITOUCH_TIMEOUT then g\<lparr>g_state := GH_NOGESTURE\<rparr> else g))
    (thenx (modify (\<lambda>g. if list_ex (\<lambda>t. now - started t > GH_TAP_TIMEOUT) (tracked g)
              then g\<lparr>g_state := GH_NOGESTURE\<rparr> else g))
    (bindx (gets (find_touch i)) (\<lambda>r. case r of None \<Rightarrow> throw TypeError
     | Some _ \<Rightarrow>
         thenx (modify (\<lambda>g. g\<lparr>tracked := update_touch i (\<lambda>t. t\<lparr>active := False\<rparr>) (tracked g)\<rparr>))
        (bindx (gets id) (\<lambda>g.
           if hasDetectedGesture g then thenx (pushEvent GestureStart) (finish i)
           else if g_state g \<noteq> GH_NOGESTURE then ret () else finish i)))))"

lemma gesture_release_ok:
  assumes "ending S i v" "tracked v \<noteq> []" "i \<in> active_ids v" "waitingRelease v"
    and "let n = length (tracked v) in if n = 1 then g_state v \<in> {0, 1} else if n = 2 then g_state v \<in> {0, 2, 32, 64}
      else g_state v \<in> {0, 4, 32, 64}"
  shows "\<exists>g'. release now i v = (Inr (), g') \<and> gh_inv (S - {i}) g'"
proof -
  define s where "s = (if list_ex (\<lambda>t. now - started t > GH_TAP_TIMEOUT) (tracked v) \<or>
      now - releaseStart v > GH_MULTITOUCH_TIMEOUT then 0 else g_state v)"
  let ?f = "\<lambda>t. t\<lparr>active := False\<rparr>"
  define u where "u = v\<lparr>g_state := s, tracked := update_touch i ?f (tracked v)\<rparr>"
  have dist: "distinct (map t_id (tracked v))" using assms(1) by (simp add: ending_def)
  have set: "set (tracked u) = (\<lambda>t. if t_id t = i then ?f t else t) ` set (tracked v)"
    using set_update_touch [OF dist] by (simp add: u_def)
  have "{t \<in> set (tracked u). active t} = {t \<in> set (tracked v). active t \<and> t_id t \<noteq> i}"
    unfolding set by (auto simp: image_iff)
  then have act: "active_ids u = active_ids v - {i}" unfolding active_ids_def by blast
  have same: "ignored u = ignored v" "g_target u = g_target v" "longpressTimer u = longpressTimer v"
    "twoTouchPending u = twoTouchPending v" "map t_id (tracked u) = map t_id (tracked v)"
    using update_touch_ids [of ?f i "tracked v"] by (simp_all add: u_def)
  have E: "g_target v" "distinct (map t_id (tracked v))" "distinct (ignored v)" "i \<notin> set (ignored v)"
    "set (ignored v) \<union> (active_ids v - {i}) = S - {i}" "set (ignored v) \<inter> active_ids v = {}"
    "\<not> longpressTimer v" "\<not> twoTouchPending v" using assms(1) unfolding ending_def by blast+
  have "active_ids v - {i} - {i} = active_ids v - {i}" "set (ignored v) \<inter> (active_ids v - {i}) = {}"
    using E(6) by blast+
  with E have e: "ending S i u" unfolding ending_def act same by (simp only: simp_thms)
  have s: "let n = length (tracked u) in if n = 1 then s \<in> {0, 1} else if n = 2 then s \<in> {0, 2, 32, 64}
      else s \<in> {0, 4, 32, 64}" using assms(5) by (auto simp: s_def u_def Let_def)
  have u: "tracked u \<noteq> []" "g_target u" "g_state u = s" using assms(1,2) by (simp_all add: u_def ending_def)
  then have st: "g_state u \<in> states" using s by (auto simp: states_def Let_def split: if_splits)
  have "find_touch i v \<noteq> None" using assms(3) by (auto simp: find_touch_def find_None_iff active_ids_def)
  then obtain t where t: "find_touch i v = Some t" by blast
  have eq: "release now i v = (if hasDetectedGesture u then thenx (pushEvent GestureStart) (finish i) u
      else if s \<noteq> 0 then (Inr (), u) else finish i u)"
  proof -
    let ?m = "\<lambda>g. if now - releaseStart g > GH_MULTITOUCH_TIMEOUT then g\<lparr>g_state := GH_NOGESTURE\<rparr> else g"
    let ?l = "\<lambda>g. if list_ex (\<lambda>t. now - started t > GH_TAP_TIMEOUT) (tracked g) then g\<lparr>g_state := GH_NOGESTURE\<rparr> else g"
    have m: "?l (?m v) = v\<lparr>g_state := s\<rparr>" by (cases v) (simp add: s_def GH_NOGESTURE_def)
    have "find_touch i (v\<lparr>g_state := s\<rparr>) = Some t" using t by (simp add: find_touch_def)
    then have "release now i v = bindx (gets id) (\<lambda>g.
           if hasDetectedGesture g then thenx (pushEvent GestureStart) (finish i)
           else if g_state g \<noteq> GH_NOGESTURE then ret () else finish i) u"
      unfolding release_def thenx_modify m bindx_gets by (simp add: thenx_modify u_def)
    then show ?thesis using u(3) by (simp add: bindx_gets GH_NOGESTURE_def ret_def)
  qed
  have fin: "\<exists>g'. finish i (u\<lparr>g_out := evs\<rparr>) = (Inr (), g') \<and> gh_inv (S - {i}) g'" for evs
    using e u st by (intro finish_ok) simp_all
  consider "hasDetectedGesture u" | "\<not> hasDetectedGesture u" "s = 0" | "\<not> hasDetectedGesture u" "s \<noteq> 0" by blast
  then show ?thesis
  proof cases
    case 1
    then have "g_state u \<in> {1, 2, 4, 8, 16, 32, 64}" using detected [OF st] by auto
    from pushEvent_ok [OF u(1,2) this] obtain ev where
      "pushEvent GestureStart u = (Inr (), u\<lparr>g_out := g_out u @ [ev]\<rparr>)" by blast
    with 1 fin show ?thesis unfolding eq by (simp add: thenx_ok)
  next
    case 2
    have "u\<lparr>g_out := g_out u\<rparr> = u" by simp
    with 2 fin [of "g_out u"] show ?thesis unfolding eq by simp
  next
    case 3
    have "length (tracked u) \<noteq> 1"
    proof
      assume l: "length (tracked u) = 1"
      then have "s = 1" using s 3 by (simp add: Let_def)
      moreover obtain w where w: "tracked u = [w]" using l by (cases "tracked u") auto
      moreover obtain x where x: "x \<in> set (tracked v)" "t_id x = i" using assms(3) by (auto simp: active_ids_def)
      then have "?f x \<in> set (tracked u)" unfolding set by (intro image_eqI [of _ _ x]) simp_all
      then have "w = ?f x" using w by simp
      then have "t_id w = i" "\<not> active w" using x by simp_all
      ultimately have "hasDetectedGesture u" using detected [OF st] u(3) w by simp
      then show False using 3 by simp
    qed
    then have "shape (length (tracked u)) True s False False"
      using s u(1) 3 detected [OF st] u(3) by (auto simp: shape_def Let_def)
    moreover have "waitingRelease u" using assms(4) by (simp add: u_def)
    moreover have "list_ex active (tracked u)"
      using s 3 detected [OF st] u(3) by (auto simp: Let_def split: if_splits)
    ultimately have "gh_inv (S - {i}) u"
      using e u act unfolding ending_def gh_inv_def by auto
    with 3 show ?thesis unfolding eq by simp
  qed
qed

lemma end_ok:
  assumes "gh_inv S g" "i \<in> S"
  shows "\<exists>g'. handle m (TEnd now i) g = (Inr (), g') \<and> gh_inv (S - {i}) g'"
proof (cases "i \<in> set (ignored g)")
  case True
  let ?g = "g\<lparr>ignored := remove1 i (ignored g)\<rparr>"
  let ?r = "if ignored ?g = [] \<and> tracked ?g = [] then ?g\<lparr>g_state := GH_INITSTATE, waitingRelease := False\<rparr> else ?g"
  have act: "active_ids ?g = active_ids g" "i \<notin> active_ids g" using True assms(1) by (auto simp: active_ids_def gh_inv_def)
  have d: "distinct (ignored ?g)" "set (ignored ?g) = set (ignored g) - {i}"
    using assms(1) by (simp_all add: gh_inv_def set_remove1_eq)
  have "gh_inv (S - {i}) ?r"
  proof (cases "ignored ?g = [] \<and> tracked ?g = []")
    case True
    then have "set (ignored g) - {i} = {}" using d(2) by simp
    with True assms(1) act show ?thesis
      by (auto simp: gh_inv_def active_ids_def GH_INITSTATE_def shape_def)
  next
    case False
    have "ignored g \<noteq> []" using \<open>i \<in> set (ignored g)\<close> by auto
    with False assms(1) act d show ?thesis unfolding gh_inv_def by auto
  qed
  moreover have "handle m (TEnd now i) g = (Inr (), ?r)"
    using True by (simp add: handle_def touchEnd_def bindx_gets modify_def Let_def)
  ultimately show ?thesis by blast
next
  case False
  note st = inv_states [OF assms(1)]
  have i: "i \<in> active_ids g" using assms False by (auto simp: gh_inv_def)
  then have ne: "tracked g \<noteq> []" and ex: "list_ex active (tracked g)" by (auto simp: active_ids_def list_ex_iff)
  have sh: "shape (length (tracked g)) (waitingRelease g) (g_state g) (longpressTimer g) (twoTouchPending g)"
    using assms(1) by (simp add: gh_inv_def)
  have g: "g_target g" "distinct (map t_id (tracked g))" "distinct (ignored g)" "S = set (ignored g) \<union> active_ids g"
    "set (ignored g) \<inter> active_ids g = {}" "twoTouchPending g \<longrightarrow> twoTouchTimer g"
    using assms(1) unfolding gh_inv_def by blast+
  define g1 where "g1 = (if \<not> hasDetectedGesture g \<and> twoTouchTimer g
      then g\<lparr>twoTouchTimer := False, twoTouchPending := False, g_state := GH_NOGESTURE\<rparr> else g)"
  have ending: "ending S i (g\<lparr>twoTouchTimer := tt, twoTouchPending := False, longpressTimer := False, g_state := s,
      waitingRelease := w, releaseStart := r\<rparr>)" for tt s w r
    using g False unfolding ending_def active_ids_def by auto
  have acts: "active_ids (g\<lparr>twoTouchTimer := tt, twoTouchPending := tp, longpressTimer := lt, g_state := s,
      waitingRelease := w, releaseStart := r\<rparr>) = active_ids g" for tt tp lt s w r by (simp add: active_ids_def)
  have split: "handle m (TEnd now i) g = (case
      (if hasDetectedGesture g1 then (Inr (), g1) else thenx (clear_state 104) (thenx (clear_state 16)
          (thenx stopLongpressTimeout (first_release now))) g1) of
      (Inl e, v) \<Rightarrow> (Inl e, v) | (Inr _, v) \<Rightarrow> if waitingRelease v then release now i v else finish i v)"
    unfolding handle_def touchEnd_def Let_def finish_def [symmetric] release_def [symmetric] gesture_masks GH_LONGPRESS_def
    using False by (simp add: bindx_gets thenx_modify g1_def [symmetric])
      (simp add: thenx_def bindx_def ret_def gets_def split: sum.split prod.split)
  show ?thesis
  proof (cases "hasDetectedGesture g")
    case True
    then have s: "g_state g \<in> {8, 16, 32, 64}" using detected [OF st] ex by auto
    then have lt: "\<not> longpressTimer g" "\<not> twoTouchPending g" using sh ne by (auto simp: shape_def split: if_splits)
    have g1: "g1 = g" using True by (simp add: g1_def)
    have e: "ending S i g" using lt
      ending [where tt = "twoTouchTimer g" and s = "g_state g" and w = "waitingRelease g" and r = "releaseStart g"]
      by (simp add: ending_def active_ids_def)
    have eq: "handle m (TEnd now i) g = (if waitingRelease g then release now i g else finish i g)"
      using True unfolding split g1 by simp
    show ?thesis
    proof (cases "waitingRelease g")
      case True
      have "let n = length (tracked g) in if n = 1 then g_state g \<in> {0, 1}
        else if n = 2 then g_state g \<in> {0, 2, 32, 64} else g_state g \<in> {0, 4, 32, 64}"
        using sh ne True s by (auto simp: shape_def Let_def split: if_splits)
      from gesture_release_ok [OF e ne i True this] True show ?thesis unfolding eq by simp
    next
      case False
      then show ?thesis using finish_ok [OF e ne st] unfolding eq by simp
    qed
  next
    case nd: False
    define s1 where "s1 = g_state g1"
    have s1: "s1 = g_state g \<or> s1 = 0" by (simp add: s1_def g1_def GH_NOGESTURE_def)
    have tp: "\<not> twoTouchPending g1" using g(6) nd by (auto simp: g1_def)
    have f1: "tracked g1 = tracked g" "waitingRelease g1 = waitingRelease g" "releaseStart g1 = releaseStart g"
      by (simp_all add: g1_def)
    have nd1: "\<not> hasDetectedGesture g1"
      using nd by (simp add: g1_def) (simp add: hasDetectedGesture_def)
    define s2 where "s2 = (let c = clear 16 (clear 104 s1) in if waitingRelease g then c
        else if length (tracked g) = 1 then clear 6 c else if length (tracked g) = 2 then clear 5 c else c)"
    define v where "v = g1\<lparr>longpressTimer := False, g_state := s2, waitingRelease := True,
        releaseStart := (if waitingRelease g then releaseStart g else now)\<rparr>"
    have v: "thenx (clear_state 104) (thenx (clear_state 16)
          (thenx stopLongpressTimeout (first_release now))) g1 = (Inr (), v)"
      unfolding first_release_def gesture_masks v_def s2_def Let_def
      by (simp add: exec_simps clear_state_def stopLongpressTimeout_def f1 s1_def)
    have "v = g\<lparr>twoTouchTimer := twoTouchTimer g1, twoTouchPending := False, longpressTimer := False, g_state := s2,
        waitingRelease := True, releaseStart := releaseStart v\<rparr>"
      using tp by (auto simp: v_def g1_def)
    then have e: "ending S i v" "active_ids v = active_ids g" using ending acts by metis+
    have l: "tracked v = tracked g" "waitingRelease v" "g_state v = s2" by (simp_all add: v_def f1)
    have s2: "let n = length (tracked g) in if n = 1 then s2 \<in> {0, 1} else if n = 2 then s2 \<in> {0, 2} else s2 \<in> {0, 4}"
    proof -
      have "g_state g \<notin> {8, 16, 32, 64}" using nd detected [OF st] by simp
      then have n: "length (tracked g) = 1 \<longrightarrow> \<not> waitingRelease g \<and> g_state g \<in> {127, 0}"
        "length (tracked g) = 2 \<longrightarrow> g_state g \<in> (if waitingRelease g then {2, 0} else {102, 96, 0})"
        "length (tracked g) \<noteq> 1 \<longrightarrow> length (tracked g) \<noteq> 2 \<longrightarrow> g_state g \<in> {4, 0}"
        using sh ne by (auto simp: shape_def)
      consider "length (tracked g) = 1" "\<not> waitingRelease g" "s1 \<in> {127, 0}"
        | "length (tracked g) = 2" "\<not> waitingRelease g" "s1 \<in> {102, 96, 0}"
        | "length (tracked g) = 2" "waitingRelease g" "s1 \<in> {2, 0}"
        | "length (tracked g) \<noteq> 1" "length (tracked g) \<noteq> 2" "s1 \<in> {4, 0}"
        using n s1 by (metis insertCI insertI1)
      then show ?thesis
      proof cases
        case 4
        then show ?thesis by (auto simp: s2_def Let_def clear_simps)
      qed (auto simp: s2_def Let_def clear_simps)
    qed
    have "let n = length (tracked v) in if n = 1 then g_state v \<in> {0, 1}
        else if n = 2 then g_state v \<in> {0, 2, 32, 64} else g_state v \<in> {0, 4, 32, 64}"
      using s2 unfolding l Let_def by (auto split: if_splits)
    from gesture_release_ok [OF e(1) _ _ l(2) this] have "\<exists>g'. release now i v = (Inr (), g') \<and> gh_inv (S - {i}) g'"
      using l(1) ne i e(2) by simp
    then show ?thesis using nd1 l(2) unfolding split v by simp
  qed
qed

section \<open>Every run\<close>

lemma handle_ok:
  assumes "gh_inv S g" "enabled e S g"
  shows "\<exists>g'. handle m e g = (Inr (), g') \<and> gh_inv (on_screen e S) g'"
proof (cases e)
  case (TStart now i x y)
  then show ?thesis using start_ok assms by simp
next
  case (TMove i x y)
  then show ?thesis using move_ok assms by simp
next
  case (TEnd now i)
  then show ?thesis using end_ok assms by simp
next
  case TLongpress
  then show ?thesis using longpress_ok assms by simp
next
  case TTwoTouch
  then show ?thesis using twoTouch_ok assms by simp
qed

abbreviation attached :: gestures where
  "attached \<equiv> gesture_attach new_gestures"

lemma reached_inv:
  assumes "(touch_step m)\<^sup>*\<^sup>* ({}, attached) (S, g)"
  shows "gh_inv S g"
proof -
  have "case p of (S, g) \<Rightarrow> gh_inv S g" if "(touch_step m)\<^sup>*\<^sup>* ({}, attached) p" for p
    using that
  proof (induction rule: rtranclp_induct)
    case base
    show ?case by (simp add: gh_inv_def active_ids_def shape_def gesture_attach_def new_gestures_def GH_INITSTATE_def)
  next
    case (step p q)
    from step.hyps(2) obtain e S g r g' where e: "p = (S, g)" "q = (on_screen e S, g')" "enabled e S g"
      "handle m e g = (r, g')" by (auto elim: touch_step.cases)
    with step.IH handle_ok [of S g e m] show ?case by auto
  qed
  from this [OF assms] show ?thesis by simp
qed

lemma reset_facts:
  assumes "gh_inv {} g"
  shows "g_state g = 127" "tracked g = []" "ignored g = []" "\<not> waitingRelease g"
    "\<not> longpressTimer g" "\<not> twoTouchPending g"
proof -
  have e: "ignored g = []" "active_ids g = {}" using assms by (auto simp: gh_inv_def)
  then have "\<not> list_ex active (tracked g)" by (auto simp: active_ids_def list_ex_iff)
  with assms e show "g_state g = 127" "tracked g = []" "ignored g = []" "\<not> waitingRelease g"
    "\<not> longpressTimer g" "\<not> twoTouchPending g" by (auto simp: gh_inv_def shape_def)
qed

text \<open>C14. No touch the browser can report and no timer makes the handler throw: the conflict that the
  timer of the long press checks for, the missing touch that the other one checks for, an unknown gesture
  or a touch that is not tracked cannot occur.\<close>

theorem gestures_never_throw:
  assumes "(touch_step m)\<^sup>*\<^sup>* ({}, attached) (S, g)" "enabled e S g"
  shows "\<exists>g'. handle m e g = (Inr (), g')"
  using handle_ok [OF reached_inv [OF assms(1)] assms(2)] by blast

text \<open>The identifier of the two-finger timer outlives the gesture: when that timer decided a gesture,
  the next tap after all fingers have left is lost, however fast it is; only then the identifier is gone.\<close>

theorem tap_lost_after_timer:
  assumes "(touch_step m)\<^sup>*\<^sup>* ({}, attached) ({}, g)" "twoTouchTimer g"
  shows "\<exists>g1 g2. handle m (TStart t1 i x y) g = (Inr (), g1) \<and> handle m (TEnd t2 i) g1 = (Inr (), g2) \<and>
    g_out g2 = g_out g \<and> \<not> twoTouchTimer g2"
proof -
  have g: "g_state g = 127" "tracked g = []" "ignored g = []" "\<not> waitingRelease g" "\<not> longpressTimer g"
    "\<not> twoTouchPending g" using reset_facts [OF reached_inv [OF assms(1)]] by simp_all
  define t where "t = \<lparr>t_id = i, started = t1, active = True, firstX = x, firstY = y, lastX = x, lastY = y, angle = 0\<rparr>"
  define g1 where "g1 = g\<lparr>tracked := [t], longpressTimer := True\<rparr>"
  have nd0: "\<not> hasDetectedGesture g" "\<not> hasDetectedGesture g1"
    using g by (simp_all add: g1_def detected states_def)
  have h1: "handle m (TStart t1 i x y) g = (Inr (), g1)"
    using g nd0 unfolding handle_def touchStart_def Let_def
    by (simp add: exec_simps GH_NOGESTURE_def startLongpressTimeout_def stopLongpressTimeout_def g1_def t_def)
  let ?g2 = "g\<lparr>twoTouchTimer := False, twoTouchPending := False\<rparr>"
  have z: "g_state v = 0 \<Longrightarrow> \<not> hasDetectedGesture v" for v by (simp add: hasDetectedGesture_def GH_NOGESTURE_def)
  have h2: "handle m (TEnd t2 i) g1 = finish i (g\<lparr>twoTouchTimer := False, twoTouchPending := False,
      longpressTimer := False, releaseStart := t2, waitingRelease := True, g_state := 0,
      tracked := [t\<lparr>active := False\<rparr>]\<rparr>)"
    unfolding handle_def touchEnd_def Let_def gesture_masks finish_def [symmetric]
    using g assms(2) nd0 z
    by (simp add: exec_simps GH_NOGESTURE_def clear_state_def clear_zero first_release_def stopLongpressTimeout_def
        find_touch_def g1_def t_def)
  then show ?thesis using h1 z g
    by (simp add: finish_def exec_simps touch_cleanup_def g1_def t_def GH_INITSTATE_def GH_NOGESTURE_def)
qed

text \<open>C29. When no finger is left on the screen, whatever was done with the fingers before, the handler is in its
  initial state (all gestures possible, no touch tracked or ignored, no release waited for, no timer that will still
  fire) but for one field that matters: the identifier of the two-finger timer, which is not reset when that timer
  fires. (The others that may differ are the time of the first release, read only while a release is waited for, the
  target and the gestures reported so far.) While the identifier is there, the next tap is lost, however fast it is:
  nothing is reported for it, and only then the identifier is gone.\<close>

theorem gestures_reset:
  assumes "(touch_step m)\<^sup>*\<^sup>* ({}, attached) ({}, g)"
  shows "g = new_gestures\<lparr>twoTouchTimer := twoTouchTimer g, releaseStart := releaseStart g, g_target := g_target g, g_out := g_out g\<rparr>
    \<and> (twoTouchTimer g \<longrightarrow> (\<exists>g1 g2. handle m (TStart t1 i x y) g = (Inr (), g1) \<and> handle m (TEnd t2 i) g1 = (Inr (), g2) \<and>
        g_out g2 = g_out g \<and> \<not> twoTouchTimer g2))"
  using reset_facts [OF reached_inv [OF assms]] tap_lost_after_timer [OF assms]
  by (simp add: gestures.equality new_gestures_def GH_INITSTATE_def)

section \<open>Two more sequences, and instances\<close>

text \<open>Runs of the handler with the protocol of the browser checked; touches move along an axis here.\<close>

definition axis_math :: js_math where
  "axis_math = \<lparr>hypot = (\<lambda>x y. \<bar>x\<bar> + \<bar>y\<bar>), atan2 = (\<lambda>y x. if x < 0 then 180 else 0)\<rparr>"

fun script :: "js_math \<Rightarrow> touch_event list \<Rightarrow> int list \<Rightarrow> gestures \<Rightarrow> (int list \<times> gestures) option" where
  "script m [] S g = Some (S, g)"
| "script m (e # es) S g =
     (if (case e of TStart now i x y \<Rightarrow> i \<notin> set S | TMove i x y \<Rightarrow> i \<in> set S | TEnd now i \<Rightarrow> i \<in> set S
          | TLongpress \<Rightarrow> longpressTimer g | TTwoTouch \<Rightarrow> twoTouchPending g)
      then script m es (case e of TStart now i x y \<Rightarrow> i # S | TEnd now i \<Rightarrow> filter (\<lambda>j. j \<noteq> i) S | _ \<Rightarrow> S)
             (snd (handle m e g))
      else None)"

lemma script_reached:
  "script m es S g = Some (S', g') \<Longrightarrow> (touch_step m)\<^sup>*\<^sup>* (set S, g) (set S', g')"
proof (induction es arbitrary: S g)
  case (Cons e es)
  let ?T = "case e of TStart now i x y \<Rightarrow> i # S | TEnd now i \<Rightarrow> filter (\<lambda>j. j \<noteq> i) S | _ \<Rightarrow> S"
  have "enabled e (set S) g" "on_screen e (set S) = set ?T" using Cons.prems by (cases e; auto split: if_splits)+
  then have "touch_step m (set S, g) (set ?T, snd (handle m e g))"
    using touch_step.intros [of e "set S" g m "fst (handle m e g)" "snd (handle m e g)"] by simp
  moreover have "(touch_step m)\<^sup>*\<^sup>* (set ?T, snd (handle m e g)) (set S', g')"
    using Cons.prems by (intro Cons.IH) (simp split: if_splits)
  ultimately show ?case by (rule converse_rtranclp_into_rtranclp)
qed simp

text \<open>Two fingers of which one has moved when the timer fires; then both leave.\<close>

definition timed_drag :: "touch_event list" where
  "timed_drag = [TStart 0 1 0 0, TStart 10 2 100 0, TMove 1 60 0, TTwoTouch, TEnd 900 1, TEnd 950 2]"

definition after_drag :: gestures where
  "after_drag = snd (the (script axis_math timed_drag [] attached))"

lemma after_drag_reached: "(touch_step axis_math)\<^sup>*\<^sup>* ({}, attached) ({}, after_drag)" "twoTouchTimer after_drag"
proof -
  have "(case script axis_math timed_drag [] attached of Some (S, g) \<Rightarrow> S = [] \<and> twoTouchTimer g | None \<Rightarrow> False)"
    by code_simp
  then have "script axis_math timed_drag [] attached = Some ([], after_drag) \<and> twoTouchTimer after_drag"
    by (auto simp: after_drag_def split: option.splits)
  then show "(touch_step axis_math)\<^sup>*\<^sup>* ({}, attached) ({}, after_drag)" "twoTouchTimer after_drag"
    using script_reached [of axis_math timed_drag "[]" attached "[]" after_drag] by simp_all
qed

text \<open>A gesture can begin twice: when one of two fingers has been lifted and the other then moves, the
  timer revives a gesture that the release had ruled out, and the last release begins it once more.\<close>

theorem gesture_started_twice:
  "map_option (map (\<lambda>e. (ge_type e, ge_gesture e)) \<circ> g_out \<circ> snd) (script axis_math
      [TStart 0 1 0 0, TStart 10 2 100 0, TEnd 100 1, TMove 2 200 0, TTwoTouch, TEnd 300 2] [] attached)
    = Some [(GestureStart, ''pinch''), (GestureMove, ''pinch''), (GestureStart, ''pinch''), (GestureEnd, ''pinch'')]"
  by code_simp

text \<open>A second finger that comes too late ends the recognition, but the timer of the first finger is not
  stopped, and a long press is recognised all the same.\<close>

theorem longpress_after_rejection:
  "map_option (map (\<lambda>e. (ge_type e, ge_gesture e)) \<circ> g_out \<circ> snd) (script axis_math
      [TStart 0 1 0 0, TStart 500 2 100 0, TLongpress] [] attached) = Some [(GestureStart, ''longpress'')]"
  by code_simp

theorem gestures_never_throw_witness: "\<exists>g'. handle axis_math (TStart 5 7 1 2) after_drag = (Inr (), g')"
  by (rule gestures_never_throw [OF after_drag_reached(1)]) simp

theorem gestures_reset_witness:
  "g_state after_drag = GH_INITSTATE \<and> tracked after_drag = [] \<and> \<not> twoTouchPending after_drag \<and>
   (\<exists>g1 g2. handle axis_math (TStart 2000 1 5 5) after_drag = (Inr (), g1) \<and>
    handle axis_math (TEnd 2050 1) g1 = (Inr (), g2) \<and> g_out g2 = g_out after_drag \<and> \<not> twoTouchTimer g2)"
proof -
  note r = gestures_reset [OF after_drag_reached(1)]
  have "g_state after_drag = GH_INITSTATE \<and> tracked after_drag = [] \<and> \<not> twoTouchPending after_drag"
    by (subst (1 2 3) conjunct1 [OF r]) (simp add: new_gestures_def)
  then show ?thesis using conjunct2 [OF r, rule_format, OF after_drag_reached(2)] by blast
qed

theorem tap_lost_after_timer_witness:
  "\<exists>g1 g2. handle axis_math (TStart 2000 1 5 5) after_drag = (Inr (), g1) \<and>
    handle axis_math (TEnd 2050 1) g1 = (Inr (), g2) \<and> g_out g2 = g_out after_drag \<and> \<not> twoTouchTimer g2"
  by (rule tap_lost_after_timer [OF after_drag_reached])

end
