(* ===== verification/Cursor_Image.thy ===== *)
theory Cursor_Image
  imports JS_Prelude Complex_Main
begin

text \<open>
  \<^verbatim>\<open>core/util/cursor.js\<close>: the local cursor. Where the browser cannot show an image as the cursor
  (\<open>useFallback\<close>), the code moves a small canvas with the mouse. The DOM tests the code makes are values
  of the events: which element is under the mouse is an \<open>element\<close>, with what the code asks about it.
\<close>

section \<open>State\<close>

datatype css_cursor = CursorDefault | CursorNone | CursorImage int int

record cursor =
  cur_target :: bool
  cur_style :: css_cursor
  cur_listening :: bool
  cur_visible :: bool
  cur_w :: int
  cur_h :: int
  cur_image :: "byte list"
  pos_x :: rat
  pos_y :: rat
  hot_x :: rat
  hot_y :: rat
  style_pos :: "(rat \<times> rat) option"

definition new_cursor :: "bool \<Rightarrow> cursor" where
  "new_cursor useFallback = \<lparr>cur_target = False, cur_style = CursorDefault, cur_listening = False,
     cur_visible = \<not> useFallback, cur_w = 300, cur_h = 150, cur_image = [], pos_x = 0, pos_y = 0,
     hot_x = 0, hot_y = 0, style_pos = None\<rparr>"

section \<open>Operations\<close>

definition updatePosition :: "cursor \<Rightarrow> cursor" where
  "updatePosition c = c\<lparr>style_pos := Some (pos_x c, pos_y c)\<rparr>"

text \<open>Without a target its style cannot be set.\<close>

definition cursor_clear :: "(cursor, unit) exec" where
  "cursor_clear = bindx (gets cur_target) (\<lambda>t. if \<not> t then throw TypeError else
     modify (\<lambda>c. c\<lparr>cur_style := CursorNone, cur_w := 0, cur_h := 0,
       pos_x := pos_x c + hot_x c, pos_y := pos_y c + hot_y c, hot_x := 0, hot_y := 0\<rparr>))"

definition cursor_detach :: "cursor \<Rightarrow> cursor" where
  "cursor_detach c = (if \<not> cur_target c then c else c\<lparr>cur_listening := False, cur_target := False\<rparr>)"

definition cursor_attach :: "bool \<Rightarrow> (cursor, unit) exec" where
  "cursor_attach useFallback =
     thenx (modify (\<lambda>c. (if cur_target c then cursor_detach c else c)\<lparr>cur_target := True, cur_listening := useFallback\<rparr>))
       cursor_clear"

text \<open>\<open>new ImageData\<close> refuses pixels that are not those of the size.\<close>

definition cursor_change :: "bool \<Rightarrow> byte list \<Rightarrow> int \<Rightarrow> int \<Rightarrow> int \<Rightarrow> int \<Rightarrow> (cursor, unit) exec" where
  "cursor_change useFallback rgba hotx hoty w h =
     (if w = 0 \<or> h = 0 then cursor_clear else
      thenx (modify (\<lambda>c. c\<lparr>pos_x := pos_x c + hot_x c - of_int hotx, pos_y := pos_y c + hot_y c - of_int hoty,
        hot_x := of_int hotx, hot_y := of_int hoty, cur_w := w, cur_h := h\<rparr>))
      (if int (length rgba) \<noteq> 4 * w * h then throw (JsError ''InvalidStateError'') else
       thenx (modify (\<lambda>c. c\<lparr>cur_image := rgba\<rparr>))
         (if useFallback then modify updatePosition
          else bindx (gets cur_target) (\<lambda>t. if \<not> t then throw TypeError
            else modify (\<lambda>c. c\<lparr>cur_style := CursorImage hotx hoty\<rparr>)))))"

text \<open>What the code finds out about an element: whether it is the target, inside it, and has a cursor of
  its own.\<close>

record element =
  is_target :: bool
  in_target :: bool
  own_cursor :: bool

definition shouldShowCursor :: "element option \<Rightarrow> bool" where
  "shouldShowCursor target = (case target of None \<Rightarrow> False
   | Some e \<Rightarrow> if is_target e then True else if \<not> in_target e then False else \<not> own_cursor e)"

text \<open>With a capture the captured element counts, not the one under the mouse.\<close>

definition updateVisibility :: "element option \<Rightarrow> element option \<Rightarrow> cursor \<Rightarrow> cursor" where
  "updateVisibility captured target c =
     c\<lparr>cur_visible := shouldShowCursor (case captured of None \<Rightarrow> target | Some e \<Rightarrow> Some e)\<rparr>"

text \<open>\<open>offs\<close> is the offset of the visual viewport, where the browser has one.\<close>

definition cursor_move :: "bool \<Rightarrow> (rat \<times> rat) option \<Rightarrow> element option \<Rightarrow> element option \<Rightarrow> rat \<Rightarrow> rat \<Rightarrow> cursor \<Rightarrow> cursor" where
  "cursor_move useFallback offs captured pointed clientX clientY c =
     (if \<not> useFallback then c else
      let (ox, oy) = (case offs of Some p \<Rightarrow> p | None \<Rightarrow> (0, 0))
      in updateVisibility captured pointed (updatePosition (c\<lparr>pos_x := clientX + ox, pos_y := clientY + oy\<rparr>)))"

definition cursor_handleMouseMove :: "element option \<Rightarrow> element option \<Rightarrow> rat \<Rightarrow> rat \<Rightarrow> cursor \<Rightarrow> cursor" where
  "cursor_handleMouseMove captured target clientX clientY c =
     updatePosition ((updateVisibility captured target c)\<lparr>pos_x := clientX - hot_x c, pos_y := clientY - hot_y c\<rparr>)"

definition cursor_handleMouseLeave :: "element option \<Rightarrow> element option \<Rightarrow> cursor \<Rightarrow> cursor" where
  "cursor_handleMouseLeave captured related c = updateVisibility captured related c"

text \<open>A mouse-up looks at what is under the mouse, and again when the browser has handled all events if a
  capture was active; by then the cursor may be detached.\<close>

definition cursor_handleMouseUp :: "element option \<Rightarrow> element option \<Rightarrow> cursor \<Rightarrow> cursor" where
  "cursor_handleMouseUp captured pointed c = updateVisibility captured pointed c"

definition cursor_mouseUp_timer :: "element option \<Rightarrow> element option \<Rightarrow> cursor \<Rightarrow> cursor" where
  "cursor_mouseUp_timer captured pointed c = (if \<not> cur_target c then c else updateVisibility captured pointed c)"

section \<open>The tip of the cursor\<close>

definition tip :: "cursor \<Rightarrow> rat \<times> rat" where
  "tip c = (pos_x c + hot_x c, pos_y c + hot_y c)"

text \<open>Changing or clearing the cursor does not move its tip: the image is placed so that its hot spot
  stays where that of the old one was, also when the image is refused.\<close>

theorem cursor_keeps_tip:
  "tip (snd (cursor_change useFallback rgba hotx hoty w h c)) = tip c \<and> tip (snd (cursor_clear c)) = tip c"
  by (simp add: cursor_change_def cursor_clear_def exec_simps tip_def updatePosition_def)

text \<open>A mouse event puts the tip of the cursor where the mouse is; a move for an emulated event leaves
  the hot spot out and puts the tip off by it.\<close>

theorem cursor_move_offset:
  "tip (cursor_handleMouseMove cap el x y c) = (x, y) \<and>
   tip (cursor_move True None cap el x y c) = (x + hot_x c, y + hot_y c)"
  by (simp add: cursor_handleMouseMove_def cursor_move_def tip_def updatePosition_def updateVisibility_def)

end
