(* ===== verification/RFB_State.thy ===== *)
theory RFB_State
  imports Tight_Decoder Client_Messages DES_Cipher Key_Input Gesture_Handler Cursor_Image
begin

text \<open>
  \<^verbatim>\<open>core/rfb.js\<close>, the session: its state with the parts it owns (socket, display, decoders, keyboard,
  gestures, cursor), the life cycle of the connection, its public properties and the fitting of the
  display into the page. Events for the embedding page are recorded in \<open>events\<close>; the page's element
  (\<open>attached_screen\<close>, \<open>scr_w\<close>, \<open>scr_h\<close>) and the listeners on the canvas (\<open>listening\<close>) are represented by
  what the code does with them. Values that are not under \<^verbatim>\<open>src\<close> or belong to the browser are the fields
  of \<open>rfb_env\<close>.
\<close>

section \<open>State\<close>

datatype conn = NoConn | Connecting | Connected | Disconnecting | Disconnected

datatype init_state = NoInit | ProtocolVersion | Security | Authentication | SecurityResult | SecurityReason
  | ClientInitialisation | ServerInitialisation

datatype rfb_event = EvConnect | EvDisconnect bool | EvCredentialsRequired "string list"
  | EvSecurityFailure int string | EvClipboard js_string | EvBell | EvDesktopName js_string | EvCapabilities bool

text \<open>A number, or a view of the bytes of one: arithmetic on the view gives no number.\<close>

datatype number_or_bytes = Num int | Bytes "byte list"

record credentials =
  username :: "js_string option"
  password :: "js_string option"
  cr_target :: "js_string option"

record cursor_image =
  rgbaPixels :: "byte list"
  hotx :: int
  hoty :: int
  ci_w :: int
  ci_h :: int

record fbu =
  rects :: int
  fbu_x :: int
  fbu_y :: int
  fbu_w :: int
  fbu_h :: int
  encoding :: "int option"

record rfb_env =
  env_pako :: pako
  env_deflate :: "byte list \<Rightarrow> byte list"
  env_math :: js_math
  useFallback :: bool
  dragThreshold :: rat
  viewport_offset :: "(rat \<times> rat) option"

record rfb = hextile_ctx +
  tight_dec :: tight
  tightpng_dec :: tight
  kb :: keyboard
  gest :: gestures
  crs :: cursor
  rawChannel :: "(string list \<times> ready_state) option"
  events :: "rfb_event list"
  attached_screen :: bool
  listening :: bool
  observing :: bool
  scr_w :: rat
  scr_h :: rat
  rfbCredentials :: credentials
  shared :: bool
  repeaterID :: string
  rfbConnectionState :: conn
  rfbInitState :: init_state
  rfbAuthScheme :: int
  rfbCleanDisconnect :: bool
  rfbVersion :: int
  rfbMaxVersion :: int
  rfbTightVNC :: bool
  rfbVeNCryptState :: nat
  rfbVeNCryptSubtypesLength :: int
  securityStatus :: int
  rfbXvpVer :: int
  fbW :: int
  fbH :: int
  fbName :: js_string
  power :: bool
  fbDepth :: int
  supportsFence :: bool
  supportsContinuousUpdates :: bool
  enabledContinuousUpdates :: bool
  supportsSetDesktopSize :: bool
  screenID :: number_or_bytes
  screenFlags :: number_or_bytes
  qemuExtKeyEventSupported :: bool
  clipboardText :: "js_string option"
  clipboardServerActions :: "int list"
  clipboardServerFormats :: "int list"
  rfb_flushing :: bool
  disconnTimer :: bool
  resizeTimeout :: bool
  mouseMoveTimer :: bool
  mouseMovePending :: bool
  FBU :: fbu
  mousePos :: "rat \<times> rat"
  mouseButtonMask :: int
  mouseLastMoveTime :: int
  viewportDragging :: bool
  viewportDragPos :: "rat \<times> rat"
  viewportHasMoved :: bool
  accumulatedWheelDeltaX :: rat
  accumulatedWheelDeltaY :: rat
  gestureLastTapTime :: "int option"
  gestureFirstDoubleTap :: "(string \<times> rat \<times> rat) option"
  gestureLastMagnitudeX :: rat
  gestureLastMagnitudeY :: rat
  cursorImage :: cursor_image
  dragViewport :: bool
  viewOnly :: bool
  clipViewport' :: bool
  scaleViewport :: bool
  resizeSession :: bool
  showDotCursor :: bool
  qualityLevel :: int
  compressionLevel :: int

definition cursor_none :: cursor_image where
  "cursor_none = \<lparr>rgbaPixels = [], hotx = 0, hoty = 0, ci_w = 0, ci_h = 0\<rparr>"

definition cursor_dot :: cursor_image where
  "cursor_dot = \<lparr>rgbaPixels = [255, 255, 255, 255, 0, 0, 0, 255, 255, 255, 255, 255,
     0, 0, 0, 255, 0, 0, 0, 0, 0, 0, 0, 255, 255, 255, 255, 255, 0, 0, 0, 255, 255, 255, 255, 255],
     hotx = 1, hoty = 1, ci_w = 3, ci_h = 3\<rparr>"

definition new_fbu :: fbu where
  "new_fbu = \<lparr>rects = 0, fbu_x = 0, fbu_y = 0, fbu_w = 0, fbu_h = 0, encoding = None\<rparr>"

text \<open>The fields the constructor sets before it connects; those it sets afterwards have their values too,
  since nothing reads them in between.\<close>

definition new_rfb :: "rfb_env \<Rightarrow> (string list \<times> ready_state) option \<Rightarrow> credentials \<Rightarrow> bool \<Rightarrow> string \<Rightarrow> rat \<Rightarrow> rat \<Rightarrow> rfb" where
  "new_rfb env channel creds shr repeater w h = \<lparr>
     sock = on EvError (on EvMessage (on EvClose (on EvOpen new_websock))), disp = new_display 0 0 0 0,
     rre_subrects = 0, raw_lines = 0, hex = new_hextile, tight_dec = new_tight, tightpng_dec = new_tight,
     kb = new_keyboard, gest = new_gestures, crs = new_cursor (useFallback env), rawChannel = channel,
     events = [], attached_screen = False, listening = False, observing = False, scr_w = w, scr_h = h,
     rfbCredentials = creds, shared = shr, repeaterID = repeater,
     rfbConnectionState = NoConn, rfbInitState = NoInit, rfbAuthScheme = - 1, rfbCleanDisconnect = True,
     rfbVersion = 0, rfbMaxVersion = 38, rfbTightVNC = False, rfbVeNCryptState = 0, rfbVeNCryptSubtypesLength = 0,
     securityStatus = 0, rfbXvpVer = 0, fbW = 0, fbH = 0, fbName = [], power = False, fbDepth = 0,
     supportsFence = False, supportsContinuousUpdates = False, enabledContinuousUpdates = False,
     supportsSetDesktopSize = False, screenID = Num 0, screenFlags = Num 0, qemuExtKeyEventSupported = False,
     clipboardText = None, clipboardServerActions = [], clipboardServerFormats = [], rfb_flushing = False,
     disconnTimer = False, resizeTimeout = False, mouseMoveTimer = False, mouseMovePending = False, FBU = new_fbu,
     mousePos = (0, 0), mouseButtonMask = 0, mouseLastMoveTime = 0, viewportDragging = False,
     viewportDragPos = (0, 0), viewportHasMoved = False, accumulatedWheelDeltaX = 0, accumulatedWheelDeltaY = 0,
     gestureLastTapTime = None, gestureFirstDoubleTap = None, gestureLastMagnitudeX = 0, gestureLastMagnitudeY = 0,
     cursorImage = cursor_none, dragViewport = False, viewOnly = False, clipViewport' = False, scaleViewport = False,
     resizeSession = False, showDotCursor = False, qualityLevel = 6, compressionLevel = 2\<rparr>"

type_synonym 'a session = "(rfb, 'a) exec"

definition dispatch :: "rfb_event \<Rightarrow> unit session" where
  "dispatch e = modify (\<lambda>s. s\<lparr>events := events s @ [e]\<rparr>)"

definition on_cursor :: "(cursor, 'a) exec \<Rightarrow> 'a session" where
  "on_cursor = zoom crs (\<lambda>c s. s\<lparr>crs := c\<rparr>)"

definition tell :: "(websock \<Rightarrow> websock) \<Rightarrow> unit session" where
  "tell f = on_sock (modify f)"

text \<open>A writer that does not return (\<open>clientCutText\<close> on a closed channel) ends the run of the program; it is
  the value \<open>no_return\<close> here. No decoder calls such a writer, so that no handler of exceptions meets it;
  \<open>Session_Returns\<close> shows where it cannot occur.\<close>

definition no_return :: js_error where
  "no_return = JsError ''does not return''"

definition tell_option :: "(websock \<Rightarrow> websock option) \<Rightarrow> unit session" where
  "tell_option f s = (case f (sock s) of Some t \<Rightarrow> (Inr (), s\<lparr>sock := t\<rparr>) | None \<Rightarrow> (Inl no_return, s))"

section \<open>Keys\<close>

definition sendKey_dir :: "int option \<Rightarrow> code \<Rightarrow> bool \<Rightarrow> unit session" where
  "sendKey_dir keysym code down = bindx (gets id) (\<lambda>s.
     if rfbConnectionState s \<noteq> Connected \<or> viewOnly s then ret ()
     else
       let scancode = (case code of Code c \<Rightarrow> map_of XtScancode c | _ \<Rightarrow> None) in
       if qemuExtKeyEventSupported s \<and> scancode \<noteq> None \<and> scancode \<noteq> Some 0 then
         tell (QEMUExtendedKeyEvent (case keysym of Some k \<Rightarrow> k | None \<Rightarrow> 0) (of_bool down) (the scancode))
       else (case keysym of
           None \<Rightarrow> ret ()
         | Some k \<Rightarrow> if k = 0 then ret () else tell (keyEvent k (of_bool down))))"

text \<open>Without a direction: a press and a release.\<close>

definition sendKey :: "int option \<Rightarrow> code \<Rightarrow> bool option \<Rightarrow> unit session" where
  "sendKey keysym code down = bindx (gets id) (\<lambda>s.
     if rfbConnectionState s \<noteq> Connected \<or> viewOnly s then ret ()
     else (case down of Some d \<Rightarrow> sendKey_dir keysym code d
       | None \<Rightarrow> thenx (sendKey_dir keysym code True) (sendKey_dir keysym code False)))"

definition sendCtrlAltDel :: "unit session" where
  "sendCtrlAltDel = bindx (gets id) (\<lambda>s.
     if rfbConnectionState s \<noteq> Connected \<or> viewOnly s then ret ()
     else thenx (sendKey (Some XK_Control_L) (Code ''ControlLeft'') (Some True))
         (thenx (sendKey (Some XK_Alt_L) (Code ''AltLeft'') (Some True))
         (thenx (sendKey (Some XK_Delete) (Code ''Delete'') (Some True))
         (thenx (sendKey (Some XK_Delete) (Code ''Delete'') (Some False))
         (thenx (sendKey (Some XK_Alt_L) (Code ''AltLeft'') (Some False))
           (sendKey (Some XK_Control_L) (Code ''ControlLeft'') (Some False)))))))"

definition handleKeyEvent :: "key_action \<Rightarrow> unit session" where
  "handleKeyEvent = (\<lambda>(keysym, code, down). sendKey keysym code (Some down))"

primrec handleKeyEvents :: "key_action list \<Rightarrow> unit session" where
  "handleKeyEvents [] = ret ()"
| "handleKeyEvents (a # as) = thenx (handleKeyEvent a) (handleKeyEvents as)"

text \<open>An operation of the keyboard, with the key events it causes.\<close>

definition on_kb :: "(keyboard \<Rightarrow> keyboard) \<Rightarrow> unit session" where
  "on_kb f = bindx (gets kb) (\<lambda>k.
     let k' = f k in thenx (modify (\<lambda>s. s\<lparr>kb := k'\<rparr>)) (handleKeyEvents (drop (length (kb_out k)) (kb_out k'))))"

section \<open>The display in the page\<close>

text \<open>Toggling the scroll bars to make the browser lay out the page again leaves no trace.\<close>

definition fixScrollbars :: "unit session" where
  "fixScrollbars = ret ()"

definition updateClip :: "unit session" where
  "updateClip = bindx (gets id) (\<lambda>s.
     let curClip = clipViewport (disp s);
         newClip = (if scaleViewport s then False else clipViewport' s)
     in thenx (if curClip \<noteq> newClip then on_disp (set_clipViewport newClip) else ret ())
       (if newClip then thenx (on_disp (viewportChangeSize (Some (scr_w s)) (Some (scr_h s)))) fixScrollbars
        else ret ()))"

definition updateScale :: "unit session" where
  "updateScale = bindx (gets id) (\<lambda>s.
     thenx (if \<not> scaleViewport s then on_disp (modify (rescale (Some 1)))
            else on_disp (modify (autoscale (scr_w s) (scr_h s)))) fixScrollbars)"

definition as_number :: "number_or_bytes \<Rightarrow> int" where
  "as_number v = (case v of Num n \<Rightarrow> n | Bytes bs \<Rightarrow> 0)"

definition requestRemoteResize :: "unit session" where
  "requestRemoteResize =
     thenx (modify (\<lambda>s. s\<lparr>resizeTimeout := False\<rparr>))
       (bindx (gets id) (\<lambda>s.
          if \<not> resizeSession s \<or> viewOnly s \<or> \<not> supportsSetDesktopSize s then ret ()
          else tell (setDesktopSize \<lfloor>scr_w s\<rfloor> \<lfloor>scr_h s\<rfloor> (as_number (screenID s)) (as_number (screenFlags s)))))"

text \<open>\<open>_handleResize\<close>: the part for the next frame, and the part at once.\<close>

definition handleResize_frame :: "unit session" where
  "handleResize_frame = thenx updateClip updateScale"

definition handleResize :: "unit session" where
  "handleResize = modify (\<lambda>s. if resizeSession s then s\<lparr>resizeTimeout := True\<rparr> else s)"

definition updateContinuousUpdates :: "unit session" where
  "updateContinuousUpdates = bindx (gets id) (\<lambda>s.
     if \<not> enabledContinuousUpdates s then ret ()
     else tell (enableContinuousUpdates True 0 0 (fbW s) (fbH s)))"

definition rfb_resize :: "int \<Rightarrow> int \<Rightarrow> unit session" where
  "rfb_resize width height =
     thenx (modify (\<lambda>s. s\<lparr>fbW := width, fbH := height\<rparr>))
    (thenx (on_disp (resize width height))
    (thenx updateClip (thenx updateScale updateContinuousUpdates)))"

definition setDesktopName :: "js_string \<Rightarrow> unit session" where
  "setDesktopName name = thenx (modify (\<lambda>s. s\<lparr>fbName := name\<rparr>)) (dispatch (EvDesktopName name))"

definition setCapability_power :: "bool \<Rightarrow> unit session" where
  "setCapability_power val = thenx (modify (\<lambda>s. s\<lparr>power := val\<rparr>)) (dispatch (EvCapabilities val))"

section \<open>The cursor\<close>

definition shouldShowDotCursor :: "rfb \<Rightarrow> bool" where
  "shouldShowDotCursor s \<longleftrightarrow> showDotCursor s \<and>
     list_all (\<lambda>i. i mod 4 = 3 \<longrightarrow> rgbaPixels (cursorImage s) ! i = 0) [0..<length (rgbaPixels (cursorImage s))]"

definition refreshCursor :: "rfb_env \<Rightarrow> unit session" where
  "refreshCursor env = bindx (gets id) (\<lambda>s.
     if rfbConnectionState s \<noteq> Connecting \<and> rfbConnectionState s \<noteq> Connected then ret ()
     else let image = (if shouldShowDotCursor s then cursor_dot else cursorImage s) in
       on_cursor (cursor_change (useFallback env) (rgbaPixels image) (hotx image) (hoty image) (ci_w image) (ci_h image)))"

definition updateCursor :: "rfb_env \<Rightarrow> byte list \<Rightarrow> int \<Rightarrow> int \<Rightarrow> int \<Rightarrow> int \<Rightarrow> unit session" where
  "updateCursor env rgba hx hy w h =
     thenx (modify (\<lambda>s. s\<lparr>cursorImage := \<lparr>rgbaPixels = rgba, hotx = hx, hoty = hy, ci_w = w, ci_h = h\<rparr>\<rparr>))
       (refreshCursor env)"

section \<open>The connection\<close>

definition disconnect_objects :: "unit session" where
  "disconnect_objects =
     thenx (on_cursor (modify cursor_detach))
    (thenx (modify (\<lambda>s. s\<lparr>listening := False, observing := False\<rparr>))
    (thenx (on_kb ungrab)
    (thenx (modify (\<lambda>s. s\<lparr>gest := gesture_detach (gest s)\<rparr>))
    (thenx (on_sock (modify ws_close))
    (modify (\<lambda>s. s\<lparr>attached_screen := False, resizeTimeout := False, mouseMovePending := False\<rparr>))))))"

text \<open>The transitions that are allowed.\<close>

definition transition_ok :: "conn \<Rightarrow> conn \<Rightarrow> bool" where
  "transition_ok oldstate state \<longleftrightarrow> state \<noteq> oldstate \<and> oldstate \<noteq> Disconnected \<and>
     (case state of Connected \<Rightarrow> oldstate = Connecting
      | Disconnected \<Rightarrow> oldstate = Disconnecting
      | Connecting \<Rightarrow> oldstate = NoConn
      | Disconnecting \<Rightarrow> oldstate = Connected \<or> oldstate = Connecting
      | NoConn \<Rightarrow> False)"

text \<open>\<open>_updateConnectionState\<close> with the action of the new state.\<close>

definition change_state :: "conn \<Rightarrow> unit session \<Rightarrow> unit session" where
  "change_state state action = bindx (gets rfbConnectionState) (\<lambda>oldstate.
     if \<not> transition_ok oldstate state then ret ()
     else thenx (modify (\<lambda>s. s\<lparr>rfbConnectionState := state\<rparr>))
         (thenx (modify (\<lambda>s. if disconnTimer s \<and> state \<noteq> Disconnecting
                   then s\<lparr>disconnTimer := False, sock := off EvClose (sock s)\<rparr> else s)) action))"

definition to_disconnected :: "unit session" where
  "to_disconnected = change_state Disconnected
     (bindx (gets rfbCleanDisconnect) (\<lambda>clean. dispatch (EvDisconnect clean)))"

definition to_disconnecting :: "unit session" where
  "to_disconnecting = change_state Disconnecting
     (thenx disconnect_objects (modify (\<lambda>s. s\<lparr>disconnTimer := True\<rparr>)))"

text \<open>\<open>_fail\<close>; its result is always false.\<close>

definition fail :: "bool session" where
  "fail = thenx (modify (\<lambda>s. s\<lparr>rfbCleanDisconnect := False\<rparr>))
    (thenx to_disconnecting (thenx to_disconnected (ret False)))"

definition socketOpen :: "unit session" where
  "socketOpen = bindx (gets id) (\<lambda>s.
     if rfbConnectionState s = Connecting \<and> rfbInitState s = NoInit
     then modify (\<lambda>s. s\<lparr>rfbInitState := ProtocolVersion\<rparr>)
     else thenx fail (ret ()))"

text \<open>A URL is opened as a channel of the browser that is connecting; a channel given is attached as it is.\<close>

definition rfb_connect :: "rfb_env \<Rightarrow> unit session" where
  "rfb_connect env =
     thenx (bindx (gets rawChannel) (\<lambda>ch. case ch of
         None \<Rightarrow> on_sock (attach rawChannelProps CONNECTING)
       | Some (props, ready) \<Rightarrow>
           thenx (on_sock (attach props ready))
          (bindx (gets (readyState \<circ> sock)) (\<lambda>r.
             if r = ''closed'' then throw (JsError ''Cannot use already closed WebSocket/RTCDataChannel'')
             else if r = ''open'' then socketOpen else ret ()))))
    (thenx (modify (\<lambda>s. s\<lparr>attached_screen := True, gest := gesture_attach (gest s)\<rparr>))
    (thenx (on_cursor (cursor_attach (useFallback env)))
    (thenx (refreshCursor env)
      (modify (\<lambda>s. s\<lparr>observing := True, listening := True\<rparr>)))))"

definition updateConnectionState :: "rfb_env \<Rightarrow> conn \<Rightarrow> unit session" where
  "updateConnectionState env state = (case state of
     Connecting \<Rightarrow> change_state Connecting (rfb_connect env)
   | Connected \<Rightarrow> change_state Connected (dispatch EvConnect)
   | Disconnecting \<Rightarrow> to_disconnecting
   | Disconnected \<Rightarrow> to_disconnected
   | NoConn \<Rightarrow> ret ())"

definition construct :: "rfb_env \<Rightarrow> unit session" where
  "construct env = updateConnectionState env Connecting"

definition socketClose :: "unit session" where
  "socketClose =
     thenx (bindx (gets rfbConnectionState) (\<lambda>c. case c of
         Connected \<Rightarrow> thenx to_disconnecting to_disconnected
       | Disconnecting \<Rightarrow> to_disconnected
       | _ \<Rightarrow> thenx fail (ret ())))
    (thenx (on_sock (modify (off EvClose))) (modify (\<lambda>s. s\<lparr>rawChannel := None\<rparr>)))"

definition disconnect :: "unit session" where
  "disconnect = thenx to_disconnecting
     (on_sock (modify (off EvOpen \<circ> off EvMessage \<circ> off EvError)))"

text \<open>The timer that ends a disconnection.\<close>

definition disconnect_timeout :: "unit session" where
  "disconnect_timeout = to_disconnected"

section \<open>Encodings and properties\<close>

definition encodingRaw :: int where "encodingRaw = 0"
definition encodingCopyRect :: int where "encodingCopyRect = 1"
definition encodingRRE :: int where "encodingRRE = 2"
definition encodingHextile :: int where "encodingHextile = 5"
definition encodingTight :: int where "encodingTight = 7"
definition encodingTightPNG :: int where "encodingTightPNG = -260"
definition pseudoEncodingQualityLevel0 :: int where "pseudoEncodingQualityLevel0 = -32"
definition pseudoEncodingCompressLevel0 :: int where "pseudoEncodingCompressLevel0 = -256"
definition pseudoEncodingDesktopSize :: int where "pseudoEncodingDesktopSize = -223"
definition pseudoEncodingLastRect :: int where "pseudoEncodingLastRect = -224"
definition pseudoEncodingCursor :: int where "pseudoEncodingCursor = -239"
definition pseudoEncodingQEMUExtendedKeyEvent :: int where "pseudoEncodingQEMUExtendedKeyEvent = -258"
definition pseudoEncodingDesktopName :: int where "pseudoEncodingDesktopName = -307"
definition pseudoEncodingExtendedDesktopSize :: int where "pseudoEncodingExtendedDesktopSize = -308"
definition pseudoEncodingXvp :: int where "pseudoEncodingXvp = -309"
definition pseudoEncodingFence :: int where "pseudoEncodingFence = -312"
definition pseudoEncodingContinuousUpdates :: int where "pseudoEncodingContinuousUpdates = -313"
definition pseudoEncodingVMwareCursor :: int where "pseudoEncodingVMwareCursor = 0x574d5664"
definition pseudoEncodingExtendedClipboard :: int where "pseudoEncodingExtendedClipboard = 0xc0a1e5ce"

lemmas encoding_defs = encodingRaw_def encodingCopyRect_def encodingRRE_def encodingHextile_def encodingTight_def
  encodingTightPNG_def pseudoEncodingQualityLevel0_def pseudoEncodingCompressLevel0_def
  pseudoEncodingDesktopSize_def pseudoEncodingLastRect_def pseudoEncodingCursor_def
  pseudoEncodingQEMUExtendedKeyEvent_def pseudoEncodingDesktopName_def pseudoEncodingExtendedDesktopSize_def
  pseudoEncodingXvp_def pseudoEncodingFence_def pseudoEncodingContinuousUpdates_def
  pseudoEncodingVMwareCursor_def pseudoEncodingExtendedClipboard_def

definition sendEncodings :: "unit session" where
  "sendEncodings = bindx (gets id) (\<lambda>s. tell (clientEncodings
     ([encodingCopyRect]
      @ (if fbDepth s = 24 then [encodingTight, encodingTightPNG, encodingHextile, encodingRRE] else [])
      @ [encodingRaw, pseudoEncodingQualityLevel0 + qualityLevel s,
         pseudoEncodingCompressLevel0 + compressionLevel s, pseudoEncodingDesktopSize, pseudoEncodingLastRect,
         pseudoEncodingQEMUExtendedKeyEvent, pseudoEncodingExtendedDesktopSize, pseudoEncodingXvp,
         pseudoEncodingFence, pseudoEncodingContinuousUpdates, pseudoEncodingDesktopName,
         pseudoEncodingExtendedClipboard]
      @ (if fbDepth s = 24 then [pseudoEncodingVMwareCursor, pseudoEncodingCursor] else []))))"

definition set_viewOnly :: "bool \<Rightarrow> unit session" where
  "set_viewOnly v = thenx (modify (\<lambda>s. s\<lparr>viewOnly := v\<rparr>))
     (bindx (gets rfbConnectionState) (\<lambda>c.
        if c = Connecting \<or> c = Connected then on_kb (if v then ungrab else grab) else ret ()))"

definition set_clip :: "bool \<Rightarrow> unit session" where
  "set_clip v = thenx (modify (\<lambda>s. s\<lparr>clipViewport' := v\<rparr>)) updateClip"

definition set_scaleViewport :: "bool \<Rightarrow> unit session" where
  "set_scaleViewport v =
     thenx (modify (\<lambda>s. s\<lparr>scaleViewport := v\<rparr>))
    (bindx (gets clipViewport') (\<lambda>clip.
       thenx (if v \<and> clip then updateClip else ret ())
      (thenx updateScale (if \<not> v \<and> clip then updateClip else ret ()))))"

definition set_resizeSession :: "bool \<Rightarrow> unit session" where
  "set_resizeSession v = thenx (modify (\<lambda>s. s\<lparr>resizeSession := v\<rparr>)) (if v then requestRemoteResize else ret ())"

definition set_showDotCursor :: "rfb_env \<Rightarrow> bool \<Rightarrow> unit session" where
  "set_showDotCursor env v = thenx (modify (\<lambda>s. s\<lparr>showDotCursor := v\<rparr>)) (refreshCursor env)"

definition set_qualityLevel :: "int \<Rightarrow> unit session" where
  "set_qualityLevel q = bindx (gets id) (\<lambda>s.
     if q < 0 \<or> q > 9 \<or> qualityLevel s = q then ret ()
     else thenx (modify (\<lambda>s. s\<lparr>qualityLevel := q\<rparr>))
       (if rfbConnectionState s = Connected then sendEncodings else ret ()))"

definition set_compressionLevel :: "int \<Rightarrow> unit session" where
  "set_compressionLevel q = bindx (gets id) (\<lambda>s.
     if q < 0 \<or> q > 9 \<or> compressionLevel s = q then ret ()
     else thenx (modify (\<lambda>s. s\<lparr>compressionLevel := q\<rparr>))
       (if rfbConnectionState s = Connected then sendEncodings else ret ()))"

definition rfb_xvpOp :: "int \<Rightarrow> int \<Rightarrow> unit session" where
  "rfb_xvpOp ver op = bindx (gets rfbXvpVer) (\<lambda>v. if v < ver then ret () else tell (xvpOp ver op))"

definition machineShutdown :: "unit session" where "machineShutdown = rfb_xvpOp 1 2"
definition machineReboot :: "unit session" where "machineReboot = rfb_xvpOp 1 3"
definition machineReset :: "unit session" where "machineReset = rfb_xvpOp 1 4"

text \<open>Text for the server: announced where the server understands that, else sent with the low byte of
  each code unit.\<close>

definition clipboardPasteFrom :: "js_string \<Rightarrow> unit session" where
  "clipboardPasteFrom text = bindx (gets id) (\<lambda>s.
     if rfbConnectionState s \<noteq> Connected \<or> viewOnly s then ret ()
     else if extendedClipboardFormatText \<in> set (clipboardServerFormats s)
       \<and> extendedClipboardActionNotify \<in> set (clipboardServerActions s) then
       thenx (modify (\<lambda>s. s\<lparr>clipboardText := Some text\<rparr>))
         (tell_option (extendedClipboardNotify [extendedClipboardFormatText]))
     else tell_option (clientCutText (map (\<lambda>u. to_byte (int u)) text) False))"

end
