(* ===== verification/RFB_Handshake.thy ===== *)
theory RFB_Handshake
  imports RFB_State
begin

text \<open>
  \<^verbatim>\<open>core/rfb.js\<close>, the handshake: protocol version, security type, authentication, result, and the server's
  description of the framebuffer. The results of the handlers are used by nothing but the handlers that
  return them; \<open>undefined\<close> is False. The calls of \<open>_initMsg\<close> by the handlers are an argument (\<open>again\<close>) that
  \<open>initMsg\<close> supplies; their depth is bounded, and \<open>init_fuel\<close> is enough (\<open>Session_Progress\<close>).
\<close>

section \<open>Shorthands\<close>

definition wait_else :: "int \<Rightarrow> nat \<Rightarrow> bool session \<Rightarrow> bool session" where
  "wait_else n goback m = bindx (on_sock (rQwait n goback)) (\<lambda>w. if w then ret False else m)"

definition failing :: "bool session" where
  "failing = fail"

definition set_init :: "init_state \<Rightarrow> unit session" where
  "set_init i = modify (\<lambda>s. s\<lparr>rfbInitState := i\<rparr>)"

definition lift_result :: "js_error + 'a \<Rightarrow> 'a session" where
  "lift_result r = (\<lambda>s. (r, s))"

text \<open>A string of code units as \<open>sendString\<close> takes it: the low byte of each.\<close>

definition send_units :: "js_string \<Rightarrow> unit session" where
  "send_units str = on_sock (send (map (\<lambda>u. to_byte (int u)) str))"

definition digit :: "int \<Rightarrow> char" where
  "digit n = char_of (48 + nat n)"

section \<open>Version\<close>

text \<open>Versions in tenths.\<close>

definition server_versions :: "(string \<times> int) list" where
  "server_versions = [(''003.003'', 33), (''003.006'', 33), (''003.889'', 33), (''003.007'', 37),
     (''003.008'', 38), (''004.000'', 38), (''004.001'', 38), (''005.000'', 38)]"

definition negotiateProtocolVersion :: "bool session" where
  "negotiateProtocolVersion = wait_else 12 0
     (bindx (on_sock (rQshiftStr 12)) (\<lambda>str.
      let sversion = take 7 (drop 4 str) in
      if sversion = ''000.000'' then
        bindx (gets repeaterID) (\<lambda>rid.
          let i = ''ID:'' @ rid in
          thenx (on_sock (sendString (i @ replicate (250 - length i) (char_of (0 :: nat))))) (ret True))
      else (case map_of server_versions sversion of
          None \<Rightarrow> failing
        | Some v \<Rightarrow>
            thenx (modify (\<lambda>s. s\<lparr>rfbVersion := (if v > rfbMaxVersion s then rfbMaxVersion s else v)\<rparr>))
           (bindx (gets rfbVersion) (\<lambda>v.
            thenx (on_sock (sendString (''RFB 00'' @ [digit (v div 10)] @ ''.00'' @ [digit (v mod 10)] @ [CHR 0x0A])))
           (thenx (set_init Security) (ret False)))))))"

section \<open>Security\<close>

definition security_reason :: "int \<Rightarrow> bool session \<Rightarrow> bool session" where
  "security_reason status again =
     thenx (modify (\<lambda>s. s\<lparr>rfbInitState := SecurityReason, securityStatus := status\<rparr>)) again"

text \<open>The scheme the client prefers among the offered ones.\<close>

definition preferred_scheme :: "byte list \<Rightarrow> int option" where
  "preferred_scheme types =
     (if 1 \<in> set types then Some 1 else if 22 \<in> set types then Some 22 else if 16 \<in> set types then Some 16
      else if 2 \<in> set types then Some 2 else if 19 \<in> set types then Some 19 else None)"

definition set_scheme :: "int \<Rightarrow> unit session" where
  "set_scheme n = modify (\<lambda>s. s\<lparr>rfbAuthScheme := n\<rparr>)"

definition authenticate :: "bool session \<Rightarrow> bool session" where
  "authenticate again = thenx (set_init Authentication) again"

definition negotiateSecurity :: "bool session \<Rightarrow> bool session" where
  "negotiateSecurity again = bindx (gets rfbVersion) (\<lambda>v.
     if v \<ge> 37 then
       bindx (on_sock rQshift8) (\<lambda>numTypes.
       wait_else numTypes 1
        (if numTypes = 0 then security_reason 1 again
         else bindx (on_sock (rQshiftBytes numTypes)) (\<lambda>types.
           case preferred_scheme types of
             None \<Rightarrow> failing
           | Some n \<Rightarrow> thenx (set_scheme n)
               (thenx (on_sock (send [to_byte n])) (authenticate again)))))
     else wait_else 4 0
       (bindx (on_sock rQshift32) (\<lambda>n.
        thenx (set_scheme n) (if n = 0 then security_reason 1 again else authenticate again))))"

definition handleSecurityReason :: "bool session" where
  "handleSecurityReason = wait_else 4 0
     (bindx (on_sock rQshift32) (\<lambda>strlen.
      let report = (\<lambda>reason. bindx (gets securityStatus) (\<lambda>status.
            thenx (dispatch (EvSecurityFailure status reason)) failing))
      in if strlen > 0 then wait_else strlen 4 (bindx (on_sock (rQshiftStr strlen)) report) else report []))"

section \<open>Authentication\<close>

definition credentials_required :: "string list \<Rightarrow> bool session" where
  "credentials_required types = thenx (dispatch (EvCredentialsRequired types)) (ret False)"

definition genDES :: "js_string \<Rightarrow> byte list \<Rightarrow> byte list" where
  "genDES pw challenge = encrypt (des_keys pw) challenge"

definition negotiateStdVNCAuth :: "bool session" where
  "negotiateStdVNCAuth = wait_else 16 0
     (bindx (gets (password \<circ> rfbCredentials)) (\<lambda>p. case p of
        None \<Rightarrow> credentials_required [''password'']
      | Some pw \<Rightarrow>
          bindx (on_sock (rQshiftBytes 16)) (\<lambda>challenge.
          thenx (on_sock (send (genDES pw challenge)))
         (thenx (set_init SecurityResult) (ret True)))))"

text \<open>The last step is \<open>this._negotiateAuthentication()\<close> with the scheme just set to 2, which is VNC authentication.\<close>

definition negotiateXvpAuth :: "bool session" where
  "negotiateXvpAuth = bindx (gets rfbCredentials) (\<lambda>c.
     case (username c, password c, cr_target c) of
       (Some user, Some _, Some target) \<Rightarrow>
         thenx (send_units ([length user mod 65536, length target mod 65536] @ user @ target))
        (thenx (set_scheme 2) negotiateStdVNCAuth)
     | _ \<Rightarrow> credentials_required [''username'', ''password'', ''target''])"

text \<open>VeNCrypt: five states that fall through to the next; the state is kept where bytes are missing.\<close>

definition set_vencrypt :: "nat \<Rightarrow> unit session" where
  "set_vencrypt n = modify (\<lambda>s. s\<lparr>rfbVeNCryptState := n\<rparr>)"

primrec shift32s :: "nat \<Rightarrow> int list session" where
  "shift32s 0 = ret []"
| "shift32s (Suc n) = bindx (on_sock rQshift32) (\<lambda>v. bindx (shift32s n) (\<lambda>vs. ret (v # vs)))"

definition vencrypt_plain :: "bool session" where
  "vencrypt_plain = bindx (gets rfbCredentials) (\<lambda>c.
     case (username c, password c) of
       (Some user, Some pass) \<Rightarrow>
         bindx (lift_result (encodeUTF8 user)) (\<lambda>user.
         bindx (lift_result (encodeUTF8 pass)) (\<lambda>pass.
         let n = int (length user); m = int (length pass) in
         thenx (on_sock (send (map to_byte [js_sar n 24, js_sar n 16, js_sar n 8, n])))
        (thenx (on_sock (send (map to_byte [js_sar m 24, js_sar m 16, js_sar m 8, m])))
        (thenx (on_sock (send user)) (thenx (on_sock (send pass))
        (thenx (set_init SecurityResult) (ret True)))))))
     | _ \<Rightarrow> credentials_required [''username'', ''password''])"

definition vencrypt_subtypes :: "bool session" where
  "vencrypt_subtypes = bindx (gets rfbVeNCryptSubtypesLength) (\<lambda>n. wait_else (4 * n) 0
     (bindx (shift32s (nat n)) (\<lambda>subtypes.
        if 256 \<in> set subtypes then
          thenx (on_sock (send [0, 0, 1, 0])) (thenx (set_vencrypt 4) vencrypt_plain)
        else failing)))"

definition vencrypt_length :: "bool session" where
  "vencrypt_length = wait_else 1 0 (bindx (on_sock rQshift8) (\<lambda>n.
     if n < 1 then failing
     else thenx (modify (\<lambda>s. s\<lparr>rfbVeNCryptSubtypesLength := n, rfbVeNCryptState := 3\<rparr>)) vencrypt_subtypes))"

definition vencrypt_ack :: "bool session" where
  "vencrypt_ack = wait_else 1 0 (bindx (on_sock rQshift8) (\<lambda>res.
     if res \<noteq> 0 then failing else thenx (set_vencrypt 2) vencrypt_length))"

definition vencrypt_version :: "bool session" where
  "vencrypt_version = wait_else 2 0 (bindx (on_sock rQshift8) (\<lambda>major. bindx (on_sock rQshift8) (\<lambda>minor.
     if \<not> (major = 0 \<and> minor = 2) then failing
     else thenx (on_sock (send [0, 2])) (thenx (set_vencrypt 1) vencrypt_ack))))"

definition negotiateVeNCryptAuth :: "bool session" where
  "negotiateVeNCryptAuth = bindx (gets rfbVeNCryptState) (\<lambda>n.
     if n = 0 then vencrypt_version else if n = 1 then vencrypt_ack else if n = 2 then vencrypt_length
     else if n = 3 then vencrypt_subtypes else if n = 4 then vencrypt_plain else ret False)"

definition negotiateTightUnixAuth :: "bool session" where
  "negotiateTightUnixAuth = bindx (gets rfbCredentials) (\<lambda>c.
     case (username c, password c) of
       (Some user, Some pass) \<Rightarrow>
         thenx (on_sock (send [0, 0, 0, to_byte (int (length user))]))
        (thenx (on_sock (send [0, 0, 0, to_byte (int (length pass))]))
        (thenx (send_units user) (thenx (send_units pass) (thenx (set_init SecurityResult) (ret True)))))
     | _ \<Rightarrow> credentials_required [''username'', ''password''])"

primrec shift_tunnels :: "nat \<Rightarrow> (int \<times> string \<times> string) list session" where
  "shift_tunnels 0 = ret []"
| "shift_tunnels (Suc n) = bindx (on_sock rQshift32) (\<lambda>c. bindx (on_sock (rQshiftStr 4)) (\<lambda>v.
     bindx (on_sock (rQshiftStr 8)) (\<lambda>g. bindx (shift_tunnels n) (\<lambda>ts. ret ((c, v, g) # ts)))))"

text \<open>Later entries of the same type replace earlier ones.\<close>

definition negotiateTightTunnels :: "nat \<Rightarrow> bool session" where
  "negotiateTightTunnels numTunnels = bindx (shift_tunnels numTunnels) (\<lambda>ts.
     let types = map_of (rev ts);
         types = (if types 1 = Some (''SICR'', ''SCHANNEL'') then types(0 \<mapsto> (''TGHT'', ''NOTUNNEL'')) else types)
     in case types 0 of
          Some t \<Rightarrow> if t \<noteq> (''TGHT'', ''NOTUNNEL'') then failing
            else thenx (on_sock (send [0, 0, 0, 0])) (ret False)
        | None \<Rightarrow> failing)"

primrec shift_caps :: "nat \<Rightarrow> string list session" where
  "shift_caps 0 = ret []"
| "shift_caps (Suc n) = bindx (on_sock rQshift32) (\<lambda>_. bindx (on_sock (rQshiftStr 12)) (\<lambda>c.
     bindx (shift_caps n) (\<lambda>cs. ret (c # cs))))"

definition tight_subauth :: "bool session \<Rightarrow> bool session" where
  "tight_subauth again = wait_else 4 0 (bindx (on_sock rQshift32) (\<lambda>n.
     if n = 0 then thenx (set_init SecurityResult) (ret True)
     else wait_else (16 * n) 4 (bindx (shift_caps (nat n)) (\<lambda>types.
       if ''STDVNOAUTH__'' \<in> set types then
         thenx (on_sock (send [0, 0, 0, 1])) (thenx (set_init SecurityResult) (ret True))
       else if ''STDVVNCAUTH_'' \<in> set types then
         thenx (on_sock (send [0, 0, 0, 2])) (thenx (set_scheme 2) again)
       else if ''TGHTULGNAUTH'' \<in> set types then
         thenx (on_sock (send [0, 0, 0, 129])) (thenx (set_scheme 129) again)
       else failing))))"

definition negotiateTightAuth :: "bool session \<Rightarrow> bool session" where
  "negotiateTightAuth again = bindx (gets rfbTightVNC) (\<lambda>t.
     if \<not> t then wait_else 4 0 (bindx (on_sock rQshift32) (\<lambda>n.
       let cont = thenx (modify (\<lambda>s. s\<lparr>rfbTightVNC := True\<rparr>))
         (if n > 0 then thenx (negotiateTightTunnels (nat n)) (ret False) else tight_subauth again)
       in if n > 0 then wait_else (16 * n) 4 cont else cont))
     else tight_subauth again)"

definition negotiateAuthentication :: "bool session \<Rightarrow> bool session" where
  "negotiateAuthentication again = bindx (gets id) (\<lambda>s.
     let scheme = rfbAuthScheme s in
     if scheme = 1 then
       if rfbVersion s \<ge> 38 then thenx (set_init SecurityResult) (ret True)
       else thenx (set_init ClientInitialisation) again
     else if scheme = 22 then negotiateXvpAuth
     else if scheme = 2 then negotiateStdVNCAuth
     else if scheme = 16 then negotiateTightAuth again
     else if scheme = 19 then negotiateVeNCryptAuth
     else if scheme = 129 then negotiateTightUnixAuth
     else failing)"

definition handleSecurityResult :: "bool session \<Rightarrow> bool session" where
  "handleSecurityResult again = wait_else 4 0 (bindx (on_sock rQshift32) (\<lambda>status.
     if status = 0 then thenx (set_init ClientInitialisation) again
     else bindx (gets rfbVersion) (\<lambda>v.
       if v \<ge> 38 then security_reason status again
       else thenx (dispatch (EvSecurityFailure status [])) failing)))"

section \<open>Server initialisation\<close>

definition skip_bytes :: "int \<Rightarrow> unit session" where
  "skip_bytes n = on_sock (modify (rQskipBytes (nat n)))"

text \<open>The rest of \<open>_negotiateServerInit\<close> once everything is read.\<close>

definition server_init_done :: "rfb_env \<Rightarrow> int \<Rightarrow> int \<Rightarrow> js_string \<Rightarrow> bool session" where
  "server_init_done env width height name =
     thenx (setDesktopName name)
    (thenx (rfb_resize width height)
    (bindx (gets viewOnly) (\<lambda>v.
     thenx (if \<not> v then on_kb grab else ret ())
    (thenx (modify (\<lambda>s. s\<lparr>fbDepth := (if fbName s = units ''Intel(r) AMT KVM'' then 8 else 24)\<rparr>))
    (bindx (gets id) (\<lambda>s.
     thenx (tell (pixelFormat (fbDepth s) True))
    (thenx sendEncodings
    (thenx (tell (fbUpdateRequest False 0 0 (fbW s) (fbH s)))
    (thenx (updateConnectionState env Connected) (ret True))))))))))"

text \<open>\<open>rQwait\<close> with a step back that is computed from the length of the name, and can be negative.\<close>

definition rQwait_back :: "int \<Rightarrow> int \<Rightarrow> (websock, bool) exec" where
  "rQwait_back num goback =
     (if goback \<ge> 0 then rQwait num (nat goback)
      else (\<lambda>t. if rQlen t < num then (Inr True, rQskipBytes (nat (- goback)) t) else (Inr False, t)))"

definition wait_back_else :: "int \<Rightarrow> int \<Rightarrow> bool session \<Rightarrow> bool session" where
  "wait_back_else n goback m = bindx (on_sock (rQwait_back n goback)) (\<lambda>w. if w then ret False else m)"

text \<open>The capabilities a TightVNC server adds: their count and the lists themselves are skipped.\<close>

definition tight_capabilities :: "int \<Rightarrow> bool session \<Rightarrow> bool session" where
  "tight_capabilities nameLength m = wait_back_else 8 (24 + nameLength)
     (bindx (on_sock rQshift16) (\<lambda>numServer.
      bindx (on_sock rQshift16) (\<lambda>numClient.
      bindx (on_sock rQshift16) (\<lambda>numEncodings.
      thenx (skip_bytes 2)
        (wait_back_else ((numServer + numClient + numEncodings) * 16) (32 + nameLength)
          (thenx (skip_bytes (16 * numServer))
          (thenx (skip_bytes (16 * numClient))
          (thenx (skip_bytes (16 * numEncodings)) m))))))))"

definition negotiateServerInit :: "rfb_env \<Rightarrow> bool session" where
  "negotiateServerInit env = wait_else 24 0
     (bindx (on_sock rQshift16) (\<lambda>width.
      bindx (on_sock rQshift16) (\<lambda>height.
      thenx (skip_bytes 16)
     (bindx (on_sock rQshift32) (\<lambda>nameLength.
      wait_else nameLength 24
        (bindx (on_sock (rQshiftStr nameLength)) (\<lambda>str.
         bindx (lift_result (decodeUTF8 (units str) True)) (\<lambda>name.
         bindx (gets rfbTightVNC) (\<lambda>t.
           (if t then tight_capabilities nameLength else id) (server_init_done env width height name))))))))))"

section \<open>The dispatcher\<close>

definition clientInitialisation :: "bool session" where
  "clientInitialisation = bindx (gets shared) (\<lambda>sh.
     thenx (on_sock (send [if sh then 1 else 0])) (thenx (set_init ServerInitialisation) (ret True)))"

text \<open>\<open>_initMsg\<close> with the depth of its calls as fuel; \<open>stop\<close> stands for a call deeper than that.\<close>

primrec initMsg :: "bool session \<Rightarrow> nat \<Rightarrow> rfb_env \<Rightarrow> bool session" where
  "initMsg stop 0 env = stop"
| "initMsg stop (Suc n) env = bindx (gets rfbInitState) (\<lambda>i. case i of
     ProtocolVersion \<Rightarrow> negotiateProtocolVersion
   | Security \<Rightarrow> negotiateSecurity (initMsg stop n env)
   | Authentication \<Rightarrow> negotiateAuthentication (initMsg stop n env)
   | SecurityResult \<Rightarrow> handleSecurityResult (initMsg stop n env)
   | SecurityReason \<Rightarrow> handleSecurityReason
   | ClientInitialisation \<Rightarrow> clientInitialisation
   | ServerInitialisation \<Rightarrow> negotiateServerInit env
   | NoInit \<Rightarrow> failing)"

definition init_fuel :: nat where
  "init_fuel = 3"

definition init_message :: "rfb_env \<Rightarrow> bool session" where
  "init_message env = initMsg (throw no_return) init_fuel env"

text \<open>The timer of \<open>sendCredentials\<close> calls \<open>_initMsg\<close>.\<close>

definition sendCredentials :: "credentials \<Rightarrow> unit session" where
  "sendCredentials creds = modify (\<lambda>s. s\<lparr>rfbCredentials := creds\<rparr>)"

end
