(* ===== verification/Exec_Frames.thy ===== *)
theory Exec_Frames
  imports JS_Prelude
begin

text \<open>
  What a computation may do to the state, proved by its structure. \<open>runs strict R m\<close>: every run of \<open>m\<close>
  ends in a state related to the one it started in; if \<open>strict\<close>, the runs that throw do not count.
  For a reflexive and transitive relation this is closed under the constructs of the language; the locale
  \<open>frame\<close> states the rules once, and the theories on the session interpret it for their relations.
\<close>

definition runs :: "bool \<Rightarrow> ('s \<Rightarrow> 's \<Rightarrow> bool) \<Rightarrow> ('s, 'a) exec \<Rightarrow> bool" where
  "runs strict R m \<longleftrightarrow> (\<forall>s. (strict \<longrightarrow> (\<exists>a. fst (m s) = Inr a)) \<longrightarrow> R s (snd (m s)))"

text \<open>\<open>try m catch h\<close>: the handler starts in the state the exception left.\<close>

definition try_catch :: "('s, 'a) exec \<Rightarrow> ('s, 'a) exec \<Rightarrow> ('s, 'a) exec" where
  "try_catch m h = (\<lambda>s. case m s of (r, s') \<Rightarrow> (case r of Inl e \<Rightarrow> h s' | Inr a \<Rightarrow> (Inr a, s')))"

lemma runsD: "runs False R m \<Longrightarrow> R s (snd (m s))"
  by (simp add: runs_def)

lemma runs_strictD: "runs True R m \<Longrightarrow> fst (m s) = Inr a \<Longrightarrow> R s (snd (m s))"
  by (simp add: runs_def)

lemma runs_all: "(\<And>s. R s (snd (m s))) \<Longrightarrow> runs strict R m"
  by (simp add: runs_def)

lemma runs_mono: "runs strict R m \<Longrightarrow> (\<And>s t. R s t \<Longrightarrow> R' s t) \<Longrightarrow> runs strict R' m"
  by (simp add: runs_def)

lemma snd_bindx: "snd (bindx m f s) = (case fst (m s) of Inl e \<Rightarrow> snd (m s) | Inr a \<Rightarrow> snd (f a (snd (m s))))"
  by (simp add: bindx_def split: prod.splits sum.splits)

lemma fst_bindx: "fst (bindx m f s) = (case fst (m s) of Inl e \<Rightarrow> Inl e | Inr a \<Rightarrow> fst (f a (snd (m s))))"
  by (simp add: bindx_def split: prod.splits sum.splits)

lemma bindx_returns:
  assumes "bindx m f s = (Inr b, t)"
  obtains a u where "m s = (Inr a, u)" "f a u = (Inr b, t)"
  using assms by (auto simp: bindx_def split: prod.splits sum.splits)

section \<open>Rules\<close>

text \<open>Conditionals and cases: the relation does not matter.\<close>

lemma runs_if: "(P \<Longrightarrow> runs strict R m) \<Longrightarrow> (\<not> P \<Longrightarrow> runs strict R n) \<Longrightarrow> runs strict R (if P then m else n)"
  by simp

lemma runs_option: "(x = None \<Longrightarrow> runs strict R m) \<Longrightarrow> (\<And>a. x = Some a \<Longrightarrow> runs strict R (f a)) \<Longrightarrow>
    runs strict R (case x of None \<Rightarrow> m | Some a \<Rightarrow> f a)"
  by (cases x) simp_all

lemma runs_prod: "(\<And>a b. p = (a, b) \<Longrightarrow> runs strict R (f a b)) \<Longrightarrow> runs strict R (case p of (a, b) \<Rightarrow> f a b)"
  by (cases p) simp

lemma runs_Let: "runs strict R (f x) \<Longrightarrow> runs strict R (let a = x in f a)"
  by simp

lemma runs_zoom:
  assumes "runs strict S m" and "\<And>s t. S (get s) t \<Longrightarrow> R s (put t s)"
  shows "runs strict R (zoom get put m)"
  using assms unfolding runs_def zoom_def case_prod_unfold by simp

lemma runs_zoom_any: "(\<And>s t. R s (put t s)) \<Longrightarrow> runs strict R (zoom get put m)"
  by (rule runs_zoom [where S = "\<lambda>_ _. True"]) (simp_all add: runs_def)

lemma runs_modify: "(\<And>s. R s (f s)) \<Longrightarrow> runs strict R (modify f)"
  by (simp add: runs_def modify_def)

lemmas runs_cases = runs_if runs_option runs_prod runs_Let

locale frame =
  fixes strict :: bool and R :: "'s \<Rightarrow> 's \<Rightarrow> bool"
  assumes refl: "R s s"
    and trans: "R s t \<Longrightarrow> R t u \<Longrightarrow> R s u"
begin

lemma ret: "runs strict R (ret a)"
  by (simp add: runs_def ret_def refl)

lemma throw: "runs strict R (throw e)"
  by (simp add: runs_def throw_def refl)

lemma gets: "runs strict R (gets f)"
  by (simp add: runs_def gets_def refl)

lemma bindx: "runs strict R m \<Longrightarrow> (\<And>a. runs strict R (f a)) \<Longrightarrow> runs strict R (bindx m f)"
  unfolding runs_def snd_bindx fst_bindx by (force split: sum.splits intro: trans)

lemma thenx: "runs strict R m \<Longrightarrow> runs strict R n \<Longrightarrow> runs strict R (thenx m n)"
  unfolding thenx_def by (rule bindx)

text \<open>A value and no change: \<open>\<lambda>s. (f s, s)\<close>.\<close>

lemma valued: "runs strict R (\<lambda>s. (f s, s))"
  by (simp add: runs_def refl)

lemmas rules = ret throw gets bindx thenx valued runs_cases

end

end
