(* ===== verification/RFB_Messages.thy ===== *)
theory RFB_Messages
  imports RFB_Handshake Exec_Frames
begin

text \<open>
  \<^verbatim>\<open>core/rfb.js\<close>, the connected session: the dispatcher of incoming data (\<open>_handleMessage\<close>), the server's
  messages, framebuffer updates with their rectangles, pseudo-encodings and decoders, and the receipt of
  data from the socket. Loops that count something down have the count as fuel; the loop of
  \<open>_handleMessage\<close> has a fuel argument, and \<open>message_fuel\<close> is enough (\<open>Session_Progress\<close>).
\<close>

section \<open>Clipboard\<close>

definition setColourMap :: "bool session" where
  "setColourMap = failing"

text \<open>The bits of the formats and of the actions, as the numbers \<open>1 << i\<close>.\<close>

definition bits :: "nat \<Rightarrow> nat \<Rightarrow> int list" where
  "bits lo hi = map (js_shl 1) [lo..<hi]"

definition has_bit :: "int \<Rightarrow> int \<Rightarrow> bool" where
  "has_bit v b \<longleftrightarrow> js_and v b \<noteq> 0"

primrec shift_sizes :: "int \<Rightarrow> int list \<Rightarrow> int list session" where
  "shift_sizes formats [] = ret []"
| "shift_sizes formats (b # bs) =
     (if has_bit formats b then bindx (on_sock rQshift32) (\<lambda>_. bindx (shift_sizes formats bs) (\<lambda>r. ret (b # r)))
      else shift_sizes formats bs)"

text \<open>\<open>extendedClipboardCaps\<close> is called with an object whose only key is the string
  \<open>extendedClipboardFormatText\<close>, not the number.\<close>

definition clipboard_caps :: "int \<Rightarrow> int \<Rightarrow> bool session" where
  "clipboard_caps formats actions =
     bindx (shift_sizes formats (bits 0 16)) (\<lambda>fs.
     thenx (modify (\<lambda>s. s\<lparr>clipboardServerFormats := fs,
       clipboardServerActions := filter (has_bit actions) (bits 24 32)\<rparr>))
    (thenx (tell_option (extendedClipboardCaps [extendedClipboardActionCaps, extendedClipboardActionRequest,
        extendedClipboardActionPeek, extendedClipboardActionNotify, extendedClipboardActionProvide] [(None, 0)]))
      (ret True)))"

definition tell_provide :: "(byte list \<Rightarrow> byte list) \<Rightarrow> js_string \<Rightarrow> unit session" where
  "tell_provide deflate text s =
     (case extendedClipboardProvide deflate [extendedClipboardFormatText] [text] (sock s) of
        Inl e \<Rightarrow> (Inl e, s)
      | Inr r \<Rightarrow> tell_option (\<lambda>_. r) s)"

definition clipboard_request :: "rfb_env \<Rightarrow> int \<Rightarrow> bool session" where
  "clipboard_request env formats = bindx (gets id) (\<lambda>s.
     thenx (case clipboardText s of
         None \<Rightarrow> ret ()
       | Some text \<Rightarrow>
           if extendedClipboardActionProvide \<in> set (clipboardServerActions s)
             \<and> has_bit formats extendedClipboardFormatText
           then tell_provide (env_deflate env) text else ret ())
       (ret True))"

definition clipboard_peek :: "bool session" where
  "clipboard_peek = bindx (gets id) (\<lambda>s.
     thenx (if extendedClipboardActionNotify \<in> set (clipboardServerActions s)
            then tell_option (extendedClipboardNotify
              (if clipboardText s \<noteq> None then [extendedClipboardFormatText] else []))
            else ret ())
       (ret True))"

definition clipboard_notify :: "int \<Rightarrow> bool session" where
  "clipboard_notify formats = bindx (gets id) (\<lambda>s.
     thenx (if extendedClipboardActionRequest \<in> set (clipboardServerActions s)
              \<and> has_bit formats extendedClipboardFormatText
            then tell_option (extendedClipboardRequest [extendedClipboardFormatText]) else ret ())
       (ret True))"

text \<open>The sizes and chunks of the formats provided; the result is the chunk of the text format.\<close>

definition chunk_size :: "byte list \<Rightarrow> int" where
  "chunk_size a = js_or (js_or (js_or (js_or 0 (js_shl (uint (elt a 0)) 24)) (js_shl (uint (elt a 1)) 16))
     (js_shl (uint (elt a 2)) 8)) (uint (elt a 3))"

primrec inflate_formats :: "pako \<Rightarrow> int \<Rightarrow> int list \<Rightarrow> byte list option \<Rightarrow> (inflator, byte list option) exec" where
  "inflate_formats pako formats [] textData = ret textData"
| "inflate_formats pako formats (b # bs) textData =
     (if has_bit formats b then
        bindx (inflate pako 4) (\<lambda>sizeArray.
        bindx (inflate pako (chunk_size sizeArray)) (\<lambda>chunk.
        inflate_formats pako formats bs (if b = extendedClipboardFormatText then Some chunk else textData)))
      else inflate_formats pako formats bs textData)"

text \<open>\<open>replace\<close> with a string replaces the first occurrence only.\<close>

fun replace_crlf :: "js_string \<Rightarrow> js_string" where
  "replace_crlf (a # b # cs) = (if a = 13 \<and> b = 10 then 10 # cs else a # replace_crlf (b # cs))"
| "replace_crlf cs = cs"

definition drop_nul :: "js_string \<Rightarrow> js_string" where
  "drop_nul t = (if t \<noteq> [] \<and> last t = 0 then butlast t else t)"

definition clipboard_provide :: "rfb_env \<Rightarrow> int \<Rightarrow> int \<Rightarrow> bool session" where
  "clipboard_provide env formats len =
     (if \<not> has_bit formats extendedClipboardFormatText then ret True else
      thenx (modify (\<lambda>s. s\<lparr>clipboardText := None\<rparr>))
     (bindx (on_sock (rQshiftBytes (len - 4))) (\<lambda>zlibStream.
      bindx (lift_result (fst (inflate_formats (env_pako env) formats (bits 0 16) None
        (setInput (Some zlibStream) new_inflator)))) (\<lambda>textData. case textData of
          None \<Rightarrow> ret True
        | Some bs \<Rightarrow>
            bindx (lift_result (decodeUTF8 (units_of_bytes bs) False)) (\<lambda>text.
            thenx (dispatch (EvClipboard (replace_crlf (drop_nul text)))) (ret True))))))"

definition extended_clipboard :: "rfb_env \<Rightarrow> int \<Rightarrow> bool session" where
  "extended_clipboard env len = bindx (on_sock rQshift32) (\<lambda>flags. bindx (gets viewOnly) (\<lambda>v.
     let formats = js_and flags 0x0000FFFF; actions = js_and flags 0xFF000000 in
     if has_bit actions extendedClipboardActionCaps then clipboard_caps formats actions
     else if actions = extendedClipboardActionRequest then (if v then ret True else clipboard_request env formats)
     else if actions = extendedClipboardActionPeek then (if v then ret True else clipboard_peek)
     else if actions = extendedClipboardActionNotify then (if v then ret True else clipboard_notify formats)
     else if actions = extendedClipboardActionProvide then
       (if v then ret True else clipboard_provide env formats len)
     else failing))"

definition handleServerCutText :: "rfb_env \<Rightarrow> bool session" where
  "handleServerCutText env = wait_else 7 1
     (thenx (skip_bytes 3)
     (bindx (on_sock rQshift32) (\<lambda>n.
      let len = toSigned32bit n in
      wait_else \<bar>len\<bar> 8
       (if len \<ge> 0 then
          bindx (on_sock (rQshiftStr len)) (\<lambda>text. bindx (gets viewOnly) (\<lambda>v.
          thenx (if v then ret () else dispatch (EvClipboard (units text))) (ret True)))
        else extended_clipboard env \<bar>len\<bar>))))"

section \<open>Fence and XVP\<close>

definition handleServerFenceMsg :: "bool session" where
  "handleServerFenceMsg = wait_else 8 1
     (thenx (skip_bytes 3)
     (bindx (on_sock rQshift32) (\<lambda>flags.
      bindx (on_sock rQshift8) (\<lambda>len.
      wait_else len 9
       (bindx (on_sock (rQshiftStr (if len > 64 then 64 else len))) (\<lambda>payload.
        thenx (modify (\<lambda>s. s\<lparr>supportsFence := True\<rparr>))
        (if \<not> has_bit flags (js_shl 1 31) then failing
         else thenx (tell (clientFence (js_and flags (js_or (js_shl 1 0) (js_shl 1 1))) payload)) (ret True))))))))"

definition handleXvpMsg :: "bool session" where
  "handleXvpMsg = wait_else 3 1
     (thenx (skip_bytes 1)
     (bindx (on_sock rQshift8) (\<lambda>xvpVer.
      bindx (on_sock rQshift8) (\<lambda>xvpMsg.
      thenx (if xvpMsg = 0 then ret ()
             else if xvpMsg = 1 then
               thenx (modify (\<lambda>s. s\<lparr>rfbXvpVer := xvpVer\<rparr>)) (setCapability_power True)
             else thenx fail (ret ()))
        (ret True)))))"

section \<open>Cursors\<close>

text \<open>A pixel of a classic cursor from its two mask words.\<close>

definition PIXEL_MASK :: int where
  "PIXEL_MASK = js_or 0xffffff00 0"

definition classic_pixel :: "int \<Rightarrow> int \<Rightarrow> byte list" where
  "classic_pixel a x =
     (if a = 0 then
        [to_byte (js_and (js_sar x 8) 0xff), to_byte (js_and (js_sar x 16) 0xff),
         to_byte (js_and (js_sar x 24) 0xff), 255]
      else if js_and a PIXEL_MASK = PIXEL_MASK then
        (if x = 0 then [0, 0, 0, 0]
         else if js_and x PIXEL_MASK = PIXEL_MASK then [0, 0, 0, 255] else [0, 0, 0, 255])
      else [0, 0, 0, 255])"

definition alpha_pixel :: "int \<Rightarrow> byte list" where
  "alpha_pixel d = map (\<lambda>n. to_byte (js_and (js_sar d n) 0xff)) [24, 16, 8] @ [to_byte (js_and d 0xff)]"

text \<open>\<open>new Array(n)\<close> refuses a length that is not a 32-bit number. The queue is shorter than that, so only the array
  made before a wait is checked.\<close>

definition handleVMwareCursor :: "rfb_env \<Rightarrow> bool session" where
  "handleVMwareCursor env = bindx (gets FBU) (\<lambda>f.
     let w = fbu_w f; h = fbu_h f; n = nat (w * h);
         done = (\<lambda>rgba. thenx (updateCursor env rgba (fbu_x f) (fbu_y f) w h) (ret True)) in
     wait_else 1 0
      (bindx (on_sock rQshift8) (\<lambda>cursorType.
       bindx (on_sock rQshift8) (\<lambda>_.
       if cursorType = 0 then
         (if w * h * 4 \<ge> 2 ^ 32 then throw RangeError else
          wait_else (w * h * 4 * 2) 2
          (bindx (shift32s n) (\<lambda>andMask.
           bindx (shift32s n) (\<lambda>xorMask.
           done (concat (map2 classic_pixel andMask xorMask))))))
       else if cursorType = 1 then
         wait_else (w * h * 4) 2
          (bindx (shift32s n) (\<lambda>pixels. done (concat (map alpha_pixel pixels))))
       else ret False))))"

definition cursor_row_bytes :: "nat \<Rightarrow> nat" where
  "cursor_row_bytes w = (w + 7) div 8"

definition cursor_pixel :: "nat \<Rightarrow> byte list \<Rightarrow> byte list \<Rightarrow> nat \<Rightarrow> nat \<Rightarrow> byte list" where
  "cursor_pixel w pixels msk y x =
     (let maskIdx = y * cursor_row_bytes w + x div 8; pixIdx = (y * w + x) * 4;
          alpha = (if js_and (js_shl (uint (elt msk maskIdx)) (x mod 8)) 0x80 \<noteq> 0 then 255 else 0)
      in [elt pixels (pixIdx + 2), elt pixels (pixIdx + 1), elt pixels pixIdx, alpha])"

definition handleCursor :: "rfb_env \<Rightarrow> bool session" where
  "handleCursor env = bindx (gets FBU) (\<lambda>f.
     let w = fbu_w f; h = fbu_h f;
         pixelslength = w * h * 4;
         masklength = int (cursor_row_bytes (nat w)) * h in
     wait_else (pixelslength + masklength) 0
      (bindx (on_sock (rQshiftBytes pixelslength)) (\<lambda>pixels.
       bindx (on_sock (rQshiftBytes masklength)) (\<lambda>msk.
       thenx (updateCursor env
           (concat (map (\<lambda>y. concat (map (cursor_pixel (nat w) pixels msk y) [0..<nat w])) [0..<nat h]))
           (fbu_x f) (fbu_y f) w h)
         (ret True)))))"

section \<open>Desktop name and size\<close>

definition handleDesktopName :: "bool session" where
  "handleDesktopName = wait_else 4 0
     (bindx (on_sock rQshift32) (\<lambda>len.
      wait_else len 4
       (bindx (on_sock (rQshiftStr len)) (\<lambda>str.
        bindx (lift_result (decodeUTF8 (units str) True)) (\<lambda>name.
        thenx (setDesktopName name) (ret True))))))"

text \<open>The identifier and the flags of the first screen are kept as views of the receive buffer.\<close>

definition first_screen :: "unit session" where
  "first_screen =
     bindx (on_sock (rQshiftBytes 4)) (\<lambda>i.
     thenx (modify (\<lambda>s. s\<lparr>screenID := Bytes i\<rparr>))
    (thenx (skip_bytes 2) (thenx (skip_bytes 2) (thenx (skip_bytes 2) (thenx (skip_bytes 2)
    (bindx (on_sock (rQshiftBytes 4)) (\<lambda>fl. modify (\<lambda>s. s\<lparr>screenFlags := Bytes fl\<rparr>))))))))"

primrec skip_screens :: "nat \<Rightarrow> unit session" where
  "skip_screens 0 = ret ()"
| "skip_screens (Suc n) = thenx (skip_bytes 16) (skip_screens n)"

definition read_screens :: "nat \<Rightarrow> unit session" where
  "read_screens n = (if n = 0 then ret () else thenx first_screen (skip_screens (n - 1)))"

definition handleExtendedDesktopSize :: "bool session" where
  "handleExtendedDesktopSize = wait_else 4 0
     (bindx (on_sock (gets rQpeek8)) (\<lambda>numberOfScreens.
      wait_else (4 + numberOfScreens * 16) 0
       (bindx (gets supportsSetDesktopSize) (\<lambda>supported.
        thenx (modify (\<lambda>s. s\<lparr>supportsSetDesktopSize := True\<rparr>))
       (thenx (if \<not> supported then requestRemoteResize else ret ())
       (thenx (skip_bytes 1) (thenx (skip_bytes 3)
       (thenx (read_screens (nat numberOfScreens))
       (bindx (gets FBU) (\<lambda>f.
        thenx (if fbu_x f = 1 \<and> fbu_y f \<noteq> 0 then ret () else rfb_resize (fbu_w f) (fbu_h f))
          (ret True)))))))))))"

section \<open>Rectangles\<close>

text \<open>A decoder of the tight family works on the socket, the display and its own object.\<close>

definition on_tight :: "(tight_ctx, 'a) exec \<Rightarrow> 'a session" where
  "on_tight = zoom (\<lambda>s. \<lparr>sock = sock s, disp = disp s, this = tight_dec s\<rparr>)
     (\<lambda>t s. s\<lparr>sock := sock t, disp := disp t, tight_dec := this t\<rparr>)"

definition on_tightpng :: "(tight_ctx, 'a) exec \<Rightarrow> 'a session" where
  "on_tightpng = zoom (\<lambda>s. \<lparr>sock = sock s, disp = disp s, this = tightpng_dec s\<rparr>)
     (\<lambda>t s. s\<lparr>sock := sock t, disp := disp t, tightpng_dec := this t\<rparr>)"

text \<open>The table of decoders.\<close>

definition decoder :: "rfb_env \<Rightarrow> int \<Rightarrow> int \<Rightarrow> (int \<Rightarrow> int \<Rightarrow> int \<Rightarrow> int \<Rightarrow> bool session) option" where
  "decoder env depth enc =
     (if enc = encodingRaw then Some (\<lambda>x y w h. raw_decodeRect x y w h depth)
      else if enc = encodingCopyRect then Some copyrect_decodeRect
      else if enc = encodingRRE then Some rre_decodeRect
      else if enc = encodingHextile then Some hextile_decodeRect
      else if enc = encodingTight then Some (\<lambda>x y w h. on_tight (tight_decodeRect (env_pako env) x y w h))
      else if enc = encodingTightPNG then Some (\<lambda>x y w h. on_tightpng (tightpng_decodeRect x y w h))
      else None)"

definition handleDataRect :: "rfb_env \<Rightarrow> int \<Rightarrow> bool session" where
  "handleDataRect env enc = bindx (gets id) (\<lambda>s.
     case decoder env (fbDepth s) enc of
       None \<Rightarrow> failing
     | Some d \<Rightarrow> try_catch (d (fbu_x (FBU s)) (fbu_y (FBU s)) (fbu_w (FBU s)) (fbu_h (FBU s))) failing)"

definition handleRect :: "rfb_env \<Rightarrow> bool session" where
  "handleRect env = bindx (gets FBU) (\<lambda>f. let enc = the (encoding f) in
     if enc = pseudoEncodingLastRect then thenx (modify (\<lambda>s. s\<lparr>FBU := (FBU s)\<lparr>rects := 1\<rparr>\<rparr>)) (ret True)
     else if enc = pseudoEncodingVMwareCursor then handleVMwareCursor env
     else if enc = pseudoEncodingCursor then handleCursor env
     else if enc = pseudoEncodingQEMUExtendedKeyEvent then
       thenx (modify (\<lambda>s. s\<lparr>qemuExtKeyEventSupported := True\<rparr>)) (ret True)
     else if enc = pseudoEncodingDesktopName then handleDesktopName
     else if enc = pseudoEncodingDesktopSize then thenx (rfb_resize (fbu_w f) (fbu_h f)) (ret True)
     else if enc = pseudoEncodingExtendedDesktopSize then handleExtendedDesktopSize
     else handleDataRect env enc)"

definition rect_header :: "byte list \<Rightarrow> fbu \<Rightarrow> fbu" where
  "rect_header hdr f =
     (let b = (\<lambda>i. uint (elt hdr i)) in
      f\<lparr>fbu_x := js_shl (b 0) 8 + b 1, fbu_y := js_shl (b 2) 8 + b 3,
        fbu_w := js_shl (b 4) 8 + b 5, fbu_h := js_shl (b 6) 8 + b 7,
        encoding := Some (js_shl (b 8) 24 + js_shl (b 9) 16 + js_shl (b 10) 8 + b 11)\<rparr>)"

definition rect_done :: "unit session" where
  "rect_done = modify (\<lambda>s. s\<lparr>FBU := (FBU s)\<lparr>rects := rects (FBU s) - 1, encoding := None\<rparr>\<rparr>)"

text \<open>The loop; every turn counts a rectangle down, and nothing raises the count.\<close>

primrec rect_loop :: "nat \<Rightarrow> rfb_env \<Rightarrow> bool session" where
  "rect_loop 0 env = ret True"
| "rect_loop (Suc n) env = bindx (gets FBU) (\<lambda>f.
     let go = bindx (handleRect env) (\<lambda>r.
           if \<not> r then ret False else thenx rect_done (rect_loop n env)) in
     if rects f > 0 then
       (if encoding f = None then
          wait_else 12 0
           (bindx (on_sock (rQshiftBytes 12)) (\<lambda>hdr.
            thenx (modify (\<lambda>s. s\<lparr>FBU := rect_header hdr (FBU s)\<rparr>)) go))
        else go)
     else ret True)"

definition update_rects :: "rfb_env \<Rightarrow> bool session" where
  "update_rects env = bindx (gets (nat \<circ> rects \<circ> FBU)) (\<lambda>n.
     bindx (rect_loop n env) (\<lambda>r. if \<not> r then ret False else thenx (on_disp flip) (ret True)))"

definition framebufferUpdate :: "rfb_env \<Rightarrow> bool session" where
  "framebufferUpdate env = bindx (gets (rects \<circ> FBU)) (\<lambda>n.
     if n = 0 then
       wait_else 3 1
        (thenx (skip_bytes 1)
        (bindx (on_sock rQshift16) (\<lambda>n.
         thenx (modify (\<lambda>s. s\<lparr>FBU := (FBU s)\<lparr>rects := n\<rparr>\<rparr>))
        (bindx (gets (pending \<circ> disp)) (\<lambda>p.
           if p then
             thenx (modify (\<lambda>s. s\<lparr>rfb_flushing := True\<rparr>))
            (thenx (on_disp (modify flush_display)) (ret False))
           else update_rects env)))))
     else update_rects env)"

section \<open>Messages\<close>

definition handleFBU :: "rfb_env \<Rightarrow> bool session" where
  "handleFBU env = bindx (framebufferUpdate env) (\<lambda>r. bindx (gets id) (\<lambda>s.
     thenx (if r \<and> \<not> enabledContinuousUpdates s
            then tell (fbUpdateRequest True 0 0 (fbW s) (fbH s)) else ret ())
       (ret r)))"

definition endOfContinuousUpdates :: "bool session" where
  "endOfContinuousUpdates = bindx (gets supportsContinuousUpdates) (\<lambda>supported.
     thenx (modify (\<lambda>s. s\<lparr>supportsContinuousUpdates := True, enabledContinuousUpdates := False\<rparr>))
    (thenx (if \<not> supported then
              thenx (modify (\<lambda>s. s\<lparr>enabledContinuousUpdates := True\<rparr>)) updateContinuousUpdates
            else ret ())
      (ret True)))"

definition normal_message :: "rfb_env \<Rightarrow> int \<Rightarrow> bool session" where
  "normal_message env msgType =
     (if msgType = 0 then handleFBU env
      else if msgType = 1 then setColourMap
      else if msgType = 2 then thenx (dispatch EvBell) (ret True)
      else if msgType = 3 then handleServerCutText env
      else if msgType = 150 then endOfContinuousUpdates
      else if msgType = 248 then handleServerFenceMsg
      else if msgType = 250 then handleXvpMsg
      else thenx fail (bindx (gets sock) (\<lambda>t. bindx (lift_result (rQslice 0 30 t)) (\<lambda>_. ret True))))"

definition normalMsg :: "rfb_env \<Rightarrow> bool session" where
  "normalMsg env = bindx (gets (rects \<circ> FBU)) (\<lambda>n.
     if n > 0 then normal_message env 0 else bindx (on_sock rQshift8) (normal_message env))"

text \<open>The loop with its turns as fuel; \<open>stop\<close> stands for a turn more.\<close>

primrec message_loop :: "unit session \<Rightarrow> nat \<Rightarrow> rfb_env \<Rightarrow> unit session" where
  "message_loop stop 0 env = stop"
| "message_loop stop (Suc n) env = bindx (gets rfb_flushing) (\<lambda>f.
     if f then ret () else bindx (normalMsg env) (\<lambda>r.
     if \<not> r then ret () else bindx (gets (rQlen \<circ> sock)) (\<lambda>l.
     if l = 0 then ret () else message_loop stop n env)))"

definition message_fuel :: "rfb \<Rightarrow> nat" where
  "message_fuel s = 2 * length (rQ (sock s)) + 3"

definition handleMessage :: "rfb_env \<Rightarrow> unit session" where
  "handleMessage env = bindx (gets id) (\<lambda>s.
     if rQlen (sock s) = 0 then ret ()
     else case rfbConnectionState s of
       Disconnected \<Rightarrow> ret ()
     | Connected \<Rightarrow> message_loop (throw no_return) (message_fuel s) env
     | _ \<Rightarrow> thenx (init_message env) (ret ()))"

definition onFlush :: "rfb_env \<Rightarrow> unit session" where
  "onFlush env = thenx (modify (\<lambda>s. s\<lparr>rfb_flushing := False\<rparr>))
     (bindx (gets (rQlen \<circ> sock)) (\<lambda>l. if l > 0 then handleMessage env else ret ()))"

section \<open>What the browser calls\<close>

text \<open>Data on the channel, while its handler is in place.\<close>

definition receive_data :: "rfb_env \<Rightarrow> byte list \<Rightarrow> unit session" where
  "receive_data env data = bindx (gets (ws_onmessage \<circ> sock)) (\<lambda>m. if \<not> m then ret () else
     recvMessage sock (\<lambda>t s. s\<lparr>sock := t\<rparr>)
       (bindx (gets (\<lambda>s. ws_handler (sock s) EvMessage)) (\<lambda>h. if h then handleMessage env else ret ())) data)"

text \<open>An image has been decoded: the queue goes on, and reports a flush that was asked for.\<close>

definition image_loaded :: "rfb_env \<Rightarrow> nat \<Rightarrow> int \<Rightarrow> int \<Rightarrow> unit session" where
  "image_loaded env img w h = bindx (gets (flushes \<circ> disp)) (\<lambda>n.
     thenx (on_disp (thenx (modify (image_decoded img w h)) (resumeRenderQ img)))
    (bindx (gets (flushes \<circ> disp)) (\<lambda>n'. if n' > n then onFlush env else ret ())))"

end
