(* ===== verification/RFB_Input.thy ===== *)
theory RFB_Input
  imports RFB_Messages
begin

text \<open>
  \<^verbatim>\<open>core/rfb.js\<close>, what the user does: mouse, wheel and gesture handlers, with \<open>clientToElement\<close> of
  \<^verbatim>\<open>core/util/element.js\<close>. What a handler reads from the page (the canvas' place, the clock, the element
  under the mouse) is the record \<open>page\<close>. Loops that scroll in steps have as fuel the number of steps.
\<close>

section \<open>Constants and the page\<close>

definition MOUSE_MOVE_DELAY :: int where "MOUSE_MOVE_DELAY = 17"
definition WHEEL_STEP :: rat where "WHEEL_STEP = 50"
definition WHEEL_LINE_HEIGHT :: rat where "WHEEL_LINE_HEIGHT = 19"
definition GESTURE_ZOOMSENS :: rat where "GESTURE_ZOOMSENS = 75"
definition GESTURE_SCRLSENS :: rat where "GESTURE_SCRLSENS = 50"
definition DOUBLE_TAP_TIMEOUT :: int where "DOUBLE_TAP_TIMEOUT = 1000"
definition DOUBLE_TAP_THRESHOLD :: rat where "DOUBLE_TAP_THRESHOLD = 50"

record client_rect =
  b_left :: rat
  b_top :: rat
  b_width :: rat
  b_height :: rat

record page =
  bounds :: client_rect
  clock :: int
  captured_elem :: "element option"
  pointed_elem :: "element option"

definition clip_to :: "rat \<Rightarrow> rat \<Rightarrow> rat \<Rightarrow> rat" where
  "clip_to lo extent x = (if x < lo then 0 else if x \<ge> lo + extent then extent - 1 else x - lo)"

definition clientToElement :: "rat \<Rightarrow> rat \<Rightarrow> client_rect \<Rightarrow> rat \<times> rat" where
  "clientToElement x y b = (clip_to (b_left b) (b_width b) x, clip_to (b_top b) (b_height b) y)"

section \<open>Mouse\<close>

definition sendMouse :: "rat \<Rightarrow> rat \<Rightarrow> int \<Rightarrow> unit session" where
  "sendMouse x y m = bindx (gets id) (\<lambda>s.
     if rfbConnectionState s \<noteq> Connected then ret ()
     else if viewOnly s then ret ()
     else tell (pointerEvent (absX x (disp s)) (absY y (disp s)) m))"

definition send_now :: "rat \<Rightarrow> rat \<Rightarrow> unit session" where
  "send_now x y = bindx (gets mouseButtonMask) (sendMouse x y)"

text \<open>A move that is waiting is sent first; then the button.\<close>

definition button_events :: "rat \<Rightarrow> rat \<Rightarrow> bool \<Rightarrow> int \<Rightarrow> unit session" where
  "button_events x y down bmask =
     thenx (bindx (gets mouseMoveTimer) (\<lambda>t. if t then
       thenx (modify (\<lambda>s. s\<lparr>mouseMoveTimer := False, mouseMovePending := False\<rparr>)) (send_now x y) else ret ()))
    (thenx (modify (\<lambda>s. s\<lparr>mouseButtonMask :=
        (if down then js_or (mouseButtonMask s) bmask else js_and (mouseButtonMask s) (js_not bmask))\<rparr>))
      (send_now x y))"

definition handleMouseButton :: "rat \<Rightarrow> rat \<Rightarrow> bool \<Rightarrow> int \<Rightarrow> unit session" where
  "handleMouseButton x y down bmask = bindx (gets id) (\<lambda>s.
     if dragViewport s then
       if down \<and> \<not> viewportDragging s then
         modify (\<lambda>s. s\<lparr>viewportDragging := True, viewportDragPos := (x, y), viewportHasMoved := False\<rparr>)
       else
         thenx (modify (\<lambda>s. s\<lparr>viewportDragging := False\<rparr>))
           (if viewportHasMoved s then ret ()
            else thenx (sendMouse x y bmask) (button_events x y down bmask))
     else button_events x y down bmask)"

definition handleMouseMove :: "rfb_env \<Rightarrow> int \<Rightarrow> rat \<Rightarrow> rat \<Rightarrow> unit session" where
  "handleMouseMove env now x y = bindx (gets id) (\<lambda>s.
     if viewportDragging s then
       let deltaX = fst (viewportDragPos s) - x; deltaY = snd (viewportDragPos s) - y in
       if viewportHasMoved s \<or> \<bar>deltaX\<bar> > dragThreshold env \<or> \<bar>deltaY\<bar> > dragThreshold env then
         thenx (modify (\<lambda>s. s\<lparr>viewportHasMoved := True, viewportDragPos := (x, y)\<rparr>))
           (on_disp (viewportChangePos deltaX deltaY))
       else ret ()
     else
       thenx (modify (\<lambda>s. s\<lparr>mousePos := (x, y)\<rparr>))
         (if mouseMoveTimer s then ret ()
          else if now - mouseLastMoveTime s > MOUSE_MOVE_DELAY then
            thenx (send_now x y) (modify (\<lambda>s. s\<lparr>mouseLastMoveTime := now\<rparr>))
          else modify (\<lambda>s. s\<lparr>mouseMoveTimer := True, mouseMovePending := True\<rparr>)))"

text \<open>The timer of a move that had to wait.\<close>

definition handleDelayedMouseMove :: "int \<Rightarrow> unit session" where
  "handleDelayedMouseMove now =
     thenx (modify (\<lambda>s. s\<lparr>mouseMoveTimer := False, mouseMovePending := False\<rparr>))
    (bindx (gets mousePos) (\<lambda>(x, y).
     thenx (send_now x y) (modify (\<lambda>s. s\<lparr>mouseLastMoveTime := now\<rparr>))))"

datatype mouse_event = MouseDown nat | MouseUp nat | MouseMoved | Click bool | ContextMenu

text \<open>\<open>Click\<close> says whether the canvas is the target; with or without it nothing else happens.\<close>

definition handleMouse :: "rfb_env \<Rightarrow> page \<Rightarrow> mouse_event \<Rightarrow> rat \<Rightarrow> rat \<Rightarrow> unit session" where
  "handleMouse env pg ev clientX clientY =
     (let (x, y) = clientToElement clientX clientY (bounds pg) in
      case ev of
        MouseDown button \<Rightarrow> handleMouseButton x y True (js_shl 1 button)
      | MouseUp button \<Rightarrow> handleMouseButton x y False (js_shl 1 button)
      | MouseMoved \<Rightarrow> handleMouseMove env (clock pg) x y
      | Click _ \<Rightarrow> ret ()
      | ContextMenu \<Rightarrow> ret ())"

text \<open>A press and a release of a button.\<close>

definition click :: "rat \<Rightarrow> rat \<Rightarrow> int \<Rightarrow> unit session" where
  "click x y bmask = thenx (handleMouseButton x y True bmask) (handleMouseButton x y False bmask)"

section \<open>Wheel\<close>

text \<open>One axis: its accumulated distance, and the buttons of its two directions.\<close>

definition wheel_axis :: "(rfb \<Rightarrow> rat) \<Rightarrow> (rfb \<Rightarrow> rfb) \<Rightarrow> rat \<Rightarrow> rat \<Rightarrow> nat \<Rightarrow> nat \<Rightarrow> unit session" where
  "wheel_axis acc reset x y neg pos = bindx (gets acc) (\<lambda>d.
     if \<bar>d\<bar> \<ge> WHEEL_STEP then
       thenx (if d < 0 then click x y (js_shl 1 neg) else if d > 0 then click x y (js_shl 1 pos) else ret ())
         (modify reset)
     else ret ())"

definition handleWheel :: "page \<Rightarrow> rat \<Rightarrow> rat \<Rightarrow> rat \<Rightarrow> rat \<Rightarrow> nat \<Rightarrow> unit session" where
  "handleWheel pg clientX clientY deltaX deltaY deltaMode = bindx (gets id) (\<lambda>s.
     if rfbConnectionState s \<noteq> Connected then ret ()
     else if viewOnly s then ret ()
     else
       let (x, y) = clientToElement clientX clientY (bounds pg);
           dX = (if deltaMode \<noteq> 0 then deltaX * WHEEL_LINE_HEIGHT else deltaX);
           dY = (if deltaMode \<noteq> 0 then deltaY * WHEEL_LINE_HEIGHT else deltaY)
       in thenx (modify (\<lambda>s. s\<lparr>accumulatedWheelDeltaX := accumulatedWheelDeltaX s + dX,
             accumulatedWheelDeltaY := accumulatedWheelDeltaY s + dY\<rparr>))
         (thenx (wheel_axis accumulatedWheelDeltaX (\<lambda>s. s\<lparr>accumulatedWheelDeltaX := 0\<rparr>) x y 5 6)
           (wheel_axis accumulatedWheelDeltaY (\<lambda>s. s\<lparr>accumulatedWheelDeltaY := 0\<rparr>) x y 3 4)))"

section \<open>Gestures\<close>

definition fakeMouseMove :: "rfb_env \<Rightarrow> page \<Rightarrow> rat \<Rightarrow> rat \<Rightarrow> rat \<Rightarrow> rat \<Rightarrow> unit session" where
  "fakeMouseMove env pg clientX clientY x y =
     thenx (handleMouseMove env (clock pg) x y)
       (on_cursor (modify (cursor_move (useFallback env) (viewport_offset env) (captured_elem pg) (pointed_elem pg)
          clientX clientY)))"

text \<open>A tap close to the first of a series of taps, in space and time, hits the place of that one.\<close>

definition tap_series :: "rfb_env \<Rightarrow> page \<Rightarrow> gesture_event \<Rightarrow> rfb \<Rightarrow> (string \<times> rat \<times> rat) \<times> rat \<times> rat" where
  "tap_series env pg ev s =
     (let this = (ge_gesture ev, ge_X ev, ge_Y ev); pos = clientToElement (ge_X ev) (ge_Y ev) (bounds pg) in
      case (gestureLastTapTime s, gestureFirstDoubleTap s) of
        (Some time, Some (g, fx, fy)) \<Rightarrow>
          (if clock pg - time < DOUBLE_TAP_TIMEOUT \<and> g = ge_gesture ev
             \<and> hypot (env_math env) (fx - ge_X ev) (fy - ge_Y ev) < DOUBLE_TAP_THRESHOLD
           then ((g, fx, fy), clientToElement fx fy (bounds pg)) else (this, pos))
      | _ \<Rightarrow> (this, pos))"

definition handleTapEvent :: "rfb_env \<Rightarrow> page \<Rightarrow> gesture_event \<Rightarrow> int \<Rightarrow> unit session" where
  "handleTapEvent env pg ev bmask = bindx (gets (tap_series env pg ev)) (\<lambda>((g, fx, fy), (x, y)).
     thenx (modify (\<lambda>s. s\<lparr>gestureFirstDoubleTap := Some (g, fx, fy), gestureLastTapTime := Some (clock pg)\<rparr>))
    (thenx (fakeMouseMove env pg fx fy x y) (click x y bmask)))"

text \<open>Clicks of a button for every full step from the last magnitude to the new one, upwards
  (\<open>dir = 1\<close>) or downwards (\<open>dir = -1\<close>).\<close>

primrec scroll_loop :: "nat \<Rightarrow> rat \<Rightarrow> rat \<Rightarrow> rat \<Rightarrow> (rfb \<Rightarrow> rat) \<Rightarrow> (rat \<Rightarrow> rfb \<Rightarrow> rfb) \<Rightarrow> unit session \<Rightarrow> unit session" where
  "scroll_loop 0 dir sens mag get put act = ret ()"
| "scroll_loop (Suc n) dir sens mag get put act = bindx (gets get) (\<lambda>l.
     if dir * (mag - l) > sens then
       thenx act (thenx (modify (put (l + dir * sens))) (scroll_loop n dir sens mag get put act))
     else ret ())"

definition scroll :: "rat \<Rightarrow> rat \<Rightarrow> rat \<Rightarrow> (rfb \<Rightarrow> rat) \<Rightarrow> (rat \<Rightarrow> rfb \<Rightarrow> rfb) \<Rightarrow> unit session \<Rightarrow> unit session" where
  "scroll dir sens mag get put act = bindx (gets get) (\<lambda>l.
     scroll_loop (nat \<lceil>\<bar>mag - l\<bar> / sens\<rceil>) dir sens mag get put act)"

definition put_magX :: "rat \<Rightarrow> rfb \<Rightarrow> rfb" where "put_magX v s = s\<lparr>gestureLastMagnitudeX := v\<rparr>"
definition put_magY :: "rat \<Rightarrow> rfb \<Rightarrow> rfb" where "put_magY v s = s\<lparr>gestureLastMagnitudeY := v\<rparr>"

text \<open>The gestures \<open>twodrag\<close> and \<open>pinch\<close> always have a magnitude.\<close>

definition gesture_magnitude :: "gesture_event \<Rightarrow> rat \<times> rat" where
  "gesture_magnitude ev = (case ge_magnitude ev of Some m \<Rightarrow> m | None \<Rightarrow> (0, 0))"

definition twodrag_move :: "rat \<Rightarrow> rat \<Rightarrow> rat \<Rightarrow> rat \<Rightarrow> unit session" where
  "twodrag_move mx my x y =
     thenx (scroll 1 GESTURE_SCRLSENS my gestureLastMagnitudeY put_magY (click x y 0x8))
    (thenx (scroll (- 1) GESTURE_SCRLSENS my gestureLastMagnitudeY put_magY (click x y 0x10))
    (thenx (scroll 1 GESTURE_SCRLSENS mx gestureLastMagnitudeX put_magX (click x y 0x20))
      (scroll (- 1) GESTURE_SCRLSENS mx gestureLastMagnitudeX put_magX (click x y 0x40))))"

definition control_key :: "bool \<Rightarrow> unit session" where
  "control_key down = handleKeyEvent (Some XK_Control_L, Code ''ControlLeft'', down)"

definition pinch_move :: "rat \<Rightarrow> rat \<Rightarrow> rat \<Rightarrow> unit session" where
  "pinch_move mag x y =
     thenx (bindx (gets gestureLastMagnitudeX) (\<lambda>l.
       if \<bar>mag - l\<bar> > GESTURE_ZOOMSENS then
         thenx (control_key True)
        (thenx (scroll 1 GESTURE_ZOOMSENS mag gestureLastMagnitudeX put_magX (click x y 0x8))
          (scroll (- 1) GESTURE_ZOOMSENS mag gestureLastMagnitudeX put_magX (click x y 0x10)))
       else ret ()))
     (control_key False)"

definition gesture_start :: "rfb_env \<Rightarrow> page \<Rightarrow> gesture_event \<Rightarrow> rat \<Rightarrow> rat \<Rightarrow> unit session" where
  "gesture_start env pg ev x y =
     (let g = ge_gesture ev; (mx, my) = gesture_magnitude ev;
          move = fakeMouseMove env pg (ge_X ev) (ge_Y ev) x y in
      if g = ''onetap'' then handleTapEvent env pg ev 0x1
      else if g = ''twotap'' then handleTapEvent env pg ev 0x4
      else if g = ''threetap'' then handleTapEvent env pg ev 0x2
      else if g = ''drag'' then thenx move (handleMouseButton x y True 0x1)
      else if g = ''longpress'' then thenx move (handleMouseButton x y True 0x4)
      else if g = ''twodrag'' then
        thenx (modify (\<lambda>s. s\<lparr>gestureLastMagnitudeX := mx, gestureLastMagnitudeY := my\<rparr>)) move
      else if g = ''pinch'' then
        thenx (modify (put_magX (hypot (env_math env) mx my))) move
      else ret ())"

definition gesture_move :: "rfb_env \<Rightarrow> page \<Rightarrow> gesture_event \<Rightarrow> rat \<Rightarrow> rat \<Rightarrow> unit session" where
  "gesture_move env pg ev x y =
     (let g = ge_gesture ev; (mx, my) = gesture_magnitude ev;
          move = fakeMouseMove env pg (ge_X ev) (ge_Y ev) x y in
      if g = ''drag'' \<or> g = ''longpress'' then move
      else if g = ''twodrag'' then thenx move (twodrag_move mx my x y)
      else if g = ''pinch'' then thenx move (pinch_move (hypot (env_math env) mx my) x y)
      else ret ())"

definition gesture_end :: "rfb_env \<Rightarrow> page \<Rightarrow> gesture_event \<Rightarrow> rat \<Rightarrow> rat \<Rightarrow> unit session" where
  "gesture_end env pg ev x y =
     (let g = ge_gesture ev; move = fakeMouseMove env pg (ge_X ev) (ge_Y ev) x y in
      if g = ''drag'' then thenx move (handleMouseButton x y False 0x1)
      else if g = ''longpress'' then thenx move (handleMouseButton x y False 0x4)
      else ret ())"

definition handleGesture :: "rfb_env \<Rightarrow> page \<Rightarrow> gesture_event \<Rightarrow> unit session" where
  "handleGesture env pg ev =
     (let (x, y) = clientToElement (ge_X ev) (ge_Y ev) (bounds pg) in
      case ge_type ev of
        GestureStart \<Rightarrow> gesture_start env pg ev x y
      | GestureMove \<Rightarrow> gesture_move env pg ev x y
      | GestureEnd \<Rightarrow> gesture_end env pg ev x y)"

section \<open>The touch screen\<close>

primrec handleGestures :: "rfb_env \<Rightarrow> page \<Rightarrow> gesture_event list \<Rightarrow> unit session" where
  "handleGestures env pg [] = ret ()"
| "handleGestures env pg (e # es) = thenx (handleGesture env pg e) (handleGestures env pg es)"

text \<open>An event of the gesture handler while it is attached, with the gesture events it dispatches; the canvas
  has listeners for them while the session is connected to it.\<close>

definition touch_input :: "rfb_env \<Rightarrow> page \<Rightarrow> touch_event \<Rightarrow> unit session" where
  "touch_input env pg e = bindx (gets id) (\<lambda>s. if \<not> g_target (gest s) then ret () else
     case handle (env_math env) e (gest s) of (r, g') \<Rightarrow>
       thenx (modify (\<lambda>s. s\<lparr>gest := g'\<rparr>))
      (thenx (if listening s then handleGestures env pg (drop (length (g_out (gest s))) (g_out g')) else ret ())
        (lift_result r)))"

end
