(* ===== verification/RFB_Session.thy ===== *)
theory RFB_Session
  imports RFB_Input
begin

text \<open>
  The session as a state machine: everything that can happen to it from outside (its page, its user, the
  socket, the timers, the images it waits for) is a \<open>session_input\<close>, with what the browser guarantees about
  when it happens in \<open>session_step\<close>. The constructor and any sequence of inputs lead to the \<open>reached\<close>
  states.
\<close>

datatype session_input =
    SocketOpens
  | SocketCloseStarts
  | SocketData "byte list"
  | SocketCloses
  | ImageLoads nat int int
  | DisconnectTimeout
  | ResizeObserved
  | NextFrame
  | ResizeTimeout
  | KeyInput platform kb_event
  | MouseInput page mouse_event rat rat
  | WheelInput page rat rat rat rat nat
  | MouseTimeout int
  | TouchInput page touch_event
  | CallDisconnect
  | CallCredentials credentials
  | CredentialsTimeout
  | CallSendKey "int option" code "bool option"
  | CallCtrlAltDel
  | CallPaste js_string
  | CallShutdown | CallReboot | CallReset
  | SetViewOnly bool | SetDrag bool | SetClip bool | SetScale bool | SetResize bool | SetDot bool
  | SetQuality int | SetCompression int

text \<open>\<open>SocketCloseStarts\<close> is the browser's move of the channel to \<open>CLOSING\<close> when the server closes it or the
  connection is lost; there is no event for it.\<close>

text \<open>An event of the channel reaches the session if the session has a handler for it.\<close>

definition socket_event :: "ws_event \<Rightarrow> ready_state \<Rightarrow> unit session \<Rightarrow> unit session" where
  "socket_event ev ready m =
     thenx (on_sock (modify (\<lambda>t. t\<lparr>ws_channel := Some ready\<rparr>)))
    (bindx (gets (\<lambda>s. ws_handler (sock s) ev)) (\<lambda>h. if h then m else ret ()))"

definition kb_handler :: "platform \<Rightarrow> kb_event \<Rightarrow> keyboard \<Rightarrow> keyboard" where
  "kb_handler pf e k = (case e of
     KeyDown ev \<Rightarrow> if kb_grabbed k then handleKeyDown pf ev k else k
   | KeyUp ev \<Rightarrow> if kb_grabbed k then handleKeyUp pf ev k else k
   | Blur \<Rightarrow> if kb_grabbed k then allKeysUp k else k
   | AltGrTimer \<Rightarrow> if altGrTimeout k then handleAltGrTimeout k else k)"

definition provided :: "(rfb \<Rightarrow> bool) \<Rightarrow> unit session \<Rightarrow> unit session" where
  "provided P m = bindx (gets P) (\<lambda>p. if p then m else ret ())"

fun session_step :: "rfb_env \<Rightarrow> session_input \<Rightarrow> unit session" where
  "session_step env SocketOpens = provided (\<lambda>s. ws_channel (sock s) = Some CONNECTING) (socket_event EvOpen OPEN socketOpen)"
| "session_step env (SocketData d) = receive_data env d"
| "session_step env SocketCloseStarts = provided (\<lambda>s. ws_channel (sock s) = Some CONNECTING \<or> ws_channel (sock s) = Some OPEN)
     (on_sock (modify (\<lambda>t. t\<lparr>ws_channel := Some CLOSING\<rparr>)))"
| "session_step env SocketCloses = provided (\<lambda>s. ws_channel (sock s) \<noteq> None) (socket_event EvClose CLOSED socketClose)"
| "session_step env (ImageLoads i w h) = image_loaded env i w h"
| "session_step env DisconnectTimeout = provided disconnTimer disconnect_timeout"
| "session_step env ResizeObserved = provided observing handleResize"
| "session_step env NextFrame = handleResize_frame"
| "session_step env ResizeTimeout = provided resizeTimeout requestRemoteResize"
| "session_step env (KeyInput pf e) = on_kb (kb_handler pf e)"
| "session_step env (MouseInput pg e x y) = provided listening (handleMouse env pg e x y)"
| "session_step env (WheelInput pg x y dx dy m) = provided listening (handleWheel pg x y dx dy m)"
| "session_step env (MouseTimeout now) = provided mouseMovePending (handleDelayedMouseMove now)"
| "session_step env (TouchInput pg e) = touch_input env pg e"
| "session_step env CallDisconnect = disconnect"
| "session_step env (CallCredentials c) = sendCredentials c"
| "session_step env CredentialsTimeout = thenx (init_message env) (ret ())"
| "session_step env (CallSendKey k c d) = sendKey k c d"
| "session_step env CallCtrlAltDel = sendCtrlAltDel"
| "session_step env (CallPaste t) = clipboardPasteFrom t"
| "session_step env CallShutdown = machineShutdown"
| "session_step env CallReboot = machineReboot"
| "session_step env CallReset = machineReset"
| "session_step env (SetViewOnly b) = set_viewOnly b"
| "session_step env (SetDrag b) = modify (\<lambda>s. s\<lparr>dragViewport := b\<rparr>)"
| "session_step env (SetClip b) = set_clip b"
| "session_step env (SetScale b) = set_scaleViewport b"
| "session_step env (SetResize b) = set_resizeSession b"
| "session_step env (SetDot b) = set_showDotCursor env b"
| "session_step env (SetQuality q) = set_qualityLevel q"
| "session_step env (SetCompression q) = set_compressionLevel q"

text \<open>An exception of a step is reported by the browser; the session goes on from the state it left.\<close>

inductive reached :: "rfb_env \<Rightarrow> rfb \<Rightarrow> bool" for env where
  constructed: "construct env (new_rfb env channel creds shr repeater w h) = (Inr (), s) \<Longrightarrow> reached env s"
| step: "reached env s \<Longrightarrow> reached env (snd (session_step env i s))"

primrec inputs :: "rfb_env \<Rightarrow> session_input list \<Rightarrow> rfb \<Rightarrow> rfb" where
  "inputs env [] s = s"
| "inputs env (i # is) s = inputs env is (snd (session_step env i s))"

lemma reached_inputs: "reached env s \<Longrightarrow> reached env (inputs env is s)"
  by (induction "is" arbitrary: s) (auto intro: reached.step)

end
