(* ===== verification/Socket_Frames.thy ===== *)
theory Socket_Frames
  imports RFB_Session
begin

text \<open>
  The frame of the socket's operations: readers move the position and nothing else, nothing is sent on a
  channel that is not open, and a reader that returns never moves the position back.
\<close>

section \<open>The interface\<close>

text \<open>A relation that the readers and the send queue respect.\<close>

locale socket_frame = frame strict S for strict and S :: "websock \<Rightarrow> websock \<Rightarrow> bool" +
  assumes wait: "runs strict S (rQwait n 0)"
    and shift: "runs strict S (rQshift b)"
    and bytes: "runs strict S (rQshiftBytes l)"
    and str: "runs strict S (rQshiftStr l)"
    and shift_to: "runs strict S (rQshiftTo target k)"
    and skip: "S s (rQskipBytes k s)"
    and alpha: "S s (s\<lparr>rQ := set_alpha base k (rQ s)\<rparr>)"
    and flush: "S s (flush s)"
    and queue: "S s (s\<lparr>sQ := q, sQlen := k\<rparr>)"
begin

lemma put: "S s (put_msg vs s)"
  unfolding put_msg_def by (rule trans [OF queue flush])

lemma send: "runs strict S (send arr)"
  by (auto simp: runs_def send_def refl split: sum.split intro: trans [OF queue flush])

lemma cutText_step: "S s (snd (snd (cutText_step data (r, k, s))))"
  unfolding cutText_step_def Let_def prod.case snd_conv by (rule trans [OF queue flush])

lemma cut:
  assumes "clientCutText data ext s = Some t"
  shows "S s t"
proof -
  define h where "h = cutText_header (if ext then toUnsigned32bit (- int (length data)) else int (length data)) s"
  obtain r k where l: "cutText_loop data (int (length data), 0, h) = Some (r, k, t)"
    using assms by (auto simp: clientCutText_def h_def Let_def split: prod.splits)
  have "S h (snd (snd (r, k, t)))"
    by (rule while_option_rule [where P = "\<lambda>(r, k, u). S h u", OF _ l [unfolded cutText_loop_def]
          , simplified case_prod_unfold])
       (auto intro: refl trans [OF _ cutText_step])
  moreover have "S s h" by (simp add: h_def cutText_header_def queue)
  ultimately show ?thesis by (auto intro: trans)
qed

lemmas readers = wait shift bytes str shift_to

end

section \<open>The socket\<close>

text \<open>Readers and writers leave the channel as it is, and send nothing on one that is not open.\<close>

definition quiet :: "websock \<Rightarrow> websock \<Rightarrow> bool" where
  "quiet s t \<longleftrightarrow> ws_channel t = ws_channel s \<and> (\<not> ws_open s \<longrightarrow> ws_sent t = ws_sent s)"

interpretation quiet_frame: frame False quiet
  by unfold_locales (auto simp: quiet_def ws_open_def)

lemma quiet_flush: "quiet s (flush s)"
  by (auto simp: quiet_def flush_def readyState_open)

lemma quiet_fields: "ws_channel t = ws_channel s \<Longrightarrow> ws_sent t = ws_sent s \<Longrightarrow> quiet s t"
  by (simp add: quiet_def)

text \<open>A reader changes nothing but the position.\<close>

definition moves :: "websock \<Rightarrow> websock \<Rightarrow> bool" where
  "moves s t \<longleftrightarrow> (\<exists>k. t = s\<lparr>rQi := k\<rparr>)"

interpretation moves: frame False moves
proof (unfold_locales, unfold moves_def)
  show "\<exists>k. s = s\<lparr>rQi := k\<rparr>" for s by (rule exI [of _ "rQi s"]) simp
qed auto

lemma rQshift_loop_moves: "moves s (snd (rQshift_loop n r s))"
proof (induction n r s rule: rQshift_loop.induct)
  case (2 byte res s)
  then show ?case by (auto simp: moves_def)
qed (simp add: moves.refl)

lemma shift_moves: "runs False moves (rQshift n)"
  by (simp add: runs_def rQshift_def case_prod_unfold rQshift_loop_moves)

lemma shiftBytes_moves: "runs False moves (rQshiftBytes l)"
  by (auto simp: runs_def rQshiftBytes_def moves_def Let_def)

lemma rQshiftStr_loop_moves: "moves s (snd (rQshiftStr_loop i len str s))"
proof (induction i len str s rule: rQshiftStr_loop.induct)
  case (1 i len str s)
  obtain r t where b: "rQshiftBytes (min 4096 (len - i)) s = (r, t)" by force
  then have q: "moves s t" using runsD [OF shiftBytes_moves] by (metis snd_conv)
  show ?case
  proof (cases "i < len")
    case True
    with 1 b q show ?thesis
      by (subst rQshiftStr_loop.simps) (auto split: sum.split intro: moves.trans simp del: rQshiftStr_loop.simps)
  next
    case False
    then show ?thesis by (subst rQshiftStr_loop.simps) (simp add: moves.refl del: rQshiftStr_loop.simps)
  qed
qed

lemma moves_readers:
  "runs False moves (rQwait n k)" "runs False moves rQshift8" "runs False moves rQshift16" "runs False moves rQshift32"
  "runs False moves (rQshiftBytes l)" "runs False moves (rQshiftTo target m)" "runs False moves (rQwait_back n b)"
  "runs False moves (rQshiftStr l)" "runs False moves (modify (rQskipBytes m))"
proof -
  have w: "runs False moves (rQwait n k)" for n k
  proof -
    have "moves s s" for s by (rule moves.refl)
    moreover have "moves s (s\<lparr>rQi := j\<rparr>)" for s j by (auto simp: moves_def)
    ultimately show ?thesis by (simp add: runs_def rQwait_def)
  qed
  show "runs False moves (rQwait n k)" by (rule w)
  show "runs False moves rQshift8" "runs False moves rQshift16" "runs False moves rQshift32"
    unfolding rQshift8_def rQshift16_def rQshift32_def by (rule shift_moves)+
  show "runs False moves (rQshiftBytes l)" by (rule shiftBytes_moves)
  have m: "moves s (s\<lparr>rQi := j\<rparr>)" for s j by (auto simp: moves_def)
  show "runs False moves (rQshiftTo target m)"
    by (simp add: runs_def rQshiftTo_def m moves.refl split: sum.split)
  have "moves s (rQskipBytes j s)" for s j by (simp add: rQskipBytes_def m)
  with w show "runs False moves (rQwait_back n b)" by (simp add: runs_def rQwait_back_def moves.refl)
  show "runs False moves (rQshiftStr l)"
    unfolding rQshiftStr_def runs_def by (simp add: rQshiftStr_loop_moves del: rQshiftStr_loop.simps)
  show "runs False moves (modify (rQskipBytes m))"
    by (rule runs_modify) (simp add: rQskipBytes_def m)
qed

lemma moves_quiet: "moves s t \<Longrightarrow> quiet s t"
  by (auto simp: moves_def quiet_def ws_open_def)

lemmas quiet_readers = moves_readers [THEN runs_mono, OF moves_quiet]

lemma quiet_decode: "runs False quiet (DecodeMessage d)"
  unfolding DecodeMessage_def
  by (intro quiet_frame.rules) (auto simp: runs_def quiet_def expandCompactRQ_def Let_def ws_open_def split: sum.split)

lemma quiet_ws_close: "ws_channel (ws_close s) \<notin> {Some CONNECTING, Some OPEN} \<and> ws_sent (ws_close s) = ws_sent s"
  by (auto simp: ws_close_def readyState_def split: option.splits ready_state.splits)

interpretation quiet: socket_frame False quiet
proof
  show "quiet s (rQskipBytes k s)" for s k by (simp add: rQskipBytes_def quiet_fields)
qed (auto intro: quiet_readers shift_moves [THEN runs_mono, OF moves_quiet] quiet_flush quiet_fields)

section \<open>Progress of the readers\<close>

definition forward :: "websock \<Rightarrow> websock \<Rightarrow> bool" where
  "forward s t \<longleftrightarrow> rQi s \<le> rQi t \<and> rQlen' t = rQlen' s \<and> length (rQ t) = length (rQ s)"

interpretation forward_frame: frame True forward
  by unfold_locales (auto simp: forward_def)

lemma forward_flush: "forward s (flush s)"
  by (simp add: forward_def flush_def)

lemma forward_fields: "rQi t = rQi s \<Longrightarrow> rQlen' t = rQlen' s \<Longrightarrow> rQ t = rQ s \<Longrightarrow> forward s t"
  by (simp add: forward_def)

lemma forward_skip: "forward s (rQskipBytes n s)"
  by (simp add: forward_def rQskipBytes_def)

lemma shift_loop_position:
  "rQi (snd (rQshift_loop n r s)) = rQi s + n \<and> rQlen' (snd (rQshift_loop n r s)) = rQlen' s
    \<and> rQ (snd (rQshift_loop n r s)) = rQ s"
  by (induction n r s rule: rQshift_loop.induct) simp_all

lemma forward_shift: "runs True forward (rQshift n)"
  by (simp add: runs_def rQshift_def case_prod_unfold forward_def shift_loop_position)

lemma forward_bytes: "runs True forward (rQshiftBytes l)"
  by (auto simp: runs_def rQshiftBytes_def Let_def forward_def)

lemma forward_to: "runs True forward (rQshiftTo target n)"
  by (simp add: runs_def rQshiftTo_def forward_def split: sum.split)

lemma rQshiftStr_loop_forward:
  "fst (rQshiftStr_loop i len str s) = Inr a \<Longrightarrow> forward s (snd (rQshiftStr_loop i len str s))"
proof (induction i len str s rule: rQshiftStr_loop.induct)
  case (1 i len str s)
  obtain r t where b: "rQshiftBytes (min 4096 (len - i)) s = (r, t)" by force
  show ?case
  proof (cases "i < len")
    case True
    show ?thesis
    proof (cases r)
      case (Inr v)
      with b have "forward s t" using runs_strictD [OF forward_bytes] by (metis fst_conv snd_conv)
      with 1 b Inr True show ?thesis
        by (subst rQshiftStr_loop.simps, subst (asm) (3) rQshiftStr_loop.simps)
          (auto intro: forward_frame.trans simp del: rQshiftStr_loop.simps)
    next
      case (Inl e)
      with 1(2) b True show ?thesis
        by (subst (asm) rQshiftStr_loop.simps) (simp del: rQshiftStr_loop.simps)
    qed
  next
    case False
    then show ?thesis by (subst rQshiftStr_loop.simps) (simp add: forward_frame.refl del: rQshiftStr_loop.simps)
  qed
qed

lemma forward_str: "runs True forward (rQshiftStr l)"
  unfolding rQshiftStr_def runs_def using rQshiftStr_loop_forward by (auto simp del: rQshiftStr_loop.simps)

lemma forward_wait: "runs True forward (rQwait n 0)"
  by (simp add: runs_def rQwait_def forward_def)

lemma length_alpha: "length (set_alpha base k d) = length d"
  unfolding set_alpha_def by (induction k) simp_all

interpretation forward: socket_frame True forward
proof
  show "forward s (s\<lparr>rQ := set_alpha base k (rQ s)\<rparr>)" for s base k by (simp add: forward_def length_alpha)
  show "forward s (rQskipBytes k s)" for s k by (rule forward_skip)
qed (auto intro: forward_wait forward_shift forward_bytes forward_str forward_to forward_flush forward_fields)

end
