(* ===== verification/Session_Frames.thy ===== *)
theory Session_Frames
  imports Socket_Frames
begin

text \<open>
  What the operations of the session leave alone. \<open>calm S\<close> relates two states of the session with the same
  connection state, disconnection timer, position in a framebuffer update and life-cycle events, and
  sockets related by \<open>S\<close>. Every operation that does not change the connection state is calm, for each
  relation that satisfies the interface of \<open>Socket_Frames\<close>.
\<close>

named_theorems calm_rules

fun lifecycle :: "rfb_event \<Rightarrow> bool" where
  "lifecycle EvConnect = True"
| "lifecycle (EvDisconnect b) = True"
| "lifecycle _ = False"

definition life :: "rfb \<Rightarrow> rfb_event list" where
  "life s = filter lifecycle (events s)"

definition calm :: "(websock \<Rightarrow> websock \<Rightarrow> bool) \<Rightarrow> rfb \<Rightarrow> rfb \<Rightarrow> bool" where
  "calm S s t \<longleftrightarrow> rfbConnectionState t = rfbConnectionState s \<and> disconnTimer t = disconnTimer s \<and>
     FBU t = FBU s \<and> life t = life s \<and> S (sock s) (sock t)"

text \<open>The same for a decoder object of the tight family.\<close>

definition calm_sock :: "(websock \<Rightarrow> websock \<Rightarrow> bool) \<Rightarrow> tight_ctx \<Rightarrow> tight_ctx \<Rightarrow> bool" where
  "calm_sock S s t \<longleftrightarrow> S (sock s) (sock t)"

context socket_frame
begin

sublocale session: frame strict "calm S"
  by unfold_locales (auto simp: calm_def refl intro: trans)

sublocale tight: frame strict "calm_sock S"
  by unfold_locales (auto simp: calm_sock_def refl intro: trans)

lemma calm_field:
  "rfbConnectionState t = rfbConnectionState s \<Longrightarrow> disconnTimer t = disconnTimer s \<Longrightarrow> FBU t = FBU s \<Longrightarrow>
   life t = life s \<Longrightarrow> sock t = sock s \<Longrightarrow> calm S s t"
  by (simp add: calm_def refl)

section \<open>The parts of the session\<close>

lemma calm_on_sock [calm_rules]: "runs strict S m \<Longrightarrow> runs strict (calm S) (on_sock m)"
  unfolding on_sock_def by (erule runs_zoom) (simp add: calm_def life_def)

lemma calm_on_disp [calm_rules]: "runs strict (calm S) (on_disp m)"
  unfolding on_disp_def by (rule runs_zoom_any) (simp add: calm_field life_def)

lemma calm_on_disp_self [calm_rules]: "runs strict (calm S) (\<lambda>s. on_disp (f s) s)"
  unfolding runs_def using calm_on_disp [unfolded runs_def] by blast

lemma calm_on_cursor [calm_rules]: "runs strict (calm S) (on_cursor m)"
  unfolding on_cursor_def by (rule runs_zoom_any) (simp add: calm_field life_def)

lemma calm_on_hex [calm_rules]: "runs strict (calm S) (on_hex m)"
  unfolding on_hex_def by (rule runs_zoom_any) (simp add: calm_field life_def)

lemma calm_on_tight [calm_rules]: "runs strict (calm_sock S) m \<Longrightarrow> runs strict (calm S) (on_tight m)"
  unfolding on_tight_def by (erule runs_zoom) (simp add: calm_def life_def calm_sock_def)

lemma calm_on_tightpng [calm_rules]: "runs strict (calm_sock S) m \<Longrightarrow> runs strict (calm S) (on_tightpng m)"
  unfolding on_tightpng_def by (erule runs_zoom) (simp add: calm_def life_def calm_sock_def)

lemma shifts: "runs strict S rQshift8" "runs strict S rQshift16" "runs strict S rQshift32"
  unfolding rQshift8_def rQshift16_def rQshift32_def by (rule shift)+

lemma sock_gets: "runs strict S (gets f)"
  by (rule gets)

lemma sock_send: "runs strict S (send arr)" "runs strict S (sendString str)"
  unfolding sendString_def by (rule send)+

lemma sock_skip: "runs strict S (modify (rQskipBytes k))" "runs strict S (modify (\<lambda>t. t\<lparr>rQ := set_alpha b k (rQ t)\<rparr>))"
  by (rule runs_modify, rule skip, rule runs_modify, rule alpha)

lemma sock_hextile:
  "runs strict S (modify (\<lambda>t. t\<lparr>rQi := rQi t + k\<rparr>))"
  "runs strict S (modify (\<lambda>t. t\<lparr>rQ := set_alpha (Suc (rQi t)) n (rQ t)\<rparr>))"
  using skip [unfolded rQskipBytes_def] by (auto intro: runs_modify alpha)

lemmas sock_rules = sock_hextile readers shifts sock_gets sock_send sock_skip
declare sock_rules [calm_rules]

lemma calm_tell: "(\<And>t. S t (f t)) \<Longrightarrow> runs strict (calm S) (tell f)"
  unfolding tell_def by (intro calm_on_sock runs_modify)

lemma calm_writers [calm_rules]:
  "runs strict (calm S) (tell (keyEvent k d))" "runs strict (calm S) (tell (QEMUExtendedKeyEvent k d c))"
  "runs strict (calm S) (tell (pointerEvent x y b))" "runs strict (calm S) (tell (setDesktopSize w h i fl))"
  "runs strict (calm S) (tell (clientFence fl p))" "runs strict (calm S) (tell (enableContinuousUpdates e x y w h))"
  "runs strict (calm S) (tell (pixelFormat depth tc))" "runs strict (calm S) (tell (clientEncodings encs))"
  "runs strict (calm S) (tell (fbUpdateRequest inc x y w h))" "runs strict (calm S) (tell (xvpOp v op'))"
  by (rule calm_tell, simp add: keyEvent_def QEMUExtendedKeyEvent_def pointerEvent_def setDesktopSize_def
    clientFence_def enableContinuousUpdates_def pixelFormat_def clientEncodings_def fbUpdateRequest_def
    xvpOp_def Let_def put)+

lemma calm_tell_option: "(\<And>t u. f t = Some u \<Longrightarrow> S t u) \<Longrightarrow> runs strict (calm S) (tell_option f)"
  by (auto simp: runs_def tell_option_def calm_def life_def refl split: option.splits)

lemma calm_cut [calm_rules]:
  "runs strict (calm S) (tell_option (clientCutText d e))" "runs strict (calm S) (tell_option (extendedClipboardCaps a fs))"
  "runs strict (calm S) (tell_option (extendedClipboardNotify ns))" "runs strict (calm S) (tell_option (extendedClipboardRequest ns))"
  by (rule calm_tell_option,
    rule cut, simp only: extendedClipboardCaps_def extendedClipboardNotify_def extendedClipboardRequest_def Let_def)+

lemma calm_tell_provide [calm_rules]: "runs strict (calm S) (tell_provide deflate text)"
  unfolding tell_provide_def runs_def
  by (auto simp: extendedClipboardProvide_def tell_option_def calm_def life_def refl
      split: sum.splits option.splits intro: cut)

lemma calm_dispatch [calm_rules]: "\<not> lifecycle e \<Longrightarrow> runs strict (calm S) (dispatch e)"
  unfolding dispatch_def by (rule runs_modify) (simp add: calm_field life_def)

lemma calm_lift_result [calm_rules]: "runs strict (calm S) (lift_result r)"
  unfolding lift_result_def by (rule session.valued)

lemma calm_send_units [calm_rules]: "runs strict (calm S) (send_units u)"
  unfolding send_units_def by (intro calm_rules)

lemma calm_skip_bytes [calm_rules]: "runs strict (calm S) (skip_bytes n)"
  unfolding skip_bytes_def by (intro calm_rules)

lemma calm_modify: "(\<And>s. calm S s (f s)) \<Longrightarrow> runs strict (calm S) (modify f)"
  by (rule runs_modify)

section \<open>Life cycle and properties\<close>

text \<open>Operations of \<open>RFB_State\<close>.\<close>

lemmas calm_local = calm_field life_def

lemma calm_sendKey_dir [calm_rules]: "runs strict (calm S) (sendKey_dir k c d)"
  unfolding sendKey_dir_def Let_def by (intro session.rules calm_rules)

lemma calm_sendKey [calm_rules]: "runs strict (calm S) (sendKey k c d)"
  unfolding sendKey_def by (intro session.rules calm_rules)

lemma calm_ctrlAltDel [calm_rules]: "runs strict (calm S) sendCtrlAltDel"
  unfolding sendCtrlAltDel_def by (intro session.rules calm_rules)

lemma calm_handleKeyEvent [calm_rules]: "runs strict (calm S) (handleKeyEvent a)"
  unfolding handleKeyEvent_def by (intro session.rules calm_rules)

lemma calm_handleKeyEvents [calm_rules]: "runs strict (calm S) (handleKeyEvents as)"
  by (induction as) (simp_all, (intro session.rules calm_rules; assumption?)+)

lemma calm_on_kb [calm_rules]: "runs strict (calm S) (on_kb f)"
  unfolding on_kb_def by (intro session.rules calm_rules calm_modify) (simp add: calm_local)

lemma calm_updateClip [calm_rules]: "runs strict (calm S) updateClip"
  unfolding updateClip_def fixScrollbars_def by (intro session.rules calm_rules)

lemma calm_updateScale [calm_rules]: "runs strict (calm S) updateScale"
  unfolding updateScale_def fixScrollbars_def by (intro session.rules calm_rules)

lemma calm_remote_resize [calm_rules]: "runs strict (calm S) requestRemoteResize"
  unfolding requestRemoteResize_def by (intro session.rules calm_rules calm_modify) (simp add: calm_local)

lemma calm_handleResize [calm_rules]: "runs strict (calm S) handleResize" "runs strict (calm S) handleResize_frame"
  unfolding handleResize_def handleResize_frame_def
  by (intro calm_modify, simp add: calm_local) (intro session.rules calm_rules)

lemma calm_continuous [calm_rules]: "runs strict (calm S) updateContinuousUpdates"
  unfolding updateContinuousUpdates_def by (intro session.rules calm_rules)

lemma calm_resize [calm_rules]: "runs strict (calm S) (rfb_resize w h)"
  unfolding rfb_resize_def by (intro session.rules calm_rules calm_modify) (simp add: calm_local)

lemma calm_desktopName [calm_rules]: "runs strict (calm S) (setDesktopName n)"
  unfolding setDesktopName_def by (intro session.rules calm_rules calm_modify) (simp_all add: calm_local)

lemma calm_power [calm_rules]: "runs strict (calm S) (setCapability_power v)"
  unfolding setCapability_power_def by (intro session.rules calm_rules calm_modify) (simp_all add: calm_local)

lemma calm_refreshCursor [calm_rules]: "runs strict (calm S) (refreshCursor env)"
  unfolding refreshCursor_def by (intro session.rules calm_rules)

lemma calm_updateCursor [calm_rules]: "runs strict (calm S) (updateCursor env rgba hx hy w h)"
  unfolding updateCursor_def by (intro session.rules calm_rules calm_modify) (simp add: calm_local)

lemma calm_sendEncodings [calm_rules]: "runs strict (calm S) sendEncodings"
  unfolding sendEncodings_def by (intro session.rules calm_rules)

lemma calm_setters [calm_rules]:
  "runs strict (calm S) (set_viewOnly v)" "runs strict (calm S) (set_clip v)" "runs strict (calm S) (set_scaleViewport v)"
  "runs strict (calm S) (set_resizeSession v)" "runs strict (calm S) (set_showDotCursor env v)"
  "runs strict (calm S) (set_qualityLevel q)" "runs strict (calm S) (set_compressionLevel q)"
  unfolding set_viewOnly_def set_clip_def set_scaleViewport_def set_resizeSession_def set_showDotCursor_def
    set_qualityLevel_def set_compressionLevel_def
  by (intro session.rules calm_rules calm_modify, simp add: calm_local)+

lemma calm_xvp [calm_rules]: "runs strict (calm S) (rfb_xvpOp v op')"
  unfolding rfb_xvpOp_def by (intro session.rules calm_rules)

lemma calm_machine [calm_rules]:
  "runs strict (calm S) machineShutdown" "runs strict (calm S) machineReboot" "runs strict (calm S) machineReset"
  unfolding machineShutdown_def machineReboot_def machineReset_def by (rule calm_xvp)+

lemma calm_paste [calm_rules]: "runs strict (calm S) (clipboardPasteFrom t)"
  unfolding clipboardPasteFrom_def by (intro session.rules calm_rules calm_modify) (simp add: calm_local)

section \<open>Input\<close>

lemma calm_sendMouse [calm_rules]: "runs strict (calm S) (sendMouse x y b)"
  unfolding sendMouse_def by (intro session.rules calm_rules)

lemma calm_send_now [calm_rules]: "runs strict (calm S) (send_now x y)"
  unfolding send_now_def by (intro session.rules calm_rules)

lemma calm_button_events [calm_rules]: "runs strict (calm S) (button_events x y d b)"
  unfolding button_events_def by (intro session.rules calm_rules calm_modify) (simp_all add: calm_local)

lemma calm_mouseButton [calm_rules]: "runs strict (calm S) (handleMouseButton x y d b)"
  unfolding handleMouseButton_def by (intro session.rules calm_rules calm_modify) (simp_all add: calm_local)

lemma calm_mouseMove [calm_rules]: "runs strict (calm S) (handleMouseMove env now x y)"
  unfolding handleMouseMove_def by (intro session.rules calm_rules calm_modify) (simp_all add: calm_local)

lemma calm_delayedMove [calm_rules]: "runs strict (calm S) (handleDelayedMouseMove now)"
  unfolding handleDelayedMouseMove_def by (intro session.rules calm_rules calm_modify) (simp_all add: calm_local)

lemma calm_mouse [calm_rules]: "runs strict (calm S) (handleMouse env pg e x y)"
  unfolding handleMouse_def by (cases e) (simp_all, (intro session.rules calm_rules)+)

lemma calm_click [calm_rules]: "runs strict (calm S) (click x y b)"
  unfolding click_def by (intro session.rules calm_rules)

lemma calm_wheel_axis [calm_rules]:
  "(\<And>s. calm S s (reset s)) \<Longrightarrow> runs strict (calm S) (wheel_axis acc reset x y n p)"
  unfolding wheel_axis_def by (intro session.rules calm_rules calm_modify)

lemma calm_wheel [calm_rules]: "runs strict (calm S) (handleWheel pg x y dx dy m)"
  unfolding handleWheel_def by (intro session.rules calm_rules calm_modify) (simp_all add: calm_local)

lemma calm_fakeMove [calm_rules]: "runs strict (calm S) (fakeMouseMove env pg cx cy x y)"
  unfolding fakeMouseMove_def by (intro session.rules calm_rules)

lemma calm_tap [calm_rules]: "runs strict (calm S) (handleTapEvent env pg ev b)"
  unfolding handleTapEvent_def case_prod_unfold by (intro session.rules calm_rules calm_modify) (simp_all add: calm_local)

lemma calm_scroll_loop:
  assumes "\<And>v s. calm S s (put v s)" "runs strict (calm S) act"
  shows "runs strict (calm S) (scroll_loop n dir sens mag get put act)"
  by (induction n) (simp_all, (intro session.rules calm_modify assms; assumption?)+)

lemma calm_scrolls [calm_rules]:
  "runs strict (calm S) act \<Longrightarrow> runs strict (calm S) (scroll dir sens mag get put_magX act)"
  "runs strict (calm S) act \<Longrightarrow> runs strict (calm S) (scroll dir sens mag get put_magY act)"
  unfolding scroll_def
  by (intro session.rules calm_scroll_loop, simp_all add: put_magX_def put_magY_def calm_local)+

lemma calm_gesture [calm_rules]: "runs strict (calm S) (handleGesture env pg ev)"
  unfolding handleGesture_def gesture_start_def gesture_move_def gesture_end_def twodrag_move_def pinch_move_def
    control_key_def Let_def case_prod_unfold
  by (cases "ge_type ev")
    (simp_all only: gesture_type.case, (intro session.rules calm_rules calm_modify; simp add: calm_local put_magX_def)+)

lemma calm_gestures [calm_rules]: "runs strict (calm S) (handleGestures env pg es)"
  by (induction es) (simp_all, (intro session.rules calm_rules; assumption?)+)

lemma calm_touch [calm_rules]: "runs strict (calm S) (touch_input env pg e)"
  unfolding touch_input_def by (intro session.rules calm_rules calm_modify) (simp_all add: calm_local)

section \<open>Decoders\<close>

text \<open>Raw, CopyRect, RRE and Hextile run on the session itself.\<close>

lemma calm_copyrect [calm_rules]: "runs strict (calm S) (copyrect_decodeRect x y w h)"
  unfolding copyrect_decodeRect_def by (intro session.rules calm_rules)

lemma calm_rre_loop [calm_rules]: "runs strict (calm S) (rre_loop n x y)"
  by (induction n) (simp_all, (intro session.rules calm_rules calm_modify; assumption?; simp add: calm_local)+)

lemma calm_rre [calm_rules]: "runs strict (calm S) (rre_decodeRect x y w h)"
  unfolding rre_decodeRect_def by (intro session.rules calm_rules calm_modify) (simp_all add: calm_local)

lemma calm_raw [calm_rules]: "runs strict (calm S) (raw_decodeRect x y w h depth)"
  unfolding raw_decodeRect_def by (intro session.rules calm_rules calm_modify) (simp_all add: calm_local)

lemma calm_hex_process [calm_rules]: "runs strict (calm S) (hex_process t x y w h bs)"
  unfolding hex_process_def by (intro session.rules calm_rules calm_modify) (simp_all add: calm_local sock_hextile)

lemma calm_hex_step [calm_rules]: "runs strict (calm S) (hex_step x y w h)"
  unfolding hex_step_def hex_throw_def by (intro session.rules calm_rules)

lemma calm_hex_loop [calm_rules]: "runs strict (calm S) (hex_loop n x y w h)"
  by (induction n) (simp_all, (intro session.rules calm_rules calm_modify; assumption?; simp add: calm_local)+)

lemma calm_hextile [calm_rules]: "runs strict (calm S) (hextile_decodeRect x y w h)"
  unfolding hextile_decodeRect_def by (intro session.rules calm_rules calm_modify) (simp_all add: calm_local)

text \<open>Tight and TightPNG run on their own object.\<close>

lemma tight_on_sock [calm_rules]: "runs strict S m \<Longrightarrow> runs strict (calm_sock S) (on_sock m)"
  unfolding on_sock_def by (erule runs_zoom) (simp add: calm_sock_def)

lemma tight_on_disp [calm_rules]: "runs strict (calm_sock S) (on_disp m)"
  unfolding on_disp_def by (rule runs_zoom_any) (simp add: calm_sock_def refl)

lemma tight_set_this [calm_rules]: "runs strict (calm_sock S) (set_this f)"
  unfolding set_this_def by (rule runs_modify) (simp add: calm_sock_def refl)

lemma tight_this_get [calm_rules]: "runs strict (calm_sock S) (this_get f)"
  unfolding this_get_def by (rule tight.gets)

lemma tight_on_zlib [calm_rules]: "runs strict (calm_sock S) (on_zlib i m)"
  unfolding on_zlib_def by (rule runs_zoom_any) (simp add: calm_sock_def refl)

lemma tight_readData [calm_rules]: "runs strict (calm_sock S) readData"
  unfolding readData_def by (intro tight.rules calm_rules)

lemma tight_filter_data [calm_rules]: "runs strict (calm_sock S) (filter_data pako i n)"
  unfolding filter_data_def by (intro tight.rules calm_rules)

lemma tight_copyFilter [calm_rules]: "runs strict (calm_sock S) (copyFilter pako i x y w h)"
  unfolding copyFilter_def by (intro tight.rules calm_rules)

lemma tight_palettes [calm_rules]:
  "runs strict (calm_sock S) (monoRect x y w h d p)" "runs strict (calm_sock S) (paletteRect x y w h d p)"
  unfolding monoRect_def paletteRect_def by (intro tight.rules calm_rules)+

lemma tight_paletteFilter [calm_rules]: "runs strict (calm_sock S) (paletteFilter pako i x y w h)"
  unfolding paletteFilter_def by (intro tight.rules calm_rules)

lemma tight_rects [calm_rules]:
  "runs strict (calm_sock S) (tight_fillRect x y w h)" "runs strict (calm_sock S) (jpegRect x y w h)"
  "runs strict (calm_sock S) (tight_pngRect x y w h)" "runs strict (calm_sock S) (tight_basicRect pako c x y w h)"
  "runs strict (calm_sock S) (tightpng_pngRect x y w h)" "runs strict (calm_sock S) (tightpng_basicRect c x y w h)"
  unfolding tight_fillRect_def jpegRect_def image_data_def tight_pngRect_def tight_basicRect_def
    tightpng_pngRect_def tightpng_basicRect_def gradientFilter_def
  by (intro tight.rules calm_rules)+

lemma tight_decode_calm:
  assumes "\<And>x y w h. runs strict (calm_sock S) (png x y w h)" "\<And>c x y w h. runs strict (calm_sock S) (basic c x y w h)"
  shows "runs strict (calm_sock S) (tight_decode png basic x y w h)"
  unfolding tight_decode_def by (intro tight.rules calm_rules assms)

lemma tight_decoders [calm_rules]:
  "runs strict (calm_sock S) (tight_decodeRect pako x y w h)" "runs strict (calm_sock S) (tightpng_decodeRect x y w h)"
  unfolding tight_decodeRect_def tightpng_decodeRect_def by (intro tight_decode_calm calm_rules)+

lemma calm_decoder:
  assumes "decoder env depth enc = Some d"
  shows "runs strict (calm S) (d x y w h)"
  using assms unfolding decoder_def
  by (auto split: if_splits intro: calm_rules)

section \<open>Messages\<close>

text \<open>Those without a step back in the queue.\<close>

lemma calm_shift_sizes [calm_rules]: "runs strict (calm S) (shift_sizes fs bs)"
  by (induction bs) (simp_all only: shift_sizes.simps, (intro session.rules calm_rules; assumption?)+)

lemma calm_clipboard [calm_rules]:
  "runs strict (calm S) (clipboard_caps f a)" "runs strict (calm S) (clipboard_request env f)"
  "runs strict (calm S) clipboard_peek" "runs strict (calm S) (clipboard_notify f)"
  "runs strict (calm S) (clipboard_provide env f l)"
  unfolding clipboard_caps_def clipboard_request_def clipboard_peek_def clipboard_notify_def clipboard_provide_def
  by (intro session.rules calm_rules calm_modify; simp add: calm_local)+

lemma calm_shift32s [calm_rules]: "runs strict (calm S) (shift32s n)"
  by (induction n) (simp_all, (intro session.rules calm_rules; assumption?)+)

lemma calm_shift_lists [calm_rules]: "runs strict (calm S) (shift_tunnels n)" "runs strict (calm S) (shift_caps n)"
  by (induction n) (simp_all, (intro session.rules calm_rules; assumption?)+)

lemma calm_wait_else: "runs strict (calm S) m \<Longrightarrow> runs strict (calm S) (wait_else n 0 m)"
  unfolding wait_else_def by (intro session.rules calm_rules)

lemma calm_cursor [calm_rules]: "runs strict (calm S) (handleCursor env)"
  unfolding handleCursor_def by (intro session.rules calm_rules calm_wait_else)

lemma calm_screens [calm_rules]: "runs strict (calm S) (skip_screens n)" "runs strict (calm S) (read_screens n)"
proof -
  show s: "runs strict (calm S) (skip_screens n)" for n
    by (induction n) (simp_all, (intro session.rules calm_rules; assumption?)+)
  show "runs strict (calm S) (read_screens n)"
    unfolding read_screens_def first_screen_def
    by (intro session.rules calm_rules calm_modify s) (simp_all add: calm_local)
qed

lemma calm_desktopSize [calm_rules]: "runs strict (calm S) handleExtendedDesktopSize"
  unfolding handleExtendedDesktopSize_def
  by (intro session.rules calm_rules calm_wait_else calm_modify) (simp_all add: calm_local)

lemma calm_continuous_end [calm_rules]: "runs strict (calm S) endOfContinuousUpdates"
  unfolding endOfContinuousUpdates_def by (intro session.rules calm_rules calm_modify) (simp_all add: calm_local)

end

end
