(* ===== verification/Session_Steps.thy ===== *)
theory Session_Steps
  imports Session_Frames
begin

text \<open>
  The whole session preserves what its parts preserve. The locale \<open>session_frame\<close> states, for a relation
  \<open>R\<close> between states of the session and one \<open>Q\<close> between sockets, what has to be shown: \<open>R\<close> allows the calm
  operations, the three changes of the connection state and the browser's changes of the channel. Its lemmas
  give the handlers of the handshake and of every message but the framebuffer update. With the update as one
  more law (\<open>session_steps\<close>) every step of the session respects \<open>R\<close>.
\<close>

named_theorems step_rules

locale session_frame = Q: socket_frame False Q + frame False R
  for Q :: "websock \<Rightarrow> websock \<Rightarrow> bool" and R :: "rfb \<Rightarrow> rfb \<Rightarrow> bool" +
  assumes waits: "runs False Q (rQwait n k)" "runs False Q (rQwait_back n i)"
    and decode: "runs False Q (DecodeMessage d)"
    and reset: "Q u (u\<lparr>rQlen' := 0, rQi := 0\<rparr>)"
    and off_law: "Q u (off e u)"
    and calm: "calm Q s t \<Longrightarrow> R s t"
    and disconnecting [step_rules]: "runs False R to_disconnecting"
    and disconnected [step_rules]: "runs False R to_disconnected"
    and connected [step_rules]: "runs False R (updateConnectionState env Connected)"
    and opens: "ws_channel (sock s) = Some CONNECTING \<Longrightarrow> R s (s\<lparr>sock := (sock s)\<lparr>ws_channel := Some OPEN\<rparr>\<rparr>)"
    and closes: "r = CLOSING \<or> r = CLOSED \<Longrightarrow> R s (s\<lparr>sock := (sock s)\<lparr>ws_channel := Some r\<rparr>\<rparr>)"
begin

lemma calm_runs: "runs False (calm Q) m \<Longrightarrow> runs False R m"
  by (erule runs_mono) (rule calm)

lemma calm_modified: "(\<And>s. calm Q s (f s)) \<Longrightarrow> runs False R (modify f)"
  by (rule calm_runs) (rule runs_modify)

lemma local_change:
  "rfbConnectionState t = rfbConnectionState s \<Longrightarrow> disconnTimer t = disconnTimer s \<Longrightarrow> FBU t = FBU s \<Longrightarrow>
   events t = events s \<Longrightarrow> sock t = sock s \<Longrightarrow> R s t"
  by (rule calm) (simp add: calm_def life_def Q.refl)

section \<open>Ends of the connection\<close>

lemma step_fail [step_rules]: "runs False R fail"
  unfolding fail_def by (intro rules step_rules calm_modified) (simp_all add: calm_def life_def Q.refl)

lemma step_failing [step_rules]: "runs False R failing"
  unfolding failing_def by (rule step_fail)

lemma step_off: "runs False R (on_sock (modify (off e)))" "runs False R (on_sock (modify (off a \<circ> off b \<circ> off c)))"
  by (intro calm_runs Q.calm_on_sock runs_modify, simp add: off_law)
    (intro calm_runs Q.calm_on_sock runs_modify, simp, blast intro: off_law Q.trans)

lemma step_socket_events [step_rules]:
  "runs False R socketOpen" "runs False R disconnect" "runs False R disconnect_timeout"
  unfolding socketOpen_def disconnect_def disconnect_timeout_def
  by (intro rules step_rules calm_modified step_off, simp add: calm_def life_def Q.refl)
    (intro rules step_rules step_off)+

lemma step_socketClose [step_rules]: "runs False R socketClose"
proof -
  have "runs False R (case c of Connected \<Rightarrow> thenx to_disconnecting to_disconnected
      | Disconnecting \<Rightarrow> to_disconnected | _ \<Rightarrow> thenx fail (ret ()))" for c
    by (cases c) (simp_all, (intro rules step_rules)+)
  then show ?thesis
    unfolding socketClose_def
    by (intro rules step_off calm_modified) (simp_all add: calm_def life_def Q.refl)
qed

section \<open>The handshake\<close>

lemma step_set [step_rules]:
  "runs False R (set_init i)" "runs False R (set_scheme n)" "runs False R (set_vencrypt k)"
  unfolding set_init_def set_scheme_def set_vencrypt_def by (rule runs_modify, simp add: local_change)+

lemma step_wait_else [step_rules]:
  assumes "runs False R m" shows "runs False R (wait_else n k m)"
  unfolding wait_else_def by (intro assms rules calm_runs Q.calm_on_sock waits)

lemma step_wait_back_else [step_rules]:
  assumes "runs False R m" shows "runs False R (wait_back_else n k m)"
  unfolding wait_back_else_def by (intro assms rules calm_runs Q.calm_on_sock waits)

lemma step_credentials [step_rules]: "runs False R (credentials_required ts)"
  unfolding credentials_required_def by (intro rules calm_runs calm_rules) simp

lemma step_version [step_rules]: "runs False R negotiateProtocolVersion"
  unfolding negotiateProtocolVersion_def
  by (intro step_rules rules runs_modify calm_runs calm_rules) (simp_all add: local_change)

lemma step_reason [step_rules]:
  assumes "runs False R again" shows "runs False R (security_reason st again)"
  unfolding security_reason_def by (intro assms step_rules rules runs_modify) (simp_all add: local_change)

lemma step_authenticate [step_rules]:
  assumes "runs False R again" shows "runs False R (authenticate again)"
  unfolding authenticate_def by (intro assms step_rules rules)

lemma step_security [step_rules]:
  assumes "runs False R again" shows "runs False R (negotiateSecurity again)"
  unfolding negotiateSecurity_def by (intro assms step_rules rules calm_runs calm_rules)

lemma step_handleReason [step_rules]: "runs False R handleSecurityReason"
  unfolding handleSecurityReason_def Let_def
  by (intro step_rules rules calm_runs calm_rules) simp_all

lemma step_vnc [step_rules]: "runs False R negotiateStdVNCAuth"
  unfolding negotiateStdVNCAuth_def by (intro step_rules rules calm_runs calm_rules)

lemma step_xvp [step_rules]: "runs False R negotiateXvpAuth"
  unfolding negotiateXvpAuth_def case_prod_unfold by (intro step_rules rules calm_runs calm_rules)

lemma step_vencrypt [step_rules]:
  "runs False R vencrypt_plain" "runs False R vencrypt_subtypes" "runs False R vencrypt_length"
  "runs False R vencrypt_ack" "runs False R vencrypt_version" "runs False R negotiateVeNCryptAuth"
proof -
  show p: "runs False R vencrypt_plain"
    unfolding vencrypt_plain_def case_prod_unfold Let_def by (intro step_rules rules calm_runs calm_rules)
  show st: "runs False R vencrypt_subtypes"
    unfolding vencrypt_subtypes_def by (intro p step_rules rules calm_runs calm_rules)
  show l: "runs False R vencrypt_length"
    unfolding vencrypt_length_def
    by (intro st step_rules rules runs_modify calm_runs calm_rules) (simp_all add: local_change)
  show a: "runs False R vencrypt_ack"
    unfolding vencrypt_ack_def by (intro l step_rules rules calm_runs calm_rules)
  show v: "runs False R vencrypt_version"
    unfolding vencrypt_version_def by (intro a step_rules rules calm_runs calm_rules)
  show "runs False R negotiateVeNCryptAuth"
    unfolding negotiateVeNCryptAuth_def by (intro p st l a v rules)
qed

lemma step_unix [step_rules]: "runs False R negotiateTightUnixAuth"
  unfolding negotiateTightUnixAuth_def case_prod_unfold by (intro step_rules rules calm_runs calm_rules)

lemma step_tunnels [step_rules]: "runs False R (negotiateTightTunnels n)"
  unfolding negotiateTightTunnels_def by (intro step_rules rules calm_runs calm_rules)

lemma step_subauth [step_rules]:
  assumes "runs False R again" shows "runs False R (tight_subauth again)"
  unfolding tight_subauth_def by (intro assms step_rules rules calm_runs calm_rules)

lemma step_tight [step_rules]:
  assumes "runs False R again" shows "runs False R (negotiateTightAuth again)"
  unfolding negotiateTightAuth_def Let_def
  by (intro assms step_rules rules runs_modify calm_runs calm_rules) (simp_all add: local_change)

lemma step_auth [step_rules]:
  assumes "runs False R again" shows "runs False R (negotiateAuthentication again)"
  unfolding negotiateAuthentication_def by (intro assms step_rules rules)

lemma step_result [step_rules]:
  assumes "runs False R again" shows "runs False R (handleSecurityResult again)"
  unfolding handleSecurityResult_def by (intro assms step_rules rules calm_runs calm_rules) simp

lemma step_serverInit [step_rules]: "runs False R (negotiateServerInit env)"
proof -
  have d: "runs False R (server_init_done env w h n)" for w h n
    unfolding server_init_done_def
    by (intro step_rules rules runs_modify calm_runs calm_rules) (simp_all add: local_change)
  have c: "runs False R (tight_capabilities l m)" if "runs False R m" for l m
    unfolding tight_capabilities_def by (intro that step_rules rules calm_runs calm_rules)
  have e: "runs False R ((if t then tight_capabilities l else id) (server_init_done env w h n))" for t l w h n
    using c [OF d] d by simp
  show ?thesis
    unfolding negotiateServerInit_def by (intro e step_rules rules calm_runs calm_rules)
qed

lemma step_clientInit [step_rules]: "runs False R clientInitialisation"
  unfolding clientInitialisation_def by (intro step_rules rules calm_runs calm_rules)

lemma step_initMsg [step_rules]: "runs False R (initMsg (throw e) n env)"
proof (induction n)
  case (Suc n)
  have "runs False R (case i of
     ProtocolVersion \<Rightarrow> negotiateProtocolVersion
   | Security \<Rightarrow> negotiateSecurity (initMsg (throw e) n env)
   | Authentication \<Rightarrow> negotiateAuthentication (initMsg (throw e) n env)
   | SecurityResult \<Rightarrow> handleSecurityResult (initMsg (throw e) n env)
   | SecurityReason \<Rightarrow> handleSecurityReason
   | ClientInitialisation \<Rightarrow> clientInitialisation
   | ServerInitialisation \<Rightarrow> negotiateServerInit env
   | NoInit \<Rightarrow> failing)" for i
    using Suc by (cases i) (simp_all add: step_rules)
  then show ?case by (simp only: initMsg.simps) (intro rules)
qed (simp add: throw)

section \<open>Messages\<close>

lemma step_handleSecurity: "runs False R (init_message env)"
  unfolding init_message_def by (rule step_initMsg)

lemma step_cutText [step_rules]: "runs False R (handleServerCutText env)"
proof -
  have e: "runs False R (extended_clipboard env l)" for l
    unfolding extended_clipboard_def by (intro step_rules rules calm_runs calm_rules)
  show ?thesis
    unfolding handleServerCutText_def by (intro e step_rules rules calm_runs calm_rules) simp
qed

lemma step_fence [step_rules]: "runs False R handleServerFenceMsg"
  unfolding handleServerFenceMsg_def
  by (intro step_rules rules runs_modify calm_runs calm_rules) (simp_all add: local_change)

lemma step_xvpMsg [step_rules]: "runs False R handleXvpMsg"
  unfolding handleXvpMsg_def
  by (intro step_rules rules runs_modify calm_runs calm_rules) (simp_all add: local_change)

lemma step_vmware [step_rules]: "runs False R (handleVMwareCursor env)"
  unfolding handleVMwareCursor_def by (intro step_rules rules calm_runs calm_rules)

lemma step_desktopName [step_rules]: "runs False R handleDesktopName"
  unfolding handleDesktopName_def by (intro step_rules rules calm_runs calm_rules)

lemma step_dataRect [step_rules]: "runs False R (handleDataRect env enc)"
proof -
  have t: "runs False R (try_catch m h)" if "runs False R m" "runs False R h" for m h :: "bool session"
    using that unfolding runs_def try_catch_def case_prod_unfold by (auto intro: trans split: sum.split)
  show ?thesis
    unfolding handleDataRect_def by (intro t step_rules rules) (auto intro: calm_runs Q.calm_decoder)
qed

end

section \<open>All steps\<close>

locale session_steps = session_frame +
  assumes update [step_rules]: "runs False R (framebufferUpdate env)"
begin

lemma step_normalMsg [step_rules]: "runs False R (normalMsg env)"
proof -
  have "runs False R (normal_message env t)" for t
    unfolding normal_message_def handleFBU_def setColourMap_def
    by (intro step_rules rules calm_runs calm_rules) simp
  note n = this
  show ?thesis
    unfolding normalMsg_def by (intro n step_rules rules calm_runs calm_rules)
qed

lemma step_message_loop [step_rules]: "runs False R (message_loop (throw e) n env)"
proof (induction n)
  case (Suc n)
  show ?case unfolding message_loop.simps by (intro Suc step_rules rules)
qed (simp add: throw)

lemma step_handleMessage [step_rules]: "runs False R (handleMessage env)"
proof -
  have c: "runs False R (case c of Disconnected \<Rightarrow> ret () | Connected \<Rightarrow> message_loop (throw no_return) n env
      | _ \<Rightarrow> thenx (init_message env) (ret ()))" for c n
    by (cases c) (simp_all, (intro step_handleSecurity step_rules rules)+)
  show ?thesis unfolding handleMessage_def by (intro c rules)
qed

lemma step_flush [step_rules]: "runs False R (onFlush env)"
  unfolding onFlush_def by (intro step_rules rules runs_modify) (simp add: local_change)

lemma step_receive [step_rules]: "runs False R (receive_data env d)"
proof -
  have z: "runs False R (zoom sock (\<lambda>t s. s\<lparr>sock := t\<rparr>) (DecodeMessage d))"
    using calm_runs [OF Q.calm_on_sock [OF decode]] by (simp add: on_sock_def)
  have r: "runs False R (\<lambda>s. if P s then bindx h (\<lambda>_ s'. if Q s' then (Inr (), s'\<lparr>sock := (sock s')\<lparr>rQlen' := 0, rQi := 0\<rparr>\<rparr>)
      else (Inr (), s')) s else (Inr (), s))" if h: "runs False R h" for P Q and h :: "unit session"
  proof -
    have c: "R s (s\<lparr>sock := (sock s)\<lparr>rQlen' := 0, rQi := 0\<rparr>\<rparr>)" for s
      by (rule calm) (simp add: calm_def life_def reset)
    have "runs False R (bindx h (\<lambda>_ s'. if Q s' then (Inr (), s'\<lparr>sock := (sock s')\<lparr>rQlen' := 0, rQi := 0\<rparr>\<rparr>)
      else (Inr (), s')))"
      by (intro bindx h) (simp add: runs_def c refl)
    then show ?thesis by (simp add: runs_def refl)
  qed
  show ?thesis
    unfolding receive_data_def recvMessage_def
    by (intro rules z r step_rules)
qed

lemma step_image [step_rules]: "runs False R (image_loaded env i w h)"
  unfolding image_loaded_def by (intro step_rules rules calm_runs calm_rules)

section \<open>Steps\<close>

lemma step_provided: "runs False R m \<Longrightarrow> runs False R (provided P m)"
  unfolding provided_def by (rule bindx [OF gets]) (simp add: ret)

text \<open>Opening and closing of the channel.\<close>

lemma step_opens: "runs False R (session_step env SocketOpens)"
proof -
  let ?open = "\<lambda>s. s\<lparr>sock := (sock s)\<lparr>ws_channel := Some OPEN\<rparr>\<rparr>"
  note o = opens
  have "R s (snd (session_step env SocketOpens s))" for s
  proof (cases "ws_channel (sock s) = Some CONNECTING")
    case True
    have "snd (session_step env SocketOpens s)
        = snd ((if ws_handler (sock s) EvOpen then socketOpen else ret ()) (?open s))"
      using True by (simp add: provided_def socket_event_def on_sock_def exec_simps)
    moreover have "R (?open s) (snd ((if ws_handler (sock s) EvOpen then socketOpen else ret ()) (?open s)))"
      by (rule runsD) (intro step_rules rules)
    ultimately show ?thesis using o [OF True] by (auto intro: trans)
  qed (simp add: provided_def exec_simps refl)
  then show ?thesis by (rule runs_all)
qed

lemma step_closes: "runs False R (session_step env SocketCloses)" "runs False R (session_step env SocketCloseStarts)"
proof -
  have c: "runs False R (on_sock (modify (\<lambda>t. t\<lparr>ws_channel := Some r\<rparr>)))" if "r = CLOSING \<or> r = CLOSED" for r
    using that by (simp add: runs_def on_sock_def zoom_def modify_def closes)
  show "runs False R (session_step env SocketCloses)" "runs False R (session_step env SocketCloseStarts)"
    unfolding session_step.simps socket_event_def by (intro step_provided c rules step_rules; simp)+
qed

lemma step_keeps: "R s (snd (session_step env i s))"
proof -
  have "runs False R (session_step env i)"
  proof (cases i)
    case SocketOpens then show ?thesis by (simp only: step_opens)
  next
    case SocketCloses then show ?thesis by (simp only: step_closes)
  next
    case SocketCloseStarts then show ?thesis by (simp only: step_closes)
  next
    case (CallCredentials c)
    then show ?thesis by (simp add: sendCredentials_def) (rule runs_modify, simp add: local_change)
  next
    case (SetDrag b)
    then show ?thesis by simp (rule runs_modify, simp add: local_change)
  qed (simp_all only: session_step.simps,
      (intro step_provided step_handleSecurity step_rules rules calm_runs calm_rules)+)
  then show ?thesis by (rule runsD)
qed

lemma inputs_keeps: "R s (inputs env is s)"
  by (induction "is" arbitrary: s) (auto intro: refl trans [OF step_keeps])

end

end
