(* ===== verification/Session_Safety.thy ===== *)
theory Session_Safety
  imports Session_Steps
begin

text \<open>
  The life of a connection, over every sequence of inputs: which connection states follow which, the events
  that announce them to the page, and that nothing is sent once the session is disconnecting.
\<close>

section \<open>The relation\<close>

definition rank :: "conn \<Rightarrow> nat" where
  "rank c = (case c of NoConn \<Rightarrow> 0 | Connecting \<Rightarrow> 1 | Connected \<Rightarrow> 2 | Disconnecting \<Rightarrow> 3 | Disconnected \<Rightarrow> 4)"

definition shut :: "rfb \<Rightarrow> bool" where
  "shut s \<longleftrightarrow> rfbConnectionState s = Disconnecting \<or> rfbConnectionState s = Disconnected"

text \<open>The events announced so far fit the state, the timer runs only while the session is disconnecting, and
  the channel is not in use any more once it is.\<close>

definition announced :: "conn \<Rightarrow> rfb_event list \<Rightarrow> bool" where
  "announced c es = (case c of
     NoConn \<Rightarrow> es = []
   | Connecting \<Rightarrow> es = []
   | Connected \<Rightarrow> es = [EvConnect]
   | Disconnecting \<Rightarrow> es = [] \<or> es = [EvConnect]
   | Disconnected \<Rightarrow> es \<in> range (\<lambda>b. [EvDisconnect b]) \<union> range (\<lambda>b. [EvConnect, EvDisconnect b]))"

definition life_ok :: "rfb \<Rightarrow> bool" where
  "life_ok s \<longleftrightarrow> announced (rfbConnectionState s) (life s) \<and>
     (disconnTimer s \<longrightarrow> rfbConnectionState s = Disconnecting) \<and>
     (shut s \<longrightarrow> ws_channel (sock s) \<noteq> Some CONNECTING \<and> ws_channel (sock s) \<noteq> Some OPEN)"

definition live :: "rfb \<Rightarrow> rfb \<Rightarrow> bool" where
  "live s t \<longleftrightarrow> rank (rfbConnectionState s) \<le> rank (rfbConnectionState t) \<and>
     (life_ok s \<longrightarrow> life_ok t \<and> (shut s \<longrightarrow> ws_sent (sock t) = ws_sent (sock s)))"

lemma shut_rank: "shut s \<longleftrightarrow> 3 \<le> rank (rfbConnectionState s)"
  by (cases "rfbConnectionState s") (simp_all add: shut_def rank_def)

section \<open>Changes of the connection state\<close>

lemma sendKey_idle: "rfbConnectionState s \<noteq> Connected \<Longrightarrow> sendKey k c d s = (Inr (), s)"
  by (simp add: sendKey_def exec_simps)

lemma handleKeyEvents_idle: "rfbConnectionState s \<noteq> Connected \<Longrightarrow> handleKeyEvents as s = (Inr (), s)"
  by (induction as) (auto simp: exec_simps handleKeyEvent_def sendKey_idle)

lemma on_kb_idle:
  assumes "rfbConnectionState s \<noteq> Connected"
  shows "on_kb f s = (Inr (), s\<lparr>kb := f (kb s)\<rparr>)"
proof -
  have "rfbConnectionState (s\<lparr>kb := f (kb s)\<rparr>) \<noteq> Connected" using assms by simp
  from handleKeyEvents_idle [OF this] show ?thesis by (simp add: on_kb_def bindx_gets thenx_modify Let_def)
qed

text \<open>What \<open>_disconnect\<close> does; it is called in the state \<open>Disconnecting\<close> only.\<close>

lemma disconnect_objects_eq:
  assumes "rfbConnectionState s \<noteq> Connected"
  shows "disconnect_objects s = (Inr (), s\<lparr>crs := cursor_detach (crs s), listening := False, observing := False,
    kb := ungrab (kb s), gest := gesture_detach (gest s), sock := ws_close (sock s),
    attached_screen := False, resizeTimeout := False, mouseMovePending := False\<rparr>)"
  unfolding disconnect_objects_def
  by (simp add: thenx_def bindx_def on_cursor_def on_sock_def zoom_def modify_def on_kb_idle assms)

lemma to_disconnecting_eq:
  "to_disconnecting s = (Inr (), if transition_ok (rfbConnectionState s) Disconnecting
     then s\<lparr>rfbConnectionState := Disconnecting, crs := cursor_detach (crs s), listening := False, observing := False,
       kb := ungrab (kb s), gest := gesture_detach (gest s), sock := ws_close (sock s),
       attached_screen := False, resizeTimeout := False, mouseMovePending := False, disconnTimer := True\<rparr>
     else s)"
  unfolding to_disconnecting_def change_state_def
  by (simp add: thenx_def bindx_def gets_def modify_def ret_def disconnect_objects_eq)

lemma to_disconnected_eq:
  "to_disconnected s = (Inr (), if rfbConnectionState s = Disconnecting
     then s\<lparr>rfbConnectionState := Disconnected, disconnTimer := False,
       sock := (if disconnTimer s then off EvClose (sock s) else sock s),
       events := events s @ [EvDisconnect (rfbCleanDisconnect s)]\<rparr>
     else s)"
  unfolding to_disconnected_def change_state_def transition_ok_def dispatch_def
  by (simp add: thenx_def bindx_def gets_def modify_def ret_def)

lemma ws_close_closed:
  "ws_channel (ws_close t) \<noteq> Some CONNECTING \<and> ws_channel (ws_close t) \<noteq> Some OPEN \<and> ws_sent (ws_close t) = ws_sent t"
  by (auto simp: ws_close_def readyState_def split: option.splits ready_state.splits)

lemma disconnecting_live: "runs False live to_disconnecting"
  unfolding runs_def to_disconnecting_eq
  by (auto simp: live_def life_ok_def life_def announced_def rank_def shut_def transition_ok_def ws_close_closed
      split: conn.splits)

lemma disconnected_live: "runs False live to_disconnected"
  unfolding runs_def to_disconnected_eq
  by (auto simp: live_def life_ok_def life_def announced_def rank_def shut_def off_def split: conn.splits)

lemma connected_live: "runs False live (updateConnectionState env Connected)"
  unfolding runs_def updateConnectionState_def change_state_def dispatch_def
  by (auto simp: thenx_def bindx_def gets_def modify_def ret_def transition_ok_def live_def life_ok_def life_def
      announced_def rank_def shut_def split: conn.splits)

lemma live_channel: "r = CLOSING \<or> r = CLOSED \<Longrightarrow> live s (s\<lparr>sock := (sock s)\<lparr>ws_channel := Some r\<rparr>\<rparr>)"
    "ws_channel (sock s) = Some CONNECTING \<Longrightarrow> live s (s\<lparr>sock := (sock s)\<lparr>ws_channel := Some OPEN\<rparr>\<rparr>)"
  by (auto simp: live_def life_ok_def life_def shut_def)

lemma live_calms: "calm quiet s t \<Longrightarrow> live s t"
  by (auto simp: calm_def live_def life_ok_def shut_def quiet_def ws_open_def)

interpretation live: session_frame quiet live
proof
  show "live s s" for s by (simp add: live_def)
  show "live s t \<Longrightarrow> live t u \<Longrightarrow> live s u" for s t u by (auto simp: live_def shut_rank)
  show "quiet u (off e u)" for u e by (simp add: off_def quiet_fields)
  show "quiet u (u\<lparr>rQlen' := 0, rQi := 0\<rparr>)" for u by (simp add: quiet_fields)
qed (rule moves_readers(1,7) [THEN runs_mono, OF moves_quiet] quiet_decode disconnecting_live disconnected_live
    connected_live live_calms live_channel; assumption?)+

text \<open>A framebuffer update does not change what the relation looks at.\<close>

lemma live_local:
  "rfbConnectionState t = rfbConnectionState s \<Longrightarrow> disconnTimer t = disconnTimer s \<Longrightarrow> events t = events s \<Longrightarrow>
   sock t = sock s \<Longrightarrow> live s t"
  by (simp add: live_def life_ok_def life_def shut_def)

lemmas live_calm = step_rules live.rules runs_modify live.calm_runs calm_rules

lemma live_rect: "runs False live (handleRect env)"
  unfolding handleRect_def by (intro live_calm) (simp_all add: live_local)

lemma live_rect_loop: "runs False live (rect_loop n env)"
proof (induction n)
  case (Suc n)
  show ?case
    unfolding rect_loop.simps rect_done_def by (intro Suc live_rect live_calm) (simp_all add: live_local)
qed (simp add: live.ret)

lemma live_update: "runs False live (framebufferUpdate env)"
  unfolding framebufferUpdate_def update_rects_def
  by (intro live_rect_loop live_calm) (simp_all add: live_local)

interpretation live: session_steps quiet live
  by unfold_locales (rule live_update)

section \<open>The constructor\<close>

text \<open>The receive queue stays empty and the send buffer keeps its size.\<close>

definition idle :: "websock \<Rightarrow> websock \<Rightarrow> bool" where
  "idle s t \<longleftrightarrow> (rQlen' s = 0 \<longrightarrow> rQlen' t = 0) \<and> sQbufferSize t = sQbufferSize s"

lemma moves_idle: "moves s t \<Longrightarrow> idle s t"
  by (auto simp: moves_def idle_def)

lemmas idle_readers = moves_readers [THEN runs_mono, OF moves_idle] shift_moves [THEN runs_mono, OF moves_idle]

lemma attach_state:
  "calm idle s (snd (on_sock (attach props ready) s)) \<and>
   rfbInitState (snd (on_sock (attach props ready) s)) = rfbInitState s"
  by (simp add: on_sock_def zoom_def calm_def life_def case_prod_unfold idle_def attach_def Let_def ws_init_def allocateBuffers_def)

interpretation idle: socket_frame False idle
proof
  show "idle s (flush s)" for s by (simp add: idle_def flush_def)
  show "idle s (rQskipBytes k s)" for s k by (simp add: idle_def rQskipBytes_def)
qed (rule idle_readers | simp add: idle_def)+

text \<open>In the state \<open>Connecting\<close>, before the handshake, the constructor only opens or attaches the channel.\<close>

lemma connect_calm:
  assumes "rfbConnectionState s = Connecting" "rfbInitState s = NoInit"
  shows "calm idle s (snd (rfb_connect env s))"
proof -
  let ?C = "calm idle"
  let ?open = "\<lambda>ch. case ch of None \<Rightarrow> on_sock (attach rawChannelProps CONNECTING)
    | Some (props, ready) \<Rightarrow> thenx (on_sock (attach props ready))
        (bindx (gets (readyState \<circ> sock)) (\<lambda>r.
           if r = ''closed'' then throw (JsError ''Cannot use already closed WebSocket/RTCDataChannel'')
           else if r = ''open'' then socketOpen else ret ()))"
  have a: "?C s (snd (?open (rawChannel s) s))"
  proof (cases "rawChannel s")
    case (Some p)
    obtain props ready where p: "p = (props, ready)" by force
    let ?t = "snd (on_sock (attach props ready) s)"
    have t: "?C s ?t" "rfbInitState ?t = NoInit" "rfbConnectionState ?t = Connecting"
      using attach_state [of s props ready] assms by (simp_all add: calm_def)
    have "?C ?t (snd (socketOpen ?t))"
      using t(2,3) by (simp add: socketOpen_def exec_simps calm_def life_def idle_def)
    with t(1) have "?C s (snd (socketOpen ?t))" by (auto intro: idle.session.trans)
    with t(1) show ?thesis
      by (simp add: Some p thenx_def snd_bindx gets_def throw_def ret_def split: sum.split)
  qed (simp add: attach_state)
  have rest: "runs False ?C (thenx (modify (\<lambda>s. s\<lparr>attached_screen := True, gest := gesture_attach (gest s)\<rparr>))
    (thenx (on_cursor (cursor_attach (useFallback env))) (thenx (refreshCursor env)
      (modify (\<lambda>s. s\<lparr>observing := True, listening := True\<rparr>)))))"
    by (intro idle.session.rules calm_rules runs_modify) (simp_all add: calm_def life_def idle_def)
  show ?thesis
    unfolding rfb_connect_def
    by (subst thenx_def, simp only: snd_bindx bindx_gets)
      (use a runsD [OF rest] in \<open>auto split: sum.split simp: fst_bindx gets_def intro: idle.session.trans\<close>)
qed

lemma construct_calm:
  assumes "construct env (new_rfb env channel creds shr repeater w h) = (Inr (), s)"
  shows "calm idle ((new_rfb env channel creds shr repeater w h)\<lparr>rfbConnectionState := Connecting\<rparr>) s"
proof -
  let ?s = "(new_rfb env channel creds shr repeater w h)\<lparr>rfbConnectionState := Connecting\<rparr>"
  have "s = snd (rfb_connect env ?s)"
    using assms by (simp add: construct_def updateConnectionState_def change_state_def transition_ok_def exec_simps
      new_rfb_def split: prod.splits)
  moreover have "calm idle ?s (snd (rfb_connect env ?s))"
    by (rule connect_calm) (simp_all add: new_rfb_def)
  ultimately show ?thesis by simp
qed

lemma constructed_ok:
  "construct env (new_rfb env channel creds shr repeater w h) = (Inr (), s) \<Longrightarrow> life_ok s"
  by (drule construct_calm) (simp add: calm_def life_ok_def shut_def announced_def life_def new_rfb_def)

lemma reached_ok: "reached env s \<Longrightarrow> life_ok s"
proof (induction rule: reached.induct)
  case (step s i)
  then show ?case using live.step_keeps [of s env i] by (simp add: live_def)
qed (rule constructed_ok)

section \<open>The properties\<close>

text \<open>C1. At any time the page has been told of the connection and of its end as the state says: nothing
  before the session is connected, one \<open>connect\<close> event while it is, and exactly one \<open>disconnect\<close> event once
  it is disconnected, after everything else; the disconnection timer runs only while disconnecting.\<close>

theorem connection_announced:
  assumes "reached env s"
  shows "filter lifecycle (events s) \<in> (case rfbConnectionState s of
      NoConn \<Rightarrow> {[]}
    | Connecting \<Rightarrow> {[]}
    | Connected \<Rightarrow> {[EvConnect]}
    | Disconnecting \<Rightarrow> {[], [EvConnect]}
    | Disconnected \<Rightarrow> range (\<lambda>b. [EvDisconnect b]) \<union> range (\<lambda>b. [EvConnect, EvDisconnect b]))
    \<and> (disconnTimer s \<longrightarrow> rfbConnectionState s = Disconnecting)"
  using reached_ok [OF assms] by (auto simp: life_ok_def announced_def life_def split: conn.splits)

text \<open>C2. Once the session is disconnecting it stays so or becomes disconnected, which is permanent, and
  nothing more is sent to the server, whatever the socket, the page, the user or the timers do.\<close>

theorem silent_after_disconnect:
  assumes "reached env s" and "rfbConnectionState s = Disconnecting \<or> rfbConnectionState s = Disconnected"
  shows "ws_sent (sock (inputs env is s)) = ws_sent (sock s)
    \<and> (rfbConnectionState (inputs env is s) = Disconnected
       \<or> rfbConnectionState (inputs env is s) = Disconnecting \<and> rfbConnectionState s = Disconnecting)"
proof -
  have l: "live s (inputs env is s)" by (rule live.inputs_keeps)
  have "life_ok s" "shut s" using reached_ok [OF assms(1)] assms(2) by (auto simp: shut_def)
  with l have "ws_sent (sock (inputs env is s)) = ws_sent (sock s)" by (simp add: live_def)
  moreover have "rank (rfbConnectionState s) \<le> rank (rfbConnectionState (inputs env is s))"
    using l by (simp add: live_def)
  ultimately show ?thesis using assms(2)
    by (cases "rfbConnectionState (inputs env is s)") (auto simp: rank_def)
qed

section \<open>Witnesses\<close>

text \<open>A session that has just been constructed for a URL.\<close>

definition plain_env :: rfb_env where
  "plain_env = \<lparr>env_pako = (\<lambda>_. (0, [])), env_deflate = id, env_math = \<lparr>hypot = (\<lambda>a b. max \<bar>a\<bar> \<bar>b\<bar>), atan2 = (\<lambda>_ _. 0)\<rparr>,
     useFallback = False, dragThreshold = 5, viewport_offset = None\<rparr>"

definition no_credentials :: credentials where
  "no_credentials = \<lparr>username = None, password = None, cr_target = None\<rparr>"

definition started :: rfb where
  "started = snd (construct plain_env (new_rfb plain_env None no_credentials True [] 800 600))"

lemma construct_started:
  "construct plain_env (new_rfb plain_env None no_credentials True [] 800 600) = (Inr (), started)
   \<and> rfbConnectionState started = Connecting"
  unfolding started_def
  by (simp add: construct_def updateConnectionState_def change_state_def transition_ok_def new_rfb_def exec_simps
      rfb_connect_def on_sock_def attach_def Let_def on_cursor_def cursor_attach_def cursor_clear_def new_cursor_def
      refreshCursor_def shouldShowDotCursor_def cursor_none_def cursor_change_def plain_env_def cursor_detach_def
      rawChannelProps_def id_def)

lemma started_reached: "reached plain_env started"
  using construct_started by (blast intro: reached.constructed)

theorem connection_announced_witness: "filter lifecycle (events started) = []"
  using connection_announced [OF started_reached] construct_started by simp

definition ending :: rfb where
  "ending = inputs plain_env [CallDisconnect] started"

lemma ending_disconnecting: "rfbConnectionState ending = Disconnecting"
  using construct_started
  by (simp add: ending_def disconnect_def thenx_def bindx_def to_disconnecting_eq transition_ok_def on_sock_def
      zoom_def modify_def)

theorem silent_after_disconnect_witness:
  "ws_sent (sock (inputs plain_env [SocketCloses, CallCtrlAltDel] ending)) = ws_sent (sock ending)"
  using silent_after_disconnect [of plain_env ending] reached_inputs [OF started_reached] ending_disconnecting
  by (simp add: ending_def del: inputs.simps)

end
