(* ===== verification/Session_Types.thy ===== *)
theory Session_Types
  imports Session_Safety
begin

text \<open>
  What every reached session satisfies of its counters: the receive buffer is as long as the receive queue
  says, and the number of rectangles to come is not negative.
\<close>

text \<open>The description of a rectangle: positions and sizes of 16 bits, an encoding of 32 bits with a sign.\<close>

definition fbu_ok :: "fbu \<Rightarrow> bool" where
  "fbu_ok f \<longleftrightarrow> rects f \<in> {0..<2 ^ 16} \<and> fbu_x f \<in> {0..<2 ^ 16} \<and> fbu_y f \<in> {0..<2 ^ 16} \<and>
     fbu_w f \<in> {0..<2 ^ 16} \<and> fbu_h f \<in> {0..<2 ^ 16} \<and>
     (\<forall>e. encoding f = Some e \<longrightarrow> e \<in> {- (2 ^ 31)..<2 ^ 31})"

definition consistent :: "rfb \<Rightarrow> bool" where
  "consistent s \<longleftrightarrow> rQlen' (sock s) \<le> length (rQ (sock s)) \<and> fbu_ok (FBU s)"

lemma fbu_ok_rects: "fbu_ok f \<Longrightarrow> fbu_ok (f\<lparr>rects := n\<rparr>) \<longleftrightarrow> n \<in> {0..<2 ^ 16}"
  by (simp add: fbu_ok_def)

lemma fbu_ok_done: "fbu_ok f \<Longrightarrow> 0 < rects f \<Longrightarrow> fbu_ok (f\<lparr>rects := rects f - 1, encoding := None\<rparr>)"
  by (simp add: fbu_ok_def)

lemma u16_range: "js_shl (uint (a :: byte)) 8 + uint (b :: byte) \<in> {0..<2 ^ 16}"
  using uint_byte_range [of a] uint_byte_range [of b] by (simp add: js_shl_byte del: uint_byte_range)

lemma s32_range:
  "js_shl (uint (a :: byte)) 24 + js_shl (uint (b :: byte)) 16 + js_shl (uint (c :: byte)) 8 + uint (d :: byte)
    \<in> {- (2 ^ 31)..<2 ^ 31}"
proof -
  have "js_shl (uint a) 24 \<in> {- (2 ^ 31)..2 ^ 31 - 2 ^ 24}"
  proof (cases "uint a < 128")
    case True
    then have "js_shl (uint a) 24 = uint a * 2 ^ 24" by (simp add: js_shl_nonneg)
    with True show ?thesis by (simp add: order_trans [of "- 128" 0 "uint a"])
  next
    case False
    then have "js_shl (uint a) 24 = uint a * 2 ^ 24 - 2 ^ 32"
      using uint_byte_range(2) [of a] by (simp add: js_shl_byte_24 toSigned32bit_high del: uint_byte_range)
    with False uint_byte_range(2) [of a] show ?thesis by (simp del: uint_byte_range)
  qed
  moreover have "uint b * 65536 + uint c * 256 + uint d < 16777216"
    using uint_byte_range(2) [of b] uint_byte_range(2) [of c] uint_byte_range(2) [of d] by linarith
  moreover have "0 \<le> uint b * 65536 + uint c * 256 + uint d" by simp
  ultimately obtain v where v: "uint b * 65536 + (uint c * 256 + uint d) = v" "0 \<le> v" "v < 16777216"
      "js_shl (uint a) 24 \<in> {- (2 ^ 31)..2 ^ 31 - 2 ^ 24}"
    by (simp add: add.assoc)
  then show ?thesis by (simp add: js_shl_byte add.assoc)
qed

lemma fbu_ok_header: "fbu_ok f \<Longrightarrow> fbu_ok (rect_header hdr f)"
  using u16_range s32_range by (simp add: fbu_ok_def rect_header_def Let_def del: atLeastLessThan_iff)

section \<open>Outside framebuffer updates\<close>

definition bounded :: "websock \<Rightarrow> websock \<Rightarrow> bool" where
  "bounded s t \<longleftrightarrow> rQlen' s \<le> length (rQ s) \<longrightarrow> rQlen' t \<le> length (rQ t)"

lemma bounded_fields: "rQlen' t = rQlen' s \<Longrightarrow> length (rQ t) = length (rQ s) \<Longrightarrow> bounded s t"
  by (simp add: bounded_def)

lemma moves_bounded: "moves s t \<Longrightarrow> bounded s t"
  by (auto simp: moves_def bounded_def)

lemmas bounded_readers = moves_readers [THEN runs_mono, OF moves_bounded] shift_moves [THEN runs_mono, OF moves_bounded]

interpretation bounded: socket_frame False bounded
proof
  show "bounded s s" for s by (simp add: bounded_def)
  show "bounded s t \<Longrightarrow> bounded t u \<Longrightarrow> bounded s u" for s t u by (simp add: bounded_def)
  show "bounded s (flush s)" for s by (simp add: bounded_def flush_def)
  show "bounded s (rQskipBytes k s)" for s k by (simp add: bounded_def rQskipBytes_def)
  show "bounded s (s\<lparr>rQ := set_alpha base k (rQ s)\<rparr>)" for s base k by (simp add: bounded_def length_alpha)
qed (rule bounded_readers | simp add: bounded_def)+

lemma bounded_expand: "bounded s (snd (expandCompactRQ n s))"
  by (auto simp: bounded_def expandCompactRQ_def Let_def rQlen_def)

lemma bounded_decode: "runs False bounded (DecodeMessage d)"
proof -
  have "runs False bounded (expandCompactRQ n)" for n
    by (simp add: runs_def bounded_expand)
  moreover have "runs False bounded (\<lambda>s. case ta_set (rQ s) (rQlen' s) d of Inl e \<Rightarrow> (Inl e, s)
      | Inr q \<Rightarrow> (Inr (), s\<lparr>rQ := q, rQlen' := rQlen' s + length d\<rparr>))"
    by (auto simp: runs_def bounded_def ta_set_def length_write_at split: sum.split if_splits)
  ultimately show ?thesis
    unfolding DecodeMessage_def by (intro bounded.bindx) (auto simp: runs_def bounded.refl)
qed

definition steady :: "rfb \<Rightarrow> rfb \<Rightarrow> bool" where
  "steady s t \<longleftrightarrow> FBU t = FBU s \<and> bounded (sock s) (sock t)"

lemma bounded_ends: "bounded t (ws_close t)" "bounded t (off e t)"
  by (auto simp: bounded_def ws_close_def off_def split: option.splits)

lemma steady_ends:
  "runs False steady to_disconnecting" "runs False steady to_disconnected"
  "runs False steady (updateConnectionState env Connected)"
  unfolding runs_def to_disconnecting_eq to_disconnected_eq updateConnectionState_def change_state_def dispatch_def
  by (auto simp: steady_def bounded_ends bounded.refl thenx_def bindx_def gets_def modify_def ret_def)

lemmas bounded_waits = moves_readers(1,7) [THEN runs_mono, OF moves_bounded]

interpretation steady: session_frame bounded steady
proof
  show "steady s s" for s by (simp add: steady_def bounded.refl)
  show "steady s t \<Longrightarrow> steady t u \<Longrightarrow> steady s u" for s t u by (auto simp: steady_def intro: bounded.trans)
  show "bounded u (u\<lparr>rQlen' := 0, rQi := 0\<rparr>)" for u by (simp add: bounded_def)
  show "calm bounded s t \<Longrightarrow> steady s t" for s t by (simp add: calm_def steady_def)
  show "steady s (s\<lparr>sock := (sock s)\<lparr>ws_channel := Some OPEN\<rparr>\<rparr>)" for s by (simp add: steady_def bounded_fields)
  show "steady s (s\<lparr>sock := (sock s)\<lparr>ws_channel := Some r\<rparr>\<rparr>)" for s r by (simp add: steady_def bounded_fields)
qed ((rule bounded_waits bounded_decode bounded_ends steady_ends; assumption?)+)

section \<open>Framebuffer updates\<close>

definition sane :: "rfb \<Rightarrow> rfb \<Rightarrow> bool" where
  "sane s t \<longleftrightarrow> consistent s \<longrightarrow> consistent t"

lemma steady_sane: "steady s t \<Longrightarrow> sane s t"
  by (simp add: steady_def sane_def consistent_def bounded_def)

interpretation sane: session_frame bounded sane
proof
  show "sane s s" for s by (simp add: sane_def)
  show "sane s t \<Longrightarrow> sane t u \<Longrightarrow> sane s u" for s t u by (simp add: sane_def)
  show "calm bounded s t \<Longrightarrow> sane s t" for s t by (rule steady_sane [OF steady.calm])
  show "sane s (s\<lparr>sock := (sock s)\<lparr>ws_channel := Some OPEN\<rparr>\<rparr>)" for s by (simp add: sane_def consistent_def)
  show "sane s (s\<lparr>sock := (sock s)\<lparr>ws_channel := Some r\<rparr>\<rparr>)" for s r by (simp add: sane_def consistent_def)
qed ((rule bounded_waits bounded_decode bounded_ends steady.reset steady_ends [THEN runs_mono, OF steady_sane]; assumption?)+)

text \<open>A rectangle leaves the count of those to come, or sets it to one.\<close>

lemma rect_steady:
  assumes "the (encoding (FBU s)) \<noteq> pseudoEncodingLastRect"
  shows "steady s (snd (handleRect env s))"
proof -
  let ?e = "the (encoding (FBU s))"
  let ?rest = "if ?e = pseudoEncodingVMwareCursor then handleVMwareCursor env
       else if ?e = pseudoEncodingCursor then handleCursor env
       else if ?e = pseudoEncodingQEMUExtendedKeyEvent then
         thenx (modify (\<lambda>s. s\<lparr>qemuExtKeyEventSupported := True\<rparr>)) (ret True)
       else if ?e = pseudoEncodingDesktopName then handleDesktopName
       else if ?e = pseudoEncodingDesktopSize then thenx (rfb_resize (fbu_w (FBU s)) (fbu_h (FBU s))) (ret True)
       else if ?e = pseudoEncodingExtendedDesktopSize then handleExtendedDesktopSize
       else handleDataRect env ?e"
  have "runs False steady ?rest"
    by (intro step_rules steady.rules runs_modify steady.calm_runs calm_rules) (simp add: steady_def bounded.refl)
  then have "steady s (snd (?rest s))" by (rule runsD)
  moreover have "handleRect env s = ?rest s" using assms by (simp add: handleRect_def bindx_gets Let_def)
  ultimately show ?thesis by simp
qed

lemma rect_count:
  "sane s (snd (handleRect env s)) \<and> rects (FBU (snd (handleRect env s))) \<in> {rects (FBU s), 1}"
proof (cases "the (encoding (FBU s)) = pseudoEncodingLastRect")
  case True
  then show ?thesis
    by (simp add: handleRect_def bindx_gets thenx_modify ret_def sane_def consistent_def fbu_ok_rects)
next
  case False
  from rect_steady [OF this] have "steady s (snd (handleRect env s))" .
  from this steady_sane [OF this] show ?thesis by (simp add: steady_def)
qed

lemma wait_here: "wait_else n 0 m s = (if rQlen (sock s) < n then (Inr False, s) else m s)"
  by (simp add: wait_else_def bindx_def on_sock_def zoom_def rQwait_def ret_def)

lemma rect_loop_sane: "runs False sane (rect_loop n env)"
proof (induction n)
  case (Suc n)
  let ?go = "bindx (handleRect env) (\<lambda>r. if \<not> r then ret False else thenx rect_done (rect_loop n env))"
  have go: "consistent (snd (?go s))" if s: "consistent s" "0 < rects (FBU s)" for s
  proof -
    define t where "t = snd (handleRect env s)"
    have t: "consistent t" "0 < rects (FBU t)"
      using rect_count [of s env] s by (auto simp: t_def sane_def)
    let ?u = "t\<lparr>FBU := (FBU t)\<lparr>rects := rects (FBU t) - 1, encoding := None\<rparr>\<rparr>"
    have "consistent ?u" using t by (simp add: consistent_def fbu_ok_done)
    then have "consistent (snd (rect_loop n env ?u))" using runsD [OF Suc] by (simp add: sane_def)
    with t(1) show ?thesis
      by (simp add: snd_bindx t_def [symmetric] ret_def rect_done_def thenx_modify split: sum.split)
  qed
  have hdr: "consistent (snd (wait_else 12 0 (bindx (on_sock (rQshiftBytes 12)) (\<lambda>hdr.
      thenx (modify (\<lambda>s. s\<lparr>FBU := rect_header hdr (FBU s)\<rparr>)) ?go)) s))"
    if s: "consistent s" "0 < rects (FBU s)" for s
  proof -
    define t where "t = snd (on_sock (rQshiftBytes 12) s)"
    have "steady s t" unfolding t_def by (rule runsD [OF steady.calm_runs]) (intro calm_rules)
    then have t: "consistent t" "0 < rects (FBU t)" using s by (auto simp: steady_def consistent_def bounded_def)
    have h: "consistent (t\<lparr>FBU := rect_header h (FBU t)\<rparr>) \<and> 0 < rects (FBU (t\<lparr>FBU := rect_header h (FBU t)\<rparr>))" for h
      using t fbu_ok_header by (simp add: consistent_def, simp add: rect_header_def Let_def)
    have "consistent (snd (bindx (on_sock (rQshiftBytes 12)) (\<lambda>hdr.
      thenx (modify (\<lambda>s. s\<lparr>FBU := rect_header hdr (FBU s)\<rparr>)) ?go) s))"
      using t(1) h go by (simp add: snd_bindx [where m = "on_sock (rQshiftBytes 12)"] t_def [symmetric] thenx_modify split: sum.split)
    with s(1) show ?thesis by (simp add: wait_here)
  qed
  have "consistent (snd (rect_loop (Suc n) env s))" if s: "consistent s" for s
    using go [OF s] hdr [OF s] s by (simp add: bindx_gets Let_def ret_def)
  then show ?case by (simp add: runs_def sane_def)
qed (simp add: sane.ret)

lemma js_shl_at: "k \<le> 16 \<Longrightarrow> js_shl (rQ_at s i) k = rQ_at s i * 2 ^ k"
  by (cases "i < length (rQ s)") (simp_all add: rQ_at_def js_shl_byte js_shl_nonneg)

lemma rQ_at_range: "rQ_at s i \<in> {0..<256}"
  by (simp add: rQ_at_def)

lemma shift16_range:
  assumes "rQshift16 s = (Inr v, t)"
  shows "v \<in> {0..<2 ^ 16}"
proof -
  obtain a b where "v = a * 2 ^ 8 + b" "a \<in> {0..<256}" "b \<in> {0..<256}"
    using assms rQ_at_range unfolding rQshift16_def rQshift_def by (auto simp: numeral_2_eq_2 js_shl_at)
  then show ?thesis by simp
qed

lemma sane_count:
  assumes "runs False sane (m :: bool session)"
  shows "runs False sane (bindx (on_sock rQshift16) (\<lambda>n. thenx (modify (\<lambda>s. s\<lparr>FBU := (FBU s)\<lparr>rects := n\<rparr>\<rparr>)) m))"
proof (rule runs_all)
  fix s :: rfb
  obtain n u where n: "rQshift16 (sock s) = (Inr n, u)"
    by (cases "rQshift16 (sock s)") (auto simp: rQshift16_def rQshift_def split: prod.splits)
  have "bounded (sock s) u" using runsD [OF bounded.shifts(2)] n by (metis snd_conv)
  then have "sane s (s\<lparr>sock := u, FBU := (FBU s)\<lparr>rects := n\<rparr>\<rparr>)"
    using shift16_range [OF n] by (simp add: sane_def consistent_def bounded_def fbu_ok_rects)
  moreover have "sane t (snd (m t))" for t by (rule runsD [OF assms])
  ultimately show "sane s (snd (bindx (on_sock rQshift16)
      (\<lambda>n. thenx (modify (\<lambda>s. s\<lparr>FBU := (FBU s)\<lparr>rects := n\<rparr>\<rparr>)) m) s))"
    by (auto simp: snd_bindx on_sock_def zoom_def n thenx_modify intro: sane.trans)
qed

lemma sane_update: "runs False sane (framebufferUpdate env)"
  unfolding framebufferUpdate_def update_rects_def
  by (intro sane_count rect_loop_sane step_rules sane.rules runs_modify sane.calm_runs calm_rules)
    (simp_all add: sane_def consistent_def)

interpretation sane: session_steps bounded sane
  by unfold_locales (rule sane_update)

lemma constructed_consistent:
  "construct env (new_rfb env channel creds shr repeater w h) = (Inr (), s) \<Longrightarrow> consistent s"
  by (drule construct_calm) (auto simp: calm_def consistent_def idle_def new_rfb_def new_websock_def on_def fbu_ok_def new_fbu_def)

lemma reached_consistent: "reached env s \<Longrightarrow> consistent s"
proof (induction rule: reached.induct)
  case (step s i)
  then show ?case using sane.step_keeps [of s env i] by (simp add: sane_def)
qed (rule constructed_consistent)

section \<open>The property\<close>

text \<open>C3. In every reached session the receive queue holds no more than its buffer, and the description of
  the framebuffer update keeps its types: the count, positions and sizes are 16-bit numbers, the encoding is
  none or a signed 32-bit number, whatever rectangles have been started, left unfinished or counted down.\<close>

theorem session_types:
  assumes "reached env s"
  shows "rQlen' (sock s) \<le> length (rQ (sock s))
    \<and> {rects (FBU s), fbu_x (FBU s), fbu_y (FBU s), fbu_w (FBU s), fbu_h (FBU s)} \<subseteq> {0..<2 ^ 16}
    \<and> set_option (encoding (FBU s)) \<subseteq> {- (2 ^ 31)..<2 ^ 31}"
  using reached_consistent [OF assms] by (auto simp: consistent_def fbu_ok_def)

theorem session_types_witness: "fbu_w (FBU started) < 2 ^ 16"
  using session_types [OF started_reached] by simp

end
