(* ===== verification/Session_Returns.thy ===== *)
theory Session_Returns
  imports Session_Types
begin

text \<open>
  The one thing in a session that may never return is the writer of clipboard data, on a channel that is not
  open. \<open>spares I C m\<close>: from a state that satisfies \<open>I\<close>, \<open>m\<close> keeps \<open>I\<close>, and only where it ends in \<open>C\<close> may it be a
  computation that does not return. Every handler of a message is shown to return as long as the channel is
  open, by its structure.
\<close>

named_theorems spare_rules

definition spares :: "('s \<Rightarrow> bool) \<Rightarrow> ('s \<Rightarrow> bool) \<Rightarrow> ('s, 'a) exec \<Rightarrow> bool" where
  "spares I C m \<longleftrightarrow> (\<forall>s. I s \<longrightarrow> I (snd (m s)) \<and> (fst (m s) = Inl no_return \<longrightarrow> C (snd (m s))))"

section \<open>Rules\<close>

lemma spares_bindx [spare_rules]: "spares I C m \<Longrightarrow> (\<And>a. spares I C (f a)) \<Longrightarrow> spares I C (bindx m f)"
  unfolding spares_def snd_bindx fst_bindx by (auto split: sum.splits)

lemma spares_thenx [spare_rules]: "spares I C m \<Longrightarrow> spares I C n \<Longrightarrow> spares I C (thenx m n)"
  unfolding thenx_def by (rule spares_bindx)

lemma spares_simple [spare_rules]: "spares I C (ret a)" "spares I C (gets f)" "e \<noteq> no_return \<Longrightarrow> spares I C (throw e)"
  by (simp_all add: spares_def ret_def gets_def throw_def)

lemma spares_modify: "(\<And>s. I s \<Longrightarrow> I (f s)) \<Longrightarrow> spares I C (modify f)"
  by (simp add: spares_def modify_def)

lemma spares_if [spare_rules]: "(P \<Longrightarrow> spares I C m) \<Longrightarrow> (\<not> P \<Longrightarrow> spares I C n) \<Longrightarrow> spares I C (if P then m else n)"
  by simp

lemma spares_option [spare_rules]: "(x = None \<Longrightarrow> spares I C m) \<Longrightarrow> (\<And>a. x = Some a \<Longrightarrow> spares I C (f a)) \<Longrightarrow>
    spares I C (case x of None \<Rightarrow> m | Some a \<Rightarrow> f a)"
  by (cases x) simp_all

lemma spares_prod [spare_rules]: "(\<And>a b. p = (a, b) \<Longrightarrow> spares I C (f a b)) \<Longrightarrow> spares I C (case p of (a, b) \<Rightarrow> f a b)"
  by (cases p) simp

lemma spares_Let [spare_rules]: "spares I C (f x) \<Longrightarrow> spares I C (let a = x in f a)"
  by simp

lemma spares_list [spare_rules]: "(xs = [] \<Longrightarrow> spares I C m) \<Longrightarrow> (\<And>a as. xs = a # as \<Longrightarrow> spares I C (f a as)) \<Longrightarrow>
    spares I C (case xs of [] \<Rightarrow> m | a # as \<Rightarrow> f a as)"
  by (cases xs) simp_all

lemma spares_try: "spares I C m \<Longrightarrow> spares I C h \<Longrightarrow> spares I C (try_catch m h)"
  by (auto simp: spares_def try_catch_def split: prod.splits sum.splits)

lemma js_errors [simp]: "RangeError \<noteq> no_return" "TypeError \<noteq> no_return" "URIError \<noteq> no_return"
  "no_return \<noteq> RangeError" "no_return \<noteq> TypeError" "no_return \<noteq> URIError"
  by (simp_all add: no_return_def)

section \<open>The display, the cursor and the streams\<close>

text \<open>These components always return.\<close>

abbreviation returning :: "('s, 'a) exec \<Rightarrow> bool" where
  "returning \<equiv> spares (\<lambda>_. True) (\<lambda>_. False)"

lemma returning_modify [spare_rules]: "returning (modify f)"
  by (rule spares_modify) simp

lemma returning_view [spare_rules]:
  "(\<And>v. spares I C (f v)) \<Longrightarrow> spares I C (case ta_view b i n of Inl e \<Rightarrow> throw e | Inr v \<Rightarrow> f v)"
  by (simp add: ta_view_def spares_simple)

lemma returning_now [spare_rules]:
  "returning (setFillColor c)" "returning (fillRect_now x y w h c)" "returning (blitImage_now x y w h d i j)"
  unfolding fillRect_now_def setFillColor_def blitImage_now_def
  by (intro spare_rules; simp add: no_return_def)+

lemma returning_perform [spare_rules]: "returning (perform a)"
  by (cases a) (simp_all, (intro spare_rules)+)

lemma returning_scan [spare_rules]: "returning (scan_loop n)"
proof (induction n)
  case (Suc n)
  have "returning (case a of Img i x y w h \<Rightarrow>
           if complete (imgs ! i) then
             if img_width (imgs ! i) \<noteq> w \<or> img_height (imgs ! i) \<noteq> h then ret False
             else thenx (perform a) (thenx (modify renderQ_shift) (scan_loop n))
           else thenx (modify (\<lambda>d. d\<lparr>waiting := List.insert i (waiting d)\<rparr>)) (ret True)
       | _ \<Rightarrow> thenx (perform a) (thenx (modify renderQ_shift) (scan_loop n)))" for a imgs
    by (cases a) (simp_all only: action.case, (intro Suc spare_rules)+)
  then show ?case unfolding scan_loop.simps Let_def by (intro spare_rules)
qed (simp add: spares_simple)

lemma returning_queue [spare_rules]: "returning scanRenderQ" "returning (renderQPush a)"
    "returning n \<Longrightarrow> returning (now_or_later a n)"
  unfolding renderQPush_def scanRenderQ_def now_or_later_def by (intro spare_rules; assumption?)+

lemma returning_display [spare_rules]:
  "returning flip" "returning (fillRect x y w h c)" "returning (copyImage x y x' y' w h)"
  "returning (imageRect x y w h m a)" "returning (blitImage x y w h b i j)"
  unfolding flip_def fillRect_def copyImage_def imageRect_def blitImage_def by (intro spare_rules)+

lemma returning_viewport [spare_rules]:
  "returning (viewportChangePos dx dy)" "returning (viewportChangeSize w' h')"
  "returning (set_clipViewport b)" "returning (resize w h)"
proof -
  show p: "returning (viewportChangePos dx dy)" for dx dy
    unfolding viewportChangePos_def by (intro spare_rules)
  show z: "returning (viewportChangeSize w' h')" for w' h'
    unfolding viewportChangeSize_def by (intro p spare_rules)
  show "returning (set_clipViewport b)" "returning (resize w h)"
    unfolding set_clipViewport_def resize_def by (intro p z spare_rules)+
qed

lemma returning_cursor [spare_rules]: "returning cursor_clear" "returning (cursor_change f d x y w h)"
proof -
  show c: "returning cursor_clear" unfolding cursor_clear_def by (intro spare_rules) simp
  show "returning (cursor_change f d x y w h)"
    unfolding cursor_change_def by (intro c spare_rules) (simp_all add: no_return_def)
qed

lemma returning_inflate [spare_rules]: "returning (inflate pako n)"
  unfolding inflate_def by (intro spare_rules) (simp_all add: no_return_def)

lemma returning_formats: "returning (inflate_formats pako fs bs t)"
  by (induction bs arbitrary: t) (simp_all only: inflate_formats.simps, (intro spare_rules; assumption?)+)

lemma returning_hextile [spare_rules]: "returning (startTile x y w h c)" "returning (subTile x y w h c)"
  "returning (hex_subrects n sub bs)" "returning (hex_colour_tile sub x y w h bs)"
proof -
  show t: "returning (startTile x y w h c)" "returning (subTile x y w h c)" for x y w h c
    unfolding startTile_def subTile_def by (intro spare_rules; simp)+
  show s: "returning (hex_subrects n sub bs)" for n bs
    by (induction n arbitrary: bs) (simp_all only: hex_subrects.simps, (intro t spare_rules; assumption?)+)
  show "returning (hex_colour_tile sub x y w h bs)"
    unfolding hex_colour_tile_def by (intro s t spare_rules)
qed

section \<open>The socket\<close>

definition buffered :: "websock \<Rightarrow> bool" where
  "buffered s \<longleftrightarrow> 0 < sQbufferSize s"

abbreviation sock_spares :: "(websock, 'a) exec \<Rightarrow> bool" where
  "sock_spares \<equiv> spares buffered (\<lambda>t. \<not> ws_open t)"

lemma spares_moves:
  assumes "runs False moves m" "\<And>s. fst (m s) \<noteq> Inl no_return"
  shows "sock_spares m"
  unfolding spares_def
proof (intro allI impI conjI)
  fix s assume b: "buffered s"
  obtain k where "snd (m s) = s\<lparr>rQi := k\<rparr>" using runsD [OF assms(1), of s] by (auto simp: moves_def)
  with b show "buffered (snd (m s))" by (simp add: buffered_def)
qed (use assms(2) in blast)

lemma str_loop_returns: "fst (rQshiftStr_loop i len str s) \<noteq> Inl no_return"
proof (induction i len str s rule: rQshiftStr_loop.induct)
  case (1 i len str s)
  show ?case
  proof (cases "i < len")
    case True
    obtain r t where b: "rQshiftBytes (min 4096 (len - i)) s = (r, t)" by force
    then have "r \<noteq> Inl no_return" by (auto simp: rQshiftBytes_def ta_view_def Let_def split: if_splits)
    with 1 b True show ?thesis
      by (subst rQshiftStr_loop.simps) (auto split: sum.split simp del: rQshiftStr_loop.simps)
  next
    case False
    then show ?thesis by (subst rQshiftStr_loop.simps) (simp del: rQshiftStr_loop.simps)
  qed
qed

lemma spares_readers [spare_rules]:
  "sock_spares (rQwait n k)" "sock_spares (rQshift l)" "sock_spares rQshift8" "sock_spares rQshift16"
  "sock_spares rQshift32" "sock_spares (rQshiftBytes b)" "sock_spares (rQshiftTo target m)"
  "sock_spares (rQshiftStr b)"
proof -
  show sh: "sock_spares (rQshift l)" for l
    by (rule spares_moves [OF shift_moves]) (simp add: rQshift_def split: prod.split)
  show "sock_spares rQshift8" "sock_spares rQshift16" "sock_spares rQshift32"
    unfolding rQshift8_def rQshift16_def rQshift32_def by (rule sh)+
  show "sock_spares (rQwait n k)"
    by (rule spares_moves [OF moves_readers(1)]) (simp add: rQwait_def no_return_def)
  show "sock_spares (rQshiftBytes b)"
    by (rule spares_moves [OF moves_readers(5)]) (simp add: rQshiftBytes_def ta_view_def Let_def)
  show "sock_spares (rQshiftTo target m)"
    by (rule spares_moves [OF moves_readers(6)]) (simp add: rQshiftTo_def ta_view_def ta_set_def split: sum.split)
  show "sock_spares (rQshiftStr b)"
    by (rule spares_moves [OF moves_readers(8)])
      (simp add: rQshiftStr_def str_loop_returns del: rQshiftStr_loop.simps)
qed

lemma spares_sock_modify: "(\<And>s. sQbufferSize (f s) = sQbufferSize s) \<Longrightarrow> sock_spares (modify f)"
  by (rule spares_modify) (simp add: buffered_def)

lemma spares_sock_changes [spare_rules]:
  "sock_spares (modify (rQskipBytes n))" "sock_spares (modify (\<lambda>t. t\<lparr>rQi := rQi t + k\<rparr>))"
  "sock_spares (modify (\<lambda>t. t\<lparr>rQ := set_alpha (b t) p (rQ t)\<rparr>))" "sock_spares (modify ws_close)"
  "sock_spares (modify (off e))" "sock_spares (modify (put_msg vs))"
  by (rule spares_sock_modify, simp add: rQskipBytes_def ws_close_def off_def put_msg_def split: option.split)+

text \<open>A text of the clipboard on an open channel: the first round empties the send buffer, the next ones fill it.\<close>

lemma cutText_round:
  assumes "ws_open s"
  shows "\<exists>p' s'. cutText_step data (r, p, s) = (r - min r (int (sQbufferSize s) - int (sQlen s)), p', s')
    \<and> ws_open s' \<and> sQlen s' = 0 \<and> sQbufferSize s' = sQbufferSize s"
proof -
  have "ws_open (s\<lparr>sQ := q, sQlen := l\<rparr>)" for q l using assms by (simp add: ws_open_def)
  then show ?thesis by (simp add: cutText_step_def Let_def flush_empties)
qed

lemma cutText_returns_empty:
  "ws_open s \<Longrightarrow> buffered s \<Longrightarrow> sQlen s = 0 \<Longrightarrow> cutText_loop data (r, p, s) \<noteq> None"
proof (induction "nat r" arbitrary: r p s rule: less_induct)
  case less
  show ?case
  proof (cases "0 < r")
    case True
    obtain p' s' where st: "cutText_step data (r, p, s) = (r - min r (int (sQbufferSize s)), p', s')"
      "ws_open s'" "buffered s'" "sQlen s' = 0"
      using cutText_round [OF less.prems(1), of data r p] less.prems by (auto simp: buffered_def)
    have "nat (r - min r (int (sQbufferSize s))) < nat r" using True less.prems(2) by (simp add: buffered_def)
    from less.hyps [OF this st(2-4)] show ?thesis using True st(1) by (subst cutText_loop_unfold) simp
  qed (simp add: cutText_loop_unfold)
qed

lemma clientCutText_returns:
  assumes "ws_open s" "buffered s"
  shows "clientCutText data extended s \<noteq> None"
proof -
  have "cutText_loop data (r, p, cutText_header len s) \<noteq> None" for r p len
  proof (cases "0 < r")
    case True
    have h: "ws_open (cutText_header len s)" "buffered (cutText_header len s)"
      using assms by (simp_all add: cutText_header_def ws_open_def buffered_def)
    obtain r' p' s' where "cutText_step data (r, p, cutText_header len s) = (r', p', s')" "ws_open s'" "buffered s'" "sQlen s' = 0"
      using cutText_round [OF h(1), of data r p] h(2) by (auto simp: buffered_def)
    then show ?thesis using cutText_returns_empty True by (subst cutText_loop_unfold) simp
  qed (simp add: cutText_loop_unfold)
  then show ?thesis by (simp add: clientCutText_def Let_def)
qed

section \<open>The session\<close>

abbreviation polite :: "('s dctx_scheme, 'a) exec \<Rightarrow> bool" where
  "polite \<equiv> spares (buffered \<circ> sock) (\<lambda>s. \<not> ws_open (sock s))"

lemma spares_zoom:
  assumes "spares J D m" "\<And>s. I s \<Longrightarrow> J (get s)" "\<And>s t. I s \<Longrightarrow> J t \<Longrightarrow> I (put t s)" "\<And>s t. D t \<Longrightarrow> C (put t s)"
  shows "spares I C (zoom get put m)"
  using assms unfolding spares_def zoom_def case_prod_unfold fst_conv snd_conv by blast

lemma polite_parts [spare_rules]:
  "sock_spares m \<Longrightarrow> polite (on_sock m)" "returning d \<Longrightarrow> polite (on_disp d)" "returning c \<Longrightarrow> polite (on_cursor c)"
  "returning h \<Longrightarrow> polite (on_hex h)" "returning z \<Longrightarrow> polite (on_zlib i z)"
  unfolding on_sock_def on_disp_def on_cursor_def on_hex_def on_zlib_def
  by (erule spares_zoom; simp add: buffered_def)+

lemma polite_tight [spare_rules]: "polite m \<Longrightarrow> polite (on_tight m)" "polite m \<Longrightarrow> polite (on_tightpng m)"
  unfolding on_tight_def on_tightpng_def by (erule spares_zoom; simp add: buffered_def)+

lemma polite_modify: "(\<And>s. sock (f s) = sock s) \<Longrightarrow> polite (modify f)"
  by (rule spares_modify) simp

lemma polite_self [spare_rules]: "(\<And>s. returning (m s)) \<Longrightarrow> polite (\<lambda>s. on_disp (m s) s)"
  using polite_parts(2) unfolding spares_def by blast

lemma polite_lift [spare_rules]: "r \<noteq> Inl no_return \<Longrightarrow> polite (lift_result r)"
  by (simp add: spares_def lift_result_def)

lemma polite_wait [spare_rules]: "polite m \<Longrightarrow> polite (wait_else n k m)"
  unfolding wait_else_def by (intro spare_rules)

lemma polite_tell: "(\<And>t. sQbufferSize (f t) = sQbufferSize t) \<Longrightarrow> polite (tell f)"
  unfolding tell_def by (intro spare_rules spares_sock_modify)

lemma put_msg_size [simp]: "sQbufferSize (put_msg vs t) = sQbufferSize t"
  by (simp add: put_msg_def)

lemma polite_writers [spare_rules]:
  "polite (tell (setDesktopSize w h i fl))" "polite (tell (clientFence fl p))"
  "polite (tell (enableContinuousUpdates e x y w h))" "polite (tell (fbUpdateRequest inc x y w h))"
  by (rule polite_tell, simp add: setDesktopSize_def clientFence_def enableContinuousUpdates_def fbUpdateRequest_def)+

text \<open>The size of the buffer after a text of the clipboard.\<close>

definition same_size :: "websock \<Rightarrow> websock \<Rightarrow> bool" where
  "same_size s t \<longleftrightarrow> sQbufferSize t = sQbufferSize s"

lemma moves_same_size: "moves s t \<Longrightarrow> same_size s t"
  by (auto simp: moves_def same_size_def)

interpretation sized: socket_frame False same_size
proof
  show "same_size s (rQskipBytes k s)" for s k by (simp add: same_size_def rQskipBytes_def)
qed ((rule moves_readers [THEN runs_mono, OF moves_same_size] shift_moves [THEN runs_mono, OF moves_same_size])
  | simp add: same_size_def)+

lemma polite_cut [spare_rules]: "polite (tell_option (clientCutText d e))"
  unfolding spares_def
proof (intro allI impI)
  fix s :: rfb assume b: "(buffered \<circ> sock) s"
  show "(buffered \<circ> sock) (snd (tell_option (clientCutText d e) s)) \<and>
    (fst (tell_option (clientCutText d e) s) = Inl no_return \<longrightarrow> \<not> ws_open (sock (snd (tell_option (clientCutText d e) s))))"
  proof (cases "clientCutText d e (sock s)")
    case None
    with b clientCutText_returns [of "sock s" d e] show ?thesis by (auto simp: tell_option_def)
  next
    case (Some t)
    with b sized.cut [OF Some] show ?thesis by (simp add: tell_option_def same_size_def buffered_def)
  qed
qed

lemma polite_clipboard_writers [spare_rules]:
  "polite (tell_option (extendedClipboardCaps a fs))" "polite (tell_option (extendedClipboardNotify ns))"
  "polite (tell_option (extendedClipboardRequest ns))"
  unfolding extendedClipboardCaps_def extendedClipboardNotify_def extendedClipboardRequest_def Let_def
  by (rule polite_cut)+

lemma points_errors: "code_points us = Inl e \<Longrightarrow> e = URIError"
  by (induction us arbitrary: e rule: code_points.induct) (auto split: sum.splits if_splits list.splits)

definition uri :: "js_error + 'a \<Rightarrow> bool" where
  "uri r \<longleftrightarrow> (\<forall>e. r = Inl e \<longrightarrow> e = URIError)"

lemma uri_rules:
  "uri (Inr a)" "uri (Inl URIError)" "(P \<Longrightarrow> uri r) \<Longrightarrow> (\<not> P \<Longrightarrow> uri q) \<Longrightarrow> uri (if P then r else q)"
  "uri t \<Longrightarrow> uri (case t of Inl e \<Rightarrow> Inl e | Inr v \<Rightarrow> Inr (f v))"
  "(xs = [] \<Longrightarrow> uri r) \<Longrightarrow> (\<And>y ys. xs = y # ys \<Longrightarrow> uri (g y ys)) \<Longrightarrow> uri (case xs of [] \<Rightarrow> r | y # ys \<Rightarrow> g y ys)"
  by (auto simp: uri_def split: sum.splits list.splits)

lemma utf8_errors: "uri (utf8_points bs)"
proof (induction bs rule: length_induct)
  case (1 bs)
  show ?case
  proof (cases bs)
    case Nil
    then show ?thesis by (simp add: uri_rules)
  next
    case (Cons b cs)
    have "uri (utf8_points ys)" if "length ys \<le> length cs" for ys using 1 that Cons by simp
    then show ?thesis
      unfolding Cons utf8_points.simps Let_def by (intro uri_rules) simp_all
  qed
qed

lemma decode_errors: "decodeUTF8 us b \<noteq> Inl no_return"
  using utf8_errors [of us] by (auto simp: decodeUTF8_def uri_def split: sum.splits if_splits)

lemma encode_errors: "encodeUTF8 us \<noteq> Inl no_return"
  using points_errors [of us no_return] by (auto simp: encodeUTF8_def split: sum.splits)

lemma provide_errors: "provide_texts fs ds \<noteq> Inl no_return"
proof (induction fs arbitrary: ds)
  case (Cons f fs)
  show ?case
  proof (cases ds)
    case (Cons d es)
    have "encodeUTF8 (crlf d @ [0]) \<noteq> Inl no_return" by (rule encode_errors)
    with Cons.IH [of es] show ?thesis by (auto simp: Cons Let_def no_return_def split: sum.split)
  qed (simp add: no_return_def)
qed simp

lemma polite_provide [spare_rules]: "polite (tell_provide deflate text)"
proof -
  have p: "polite (\<lambda>s. case r of Inl e \<Rightarrow> (Inl e, s) | Inr d \<Rightarrow> tell_option (clientCutText (fl @ deflate d) True) s)"
    if "r \<noteq> Inl no_return" for r fl
    using that by (cases r) (auto simp: polite_cut, simp add: spares_def)
  have eq: "tell_provide deflate text = (\<lambda>s. case provide_texts [extendedClipboardFormatText] [text] of
      Inl e \<Rightarrow> (Inl e, s)
    | Inr d \<Rightarrow> tell_option (clientCutText (buildExtendedClipboardFlags [extendedClipboardActionProvide]
        [extendedClipboardFormatText] @ deflate d) True) s)"
    by (rule ext) (simp add: tell_provide_def extendedClipboardProvide_def tell_option_def del: provide_texts.simps split: sum.split)
  show ?thesis unfolding eq by (rule p [OF provide_errors])
qed

section \<open>Decoders\<close>

lemma polite_this [spare_rules]: "polite (set_this f)" "polite (this_get g)"
  unfolding set_this_def this_get_def by (rule polite_modify, simp, rule spare_rules)

lemma polite_skip [spare_rules]: "polite (skip_bytes n)"
  unfolding skip_bytes_def by (intro spare_rules)

lemma polite_copyrect [spare_rules]: "polite (copyrect_decodeRect x y w h)"
  unfolding copyrect_decodeRect_def by (intro spare_rules)

lemma polite_rre_loop [spare_rules]: "polite (rre_loop n x y)"
  by (induction n) (simp_all only: rre_loop.simps, (intro spare_rules polite_modify; assumption?; simp)+)

lemma polite_rre [spare_rules]: "polite (rre_decodeRect x y w h)"
  unfolding rre_decodeRect_def by (intro spare_rules polite_modify) simp_all

lemma polite_raw [spare_rules]: "polite (raw_decodeRect x y w h depth)"
  unfolding raw_decodeRect_def by (intro spare_rules polite_modify) simp_all

lemma polite_hex_process [spare_rules]: "polite (hex_process t x y w h bs)"
  unfolding hex_process_def by (intro spare_rules polite_modify) simp_all

lemma polite_hex_step [spare_rules]: "polite (hex_step x y w h)"
  unfolding hex_step_def hex_throw_def by (intro spare_rules) (simp_all add: no_return_def)

lemma polite_hex_loop [spare_rules]: "polite (hex_loop n x y w h)"
  by (induction n) (simp_all only: hex_loop.simps, (intro spare_rules; assumption?)+)

lemma polite_hextile [spare_rules]: "polite (hextile_decodeRect x y w h)"
  unfolding hextile_decodeRect_def by (intro spare_rules polite_modify) simp_all

lemma polite_readData [spare_rules]: "polite readData"
  unfolding readData_def by (intro spare_rules)

lemma polite_filter_data [spare_rules]: "polite (filter_data pako i n)"
  unfolding filter_data_def by (intro spare_rules)

lemma polite_filters [spare_rules]:
  "polite (copyFilter pako i x y w h)" "polite (monoRect x y w h d p)" "polite (paletteRect x y w h d p)"
  unfolding copyFilter_def monoRect_def paletteRect_def by (intro spare_rules)+

lemma polite_paletteFilter [spare_rules]: "polite (paletteFilter pako i x y w h)"
  unfolding paletteFilter_def by (intro spare_rules)

lemma polite_tight_rects [spare_rules]:
  "polite (tight_fillRect x y w h)" "polite (jpegRect x y w h)" "polite (tight_pngRect x y w h)"
  "polite (tight_basicRect pako c x y w h)" "polite (tightpng_pngRect x y w h)" "polite (tightpng_basicRect c x y w h)"
  unfolding tight_fillRect_def jpegRect_def image_data_def tight_pngRect_def tight_basicRect_def
    tightpng_pngRect_def tightpng_basicRect_def gradientFilter_def
  by (intro spare_rules; simp add: no_return_def)+

lemma polite_tight_decoders [spare_rules]:
  "polite (tight_decodeRect pako x y w h)" "polite (tightpng_decodeRect x y w h)"
proof -
  have "polite (tight_decode png basic x y w h)"
    if "\<And>x y w h. polite (png x y w h)" "\<And>c x y w h. polite (basic c x y w h)" for png basic
    unfolding tight_decode_def by (intro that spare_rules) (simp_all add: no_return_def)
  then show "polite (tight_decodeRect pako x y w h)" "polite (tightpng_decodeRect x y w h)"
    unfolding tight_decodeRect_def tightpng_decodeRect_def by (blast intro: spare_rules)+
qed

lemma polite_decoder: "decoder env depth enc = Some d \<Longrightarrow> polite (d x y w h)"
  unfolding decoder_def by (auto split: if_splits intro: spare_rules)

section \<open>Messages\<close>

lemma polite_ends [spare_rules]: "polite to_disconnecting" "polite to_disconnected"
  unfolding spares_def to_disconnecting_eq to_disconnected_eq
  by (auto simp: buffered_def ws_close_def off_def split: option.split)

lemma polite_fail [spare_rules]: "polite fail" "polite failing"
  unfolding failing_def fail_def by (intro spare_rules polite_modify; simp)+

lemma polite_dispatch [spare_rules]: "polite (dispatch e)"
  unfolding dispatch_def by (rule polite_modify) simp

lemma polite_updateClip [spare_rules]: "polite updateClip" "polite updateScale" "polite updateContinuousUpdates"
  unfolding updateClip_def updateScale_def fixScrollbars_def updateContinuousUpdates_def
  by (intro spare_rules)+

lemma polite_requestRemoteResize [spare_rules]: "polite requestRemoteResize"
  unfolding requestRemoteResize_def by (intro spare_rules polite_modify) simp

lemma polite_resize [spare_rules]: "polite (rfb_resize w h)"
  unfolding rfb_resize_def by (intro spare_rules polite_modify) simp

lemma polite_names [spare_rules]: "polite (setDesktopName n)" "polite (setCapability_power v)"
  unfolding setDesktopName_def setCapability_power_def by (intro spare_rules polite_modify; simp)+

lemma polite_updateCursor [spare_rules]: "polite (updateCursor env rgba hx hy w h)"
  unfolding updateCursor_def refreshCursor_def by (intro spare_rules polite_modify) simp

lemma polite_counted [spare_rules]: "polite (shift_sizes fs bs)" "polite (shift32s n)" "polite (skip_screens k)"
proof -
  show "polite (shift_sizes fs bs)"
    by (induction bs) (simp_all only: shift_sizes.simps, (intro spare_rules; assumption?)+)
  show "polite (shift32s n)"
    by (induction n) (simp_all only: shift32s.simps, (intro spare_rules; assumption?)+)
  show "polite (skip_screens k)"
    by (induction k) (simp_all only: skip_screens.simps, (intro spare_rules; assumption?)+)
qed

lemma formats_errors: "fst (inflate_formats pako fs bs t z) \<noteq> Inl no_return"
  using returning_formats [of pako fs bs t] by (auto simp: spares_def)

lemma polite_clipboard [spare_rules]:
  "polite (clipboard_caps f a)" "polite (clipboard_request env f)" "polite clipboard_peek"
  "polite (clipboard_notify f)" "polite (clipboard_provide env f l)"
  unfolding clipboard_caps_def clipboard_request_def clipboard_peek_def clipboard_notify_def clipboard_provide_def
  by (intro spare_rules polite_modify formats_errors decode_errors; simp)+

lemma polite_cutText [spare_rules]: "polite (handleServerCutText env)"
proof -
  have "polite (extended_clipboard env l)" for l
    unfolding extended_clipboard_def by (intro spare_rules)
  then show ?thesis unfolding handleServerCutText_def by (intro spare_rules) simp_all
qed

lemma polite_messages [spare_rules]:
  "polite handleServerFenceMsg" "polite handleXvpMsg" "polite endOfContinuousUpdates" "polite setColourMap"
  unfolding handleServerFenceMsg_def handleXvpMsg_def endOfContinuousUpdates_def setColourMap_def
  by (intro spare_rules polite_modify; simp)+

lemma polite_cursors [spare_rules]: "polite (handleVMwareCursor env)" "polite (handleCursor env)"
  unfolding handleVMwareCursor_def handleCursor_def by (intro spare_rules; simp)+

lemma polite_desktop [spare_rules]: "polite handleDesktopName" "polite handleExtendedDesktopSize"
  unfolding handleDesktopName_def handleExtendedDesktopSize_def read_screens_def first_screen_def
  by (intro spare_rules polite_modify decode_errors; simp)+

lemma polite_rect [spare_rules]: "polite (handleRect env)"
proof -
  have "polite (handleDataRect env enc)" for enc
    unfolding handleDataRect_def by (intro spare_rules spares_try polite_decoder)
  then show ?thesis unfolding handleRect_def by (intro spare_rules polite_modify) simp_all
qed

lemma polite_rect_loop [spare_rules]: "polite (rect_loop n env)"
proof (induction n)
  case (Suc n)
  show ?case unfolding rect_loop.simps rect_done_def by (intro Suc spare_rules polite_modify) simp_all
qed (simp add: spares_simple)

lemma polite_update [spare_rules]: "polite (handleFBU env)"
  unfolding handleFBU_def framebufferUpdate_def update_rects_def
  by (intro spare_rules polite_modify) simp_all

lemma polite_slice: "rQslice i j t \<noteq> Inl no_return"
  by (simp add: rQslice_def ta_view_def)

lemma polite_normalMsg [spare_rules]: "polite (normalMsg env)"
proof -
  have "polite (normal_message env t)" for t
    unfolding normal_message_def by (intro spare_rules polite_slice)
  then show ?thesis unfolding normalMsg_def by (intro spare_rules)
qed

lemma polite_message_loop: "polite (message_loop (ret ()) n env)"
  by (induction n) (simp_all only: message_loop.simps, (intro spare_rules; assumption?)+)

section \<open>The size of the send buffer\<close>

text \<open>No step of a session changes it.\<close>

definition same_buffer :: "rfb \<Rightarrow> rfb \<Rightarrow> bool" where
  "same_buffer s t \<longleftrightarrow> same_size (sock s) (sock t)"

lemma size_decode: "runs False same_size (DecodeMessage d)"
proof -
  have "runs False same_size (\<lambda>s. case ta_set (rQ s) (rQlen' s) d of Inl e \<Rightarrow> (Inl e, s)
      | Inr q \<Rightarrow> (Inr (), s\<lparr>rQ := q, rQlen' := rQlen' s + length d\<rparr>))"
    by (auto simp: runs_def same_size_def split: sum.split)
  moreover have "runs False same_size (expandCompactRQ n)" for n
    by (simp add: runs_def same_size_def expandCompactRQ_def Let_def)
  ultimately show ?thesis
    unfolding DecodeMessage_def by (intro sized.bindx) (auto simp: runs_def same_size_def)
qed

lemma size_ends: "same_size u (ws_close u)" "same_size u (off e u)"
  by (simp_all add: same_size_def ws_close_def off_def split: option.split)

lemma size_states:
  "runs False same_buffer to_disconnecting" "runs False same_buffer to_disconnected"
  "runs False same_buffer (updateConnectionState env Connected)"
  unfolding runs_def to_disconnecting_eq to_disconnected_eq updateConnectionState_def change_state_def dispatch_def
  by (auto simp: same_buffer_def size_ends sized.refl thenx_def bindx_def gets_def modify_def ret_def)

lemmas size_waits = moves_readers(1,7) [THEN runs_mono, OF moves_same_size]

interpretation buffer: session_frame same_size same_buffer
proof
  show "same_buffer s s" for s by (simp add: same_buffer_def sized.refl)
  show "same_buffer s t \<Longrightarrow> same_buffer t u \<Longrightarrow> same_buffer s u" for s t u
    by (simp add: same_buffer_def same_size_def)
  show "same_size u (u\<lparr>rQlen' := 0, rQi := 0\<rparr>)" for u by (simp add: same_size_def)
  show "calm same_size s t \<Longrightarrow> same_buffer s t" for s t by (simp add: calm_def same_buffer_def)
  show "same_buffer s (s\<lparr>sock := (sock s)\<lparr>ws_channel := Some OPEN\<rparr>\<rparr>)" for s
    by (simp add: same_buffer_def same_size_def)
  show "same_buffer s (s\<lparr>sock := (sock s)\<lparr>ws_channel := Some r\<rparr>\<rparr>)" for s r
    by (simp add: same_buffer_def same_size_def)
qed ((rule size_waits size_decode size_ends size_states; assumption?)+)

lemma buffer_local: "sock t = sock s \<Longrightarrow> same_buffer s t"
  by (simp add: same_buffer_def sized.refl)

lemma buffer_update: "runs False same_buffer (framebufferUpdate env)"
proof -
  note r = step_rules buffer.rules runs_modify buffer.calm_runs calm_rules
  have h: "runs False same_buffer (handleRect env)"
    unfolding handleRect_def by (intro r) (simp_all add: buffer_local)
  have l: "runs False same_buffer (rect_loop n env)" for n
  proof (induction n)
    case (Suc n)
    show ?case
      unfolding rect_loop.simps rect_done_def by (intro Suc h r) (simp_all add: buffer_local)
  qed (simp add: buffer.ret)
  show ?thesis
    unfolding framebufferUpdate_def update_rects_def by (intro l r) (simp_all add: buffer_local)
qed

interpretation buffer: session_steps same_size same_buffer
  by unfold_locales (rule buffer_update)

lemma constructed_buffered:
  "construct env (new_rfb env channel creds shr repeater w h) = (Inr (), s) \<Longrightarrow> buffered (sock s)"
  by (drule construct_calm) (simp add: calm_def idle_def buffered_def new_rfb_def new_websock_def on_def)

lemma reached_buffered: "reached env s \<Longrightarrow> buffered (sock s)"
proof (induction rule: reached.induct)
  case (step s i)
  then show ?case using buffer.step_keeps [of s env i] by (simp add: same_buffer_def same_size_def buffered_def)
qed (rule constructed_buffered)

end
