(* ===== verification/Session_Progress.thy ===== *)
theory Session_Progress
  imports Session_Returns
begin

text \<open>
  The loops of the session end: the handlers of the handshake call each other at most three deep, and the
  loop over the received messages stops within a number of turns given by the size of the receive buffer,
  whatever the server sends.
\<close>

section \<open>The handshake\<close>

text \<open>How deep the calls go from a state.\<close>

definition depth :: "rfb \<Rightarrow> nat" where
  "depth s = (case rfbInitState s of
     Security \<Rightarrow> 3
   | Authentication \<Rightarrow> if rfbAuthScheme s \<in> {1, 16} then 2 else 1
   | SecurityResult \<Rightarrow> 2
   | _ \<Rightarrow> 1)"

definition agree :: "nat \<Rightarrow> bool session \<Rightarrow> bool session \<Rightarrow> bool" where
  "agree k a b \<longleftrightarrow> (\<forall>t. depth t \<le> k \<longrightarrow> a t = b t)"

lemma reason_cong: "agree 1 a b \<Longrightarrow> security_reason st a = security_reason st b"
  by (simp add: security_reason_def thenx_def bindx_def modify_def agree_def depth_def fun_eq_iff)

lemma client_cong: "agree 1 a b \<Longrightarrow> thenx (set_init ClientInitialisation) a = thenx (set_init ClientInitialisation) b"
  by (simp add: set_init_def thenx_def bindx_def modify_def agree_def depth_def fun_eq_iff)

lemma authenticate_cong: "agree 2 a b \<Longrightarrow> authenticate a = authenticate b"
  by (simp add: authenticate_def set_init_def thenx_def bindx_def modify_def agree_def depth_def fun_eq_iff)

lemma agree_less: "agree k a b \<Longrightarrow> j \<le> k \<Longrightarrow> agree j a b"
  by (auto simp: agree_def)

lemma security_cong:
  assumes "agree 2 a b"
  shows "negotiateSecurity a = negotiateSecurity b"
proof -
  have "agree 1 a b" using agree_less [OF assms] by simp
  then show ?thesis
    unfolding negotiateSecurity_def by (simp only: authenticate_cong [OF assms] reason_cong [of a b])
qed

lemma result_cong: "agree 1 a b \<Longrightarrow> handleSecurityResult a = handleSecurityResult b"
  unfolding handleSecurityResult_def by (simp only: client_cong [of a b] reason_cong [of a b])

text \<open>Reading does not change the state of the handshake.\<close>

definition reading :: "rfb \<Rightarrow> rfb \<Rightarrow> bool" where
  "reading s t \<longleftrightarrow> rfbInitState t = rfbInitState s"

interpretation reading: frame False reading
  by unfold_locales (simp_all add: reading_def)

lemma reading_sock: "runs False reading (on_sock m)"
  unfolding on_sock_def by (rule runs_zoom_any) (simp add: reading_def)

lemma reading_caps: "runs False reading (shift_caps n)"
  by (induction n) (simp_all, (intro reading.rules reading_sock; assumption?)+)

lemma bind_cong:
  assumes "runs False reading m" "reading u s" "\<And>x t. reading u t \<Longrightarrow> f x t = g x t"
  shows "bindx m f s = bindx m g s"
  using assms(2,3) runsD [OF assms(1), of s]
  by (auto simp: bindx_def reading_def split: prod.splits sum.splits)

lemma wait_cong:
  assumes "reading u s" "\<And>t. reading u t \<Longrightarrow> f t = g t"
  shows "wait_else n k f s = wait_else n k g s"
  unfolding wait_else_def by (rule bind_cong [OF reading_sock assms(1)]) (simp add: assms(2))

lemma then_cong:
  assumes "runs False reading m" "reading u s" "\<And>t. reading u t \<Longrightarrow> f t = g t"
  shows "thenx m f s = thenx m g s"
  unfolding thenx_def using assms by (intro bind_cong)

lemma if_apply:
  "(P \<Longrightarrow> f t = f' t) \<Longrightarrow> (\<not> P \<Longrightarrow> g t = g' t) \<Longrightarrow> (if P then f else g) t = (if P then f' else g') t"
  by simp

lemma subauth_cong:
  assumes "agree 1 a b" "rfbInitState s = Authentication"
  shows "tight_subauth a s = tight_subauth b s"
proof -
  have sch: "thenx (set_scheme k) a t = thenx (set_scheme k) b t" if "reading s t" "k \<in> {2, 129}" for t k
    using that assms by (auto simp: set_scheme_def thenx_def bindx_def modify_def agree_def depth_def reading_def)
  note r = HOL.refl sch wait_cong [where u = s] bind_cong [where u = s] then_cong [where u = s] if_apply reading_sock reading_caps
  show ?thesis
    unfolding tight_subauth_def by (intro r) (auto simp: reading_def)
qed

lemma tight_cong:
  assumes "agree 1 a b" "rfbInitState s = Authentication"
  shows "negotiateTightAuth a s = negotiateTightAuth b s"
proof -
  have st: "tight_subauth a t = tight_subauth b t" if "reading s t" for t
    using that assms by (intro subauth_cong) (simp_all add: reading_def)
  have g: "runs False reading (gets f)" "runs False reading (modify (\<lambda>s. s\<lparr>rfbTightVNC := True\<rparr>))" for f
    by (rule reading.gets, rule runs_modify) (simp add: reading_def)
  note r = HOL.refl st wait_cong [where u = s] bind_cong [where u = s] then_cong [where u = s] if_apply reading_sock g
  show ?thesis
    unfolding negotiateTightAuth_def Let_def by (intro r) (auto simp: reading_def)
qed

lemma authentication_cong:
  assumes "agree 1 a b" "rfbInitState s = Authentication"
  shows "negotiateAuthentication a s = negotiateAuthentication b s"
  unfolding negotiateAuthentication_def bindx_gets Let_def
  using client_cong [OF assms(1)] tight_cong [OF assms] by simp

text \<open>Without a call there is nothing to agree on.\<close>

lemma authentication_leaf:
  "rfbAuthScheme s \<notin> {1, 16} \<Longrightarrow> negotiateAuthentication a s = negotiateAuthentication b s"
  unfolding negotiateAuthentication_def bindx_gets Let_def by simp

lemma initMsg_agree: "depth s \<le> n \<Longrightarrow> initMsg a n env s = initMsg b n env s"
proof (induction n arbitrary: s)
  case 0
  then show ?case by (auto simp: depth_def split: init_state.splits if_splits)
next
  case (Suc n)
  have ag: "agree k (initMsg a n env) (initMsg b n env)" if "k \<le> n" for k
    using Suc.IH that by (auto simp: agree_def)
  show ?case
  proof (cases "rfbInitState s")
    case Security
    with Suc.prems have "2 \<le> n" by (simp add: depth_def)
    then show ?thesis using security_cong [OF ag] Security by (simp add: bindx_gets)
  next
    case SecurityResult
    with Suc.prems have "1 \<le> n" by (simp add: depth_def)
    then show ?thesis using result_cong [OF ag] SecurityResult by (simp add: bindx_gets)
  next
    case Authentication
    show ?thesis
    proof (cases "rfbAuthScheme s \<in> {1, 16}")
      case True
      with Suc.prems Authentication have "1 \<le> n" by (auto simp: depth_def)
      then show ?thesis using authentication_cong [OF ag Authentication] Authentication by (simp add: bindx_gets)
    next
      case False
      then show ?thesis using authentication_leaf [OF False] Authentication by (simp add: bindx_gets)
    qed
  qed (simp_all add: bindx_gets)
qed

text \<open>C9. The handlers of the handshake, which call the dispatcher again, return from every state: the calls
  are never more than \<open>init_fuel\<close> deep, so it does not matter what a deeper call would do.\<close>

theorem handshake_returns: "initMsg stop init_fuel env s = initMsg stop' init_fuel env s"
  by (rule initMsg_agree) (simp add: depth_def init_fuel_def split: init_state.split)

section \<open>The message loop\<close>

text \<open>Progress in the receive queue, within the same framebuffer update.\<close>

definition onward :: "rfb \<Rightarrow> rfb \<Rightarrow> bool" where
  "onward s t \<longleftrightarrow> FBU t = FBU s \<and> forward (sock s) (sock t)"

interpretation onward: frame True onward
  by unfold_locales (auto simp: onward_def forward_frame.refl intro: forward_frame.trans)

lemma calm_onward: "runs True (calm forward) m \<Longrightarrow> runs True onward m"
  by (erule runs_mono) (simp add: calm_def onward_def)

lemma ws_close_forward: "forward t (ws_close t)" "forward t (off e t)"
  by (auto simp: forward_def ws_close_def off_def split: option.splits)

lemma onward_fail: "runs True onward fail"
proof -
  have "runs True onward to_disconnecting"
    unfolding runs_def to_disconnecting_eq by (auto simp: onward_def ws_close_forward forward_frame.refl)
  moreover have "runs True onward to_disconnected"
    unfolding runs_def to_disconnected_eq by (auto simp: onward_def ws_close_forward forward_frame.refl)
  ultimately show ?thesis
    unfolding fail_def by (intro onward.rules runs_modify) (simp_all add: onward_def forward_frame.refl)
qed

text \<open>What the runs with the result True do.\<close>

definition ends :: "bool session \<Rightarrow> bool" where
  "ends m \<longleftrightarrow> (\<forall>s. fst (m s) = Inr True \<longrightarrow> onward s (snd (m s)))"

lemma ends_runs: "runs True onward m \<Longrightarrow> ends m"
  unfolding runs_def ends_def by blast

lemma ends_bindx: "runs True onward m \<Longrightarrow> (\<And>a. ends (f a)) \<Longrightarrow> ends (bindx m f)"
  unfolding ends_def runs_def snd_bindx fst_bindx by (auto split: sum.splits) (blast intro: onward.trans)

lemma ends_thenx: "runs True onward m \<Longrightarrow> ends n \<Longrightarrow> ends (thenx m n)"
  unfolding thenx_def by (rule ends_bindx)

lemma ends_ret: "ends (ret x)"
  by (rule ends_runs) (rule onward.ret)

lemma ends_throw: "ends (throw e)"
  by (rule ends_runs) (rule onward.throw)

lemma ends_if: "(P \<Longrightarrow> ends m) \<Longrightarrow> (\<not> P \<Longrightarrow> ends n) \<Longrightarrow> ends (if P then m else n)"
  by simp

lemma ends_failing: "ends failing"
  unfolding failing_def by (rule ends_runs) (rule onward_fail)

lemma ends_Let: "ends (f x) \<Longrightarrow> ends (let a = x in f a)"
  by simp

lemma ends_wait: "ends m \<Longrightarrow> ends (wait_else n k m)"
  by (auto simp: ends_def wait_else_def fst_bindx snd_bindx on_sock_def zoom_def rQwait_def ret_def
      split: if_splits)

lemma wait_returns: "wait_else n k m s = (Inr True, t) \<Longrightarrow> n \<le> rQlen (sock s) \<and> m s = (Inr True, t)"
  by (auto simp: wait_else_def bindx_def on_sock_def zoom_def rQwait_def ret_def split: if_splits)

lemma onward_modify: "(\<And>s. FBU (f s) = FBU s) \<Longrightarrow> (\<And>s. sock (f s) = sock s) \<Longrightarrow> runs True onward (modify f)"
  by (rule runs_modify) (simp add: onward_def forward_frame.refl)

lemmas ends_rules = ends_bindx ends_thenx ends_ret ends_throw ends_if ends_Let ends_failing ends_wait

lemma ends_cutText: "ends (handleServerCutText env)"
proof -
  have e: "ends (extended_clipboard env l)" for l
    unfolding extended_clipboard_def
    by (intro ends_rules ends_runs [where m = "clipboard_caps f a" for f a]
        ends_runs [where m = "clipboard_request env f" for f] ends_runs [where m = clipboard_peek]
        ends_runs [where m = "clipboard_notify f" for f] ends_runs [where m = "clipboard_provide env f k" for f k]
        onward.gets calm_onward calm_rules)
  show ?thesis
    unfolding handleServerCutText_def by (intro e ends_rules onward.rules calm_onward calm_rules) simp_all
qed

lemma ends_fence: "ends handleServerFenceMsg"
  unfolding handleServerFenceMsg_def
  by (intro ends_rules onward_modify onward.rules calm_onward calm_rules) simp_all

lemma ends_xvp: "ends handleXvpMsg"
  unfolding handleXvpMsg_def
  by (intro ends_rules onward_fail onward_modify onward.rules calm_onward calm_rules) simp_all

lemma ends_vmware: "ends (handleVMwareCursor env)"
  unfolding handleVMwareCursor_def by (intro ends_rules onward.rules calm_onward calm_rules)

lemma ends_desktopName: "ends handleDesktopName"
  unfolding handleDesktopName_def by (intro ends_rules onward.rules calm_onward calm_rules)

lemma ends_dataRect: "ends (handleDataRect env enc)"
proof -
  have t: "ends (try_catch m failing)" if "runs True onward m" for m
    using that runs_strictD [OF that]
    by (auto simp: ends_def try_catch_def case_prod_unfold failing_def fail_def thenx_def fst_bindx ret_def
        split: sum.splits)
  have "ends (case decoder env d enc of None \<Rightarrow> failing | Some f \<Rightarrow> try_catch (f x y w h) failing)" for d x y w h
    using t [OF calm_onward [OF forward.calm_decoder]] by (auto simp: ends_failing split: option.split)
  note c = this
  show ?thesis unfolding handleDataRect_def by (intro ends_bindx onward.gets c)
qed

text \<open>A rectangle leaves the count of those to come, or sets it to one.\<close>

lemma rect_progress:
  assumes "handleRect env s = (Inr True, t)"
  shows "forward (sock s) (sock t) \<and> rects (FBU t) \<in> {rects (FBU s), 1}"
proof -
  let ?e = "the (encoding (FBU s))"
  show ?thesis
  proof (cases "?e = pseudoEncodingLastRect")
    case True
    then show ?thesis
      using assms by (auto simp: handleRect_def bindx_gets thenx_modify ret_def forward_frame.refl)
  next
    case False
    have "ends (if ?e = pseudoEncodingVMwareCursor then handleVMwareCursor env
       else if ?e = pseudoEncodingCursor then handleCursor env
       else if ?e = pseudoEncodingQEMUExtendedKeyEvent then
         thenx (modify (\<lambda>s. s\<lparr>qemuExtKeyEventSupported := True\<rparr>)) (ret True)
       else if ?e = pseudoEncodingDesktopName then handleDesktopName
       else if ?e = pseudoEncodingDesktopSize then thenx (rfb_resize (fbu_w (FBU s)) (fbu_h (FBU s))) (ret True)
       else if ?e = pseudoEncodingExtendedDesktopSize then handleExtendedDesktopSize
       else handleDataRect env ?e)"
      by (intro ends_if ends_thenx ends_vmware ends_desktopName ends_dataRect ends_ret ends_runs [where m = "handleCursor env"]
          ends_runs [where m = handleExtendedDesktopSize] onward_modify calm_onward calm_rules) simp_all
    moreover have "handleRect env s = (if ?e = pseudoEncodingVMwareCursor then handleVMwareCursor env
       else if ?e = pseudoEncodingCursor then handleCursor env
       else if ?e = pseudoEncodingQEMUExtendedKeyEvent then
         thenx (modify (\<lambda>s. s\<lparr>qemuExtKeyEventSupported := True\<rparr>)) (ret True)
       else if ?e = pseudoEncodingDesktopName then handleDesktopName
       else if ?e = pseudoEncodingDesktopSize then thenx (rfb_resize (fbu_w (FBU s)) (fbu_h (FBU s))) (ret True)
       else if ?e = pseudoEncodingExtendedDesktopSize then handleExtendedDesktopSize
       else handleDataRect env ?e) s"
      using False by (simp add: handleRect_def bindx_gets Let_def)
    ultimately have "onward s t" using assms unfolding ends_def by (metis fst_conv snd_conv)
    then show ?thesis by (simp add: onward_def)
  qed
qed

text \<open>A loop over the rectangles that ends with True has counted them down to zero.\<close>

lemma rect_loop_progress:
  "rect_loop n env s = (Inr True, t) \<Longrightarrow> 0 \<le> rects (FBU s) \<Longrightarrow> rects (FBU s) \<le> int n \<Longrightarrow>
    forward (sock s) (sock t) \<and> rects (FBU t) = 0"
proof (induction n arbitrary: s)
  case 0
  then show ?case by (simp add: ret_def forward_frame.refl)
next
  case (Suc n)
  show ?case
  proof (cases "rects (FBU s) > 0")
    case False
    with Suc.prems show ?thesis by (auto simp: bindx_gets ret_def forward_frame.refl)
  next
    case True
    let ?go = "bindx (handleRect env) (\<lambda>r. if \<not> r then ret False else thenx rect_done (rect_loop n env))"
    have go: "forward (sock u) (sock t) \<and> rects (FBU t) = 0"
      if u: "?go u = (Inr True, t)" "rects (FBU u) = rects (FBU s)" for u
    proof -
      obtain v where v: "handleRect env u = (Inr True, v)" "thenx rect_done (rect_loop n env) v = (Inr True, t)"
        using u(1) by (auto simp: bindx_def ret_def split: prod.splits sum.splits if_splits)
      from rect_progress [OF v(1)] have r: "forward (sock u) (sock v)" "rects (FBU v) \<in> {rects (FBU s), 1}"
        using u(2) by simp_all
      from v(2) have "rect_loop n env (v\<lparr>FBU := (FBU v)\<lparr>rects := rects (FBU v) - 1, encoding := None\<rparr>\<rparr>) = (Inr True, t)"
        by (simp add: rect_done_def thenx_modify)
      from Suc.IH [OF this] r True Suc.prems(3) show ?thesis by (auto intro: forward_frame.trans)
    qed
    show ?thesis
    proof (cases "encoding (FBU s) = None")
      case False
      then have "?go s = (Inr True, t)" using Suc.prems(1) True by (auto simp: bindx_gets)
      then show ?thesis using go [of s] by simp
    next
      case enc: True
      have w: "wait_else 12 0 (bindx (on_sock (rQshiftBytes 12)) (\<lambda>hdr.
          thenx (modify (\<lambda>s. s\<lparr>FBU := rect_header hdr (FBU s)\<rparr>)) ?go)) s = (Inr True, t)"
        using Suc.prems(1) True enc by (simp add: bindx_gets Let_def)
      from conjunct2 [OF wait_returns [OF w]] obtain a v where v: "on_sock (rQshiftBytes 12) s = (Inr a, v)"
          "thenx (modify (\<lambda>s. s\<lparr>FBU := rect_header a (FBU s)\<rparr>)) ?go v = (Inr True, t)"
        by (rule bindx_returns)
      from v(1) obtain u where u: "rQshiftBytes 12 (sock s) = (Inr a, u)" "v = s\<lparr>sock := u\<rparr>"
        by (auto simp: on_sock_def zoom_def split: prod.splits)
      then have a: "rQshiftBytes 12 (sock s) = (Inr a, u)"
          "?go (s\<lparr>sock := u, FBU := rect_header a (FBU s)\<rparr>) = (Inr True, t)"
        using v(2) by (simp_all add: thenx_modify)
      have "forward (sock s) u" using runs_strictD [OF forward_bytes] a(1) by (metis fst_conv snd_conv)
      moreover from go [OF a(2)] have "forward u (sock t)" "rects (FBU t) = 0"
        by (simp_all add: rect_header_def Let_def)
      ultimately show ?thesis by (auto intro: forward_frame.trans)
    qed
  qed
qed

lemma flip_progress: "runs True onward (on_disp flip)"
  by (intro calm_onward calm_rules)

lemma update_rects_progress:
  assumes "update_rects env s = (Inr True, t)" "0 \<le> rects (FBU s)"
  shows "forward (sock s) (sock t) \<and> rects (FBU t) = 0"
proof -
  obtain u where u: "rect_loop (nat (rects (FBU s))) env s = (Inr True, u)" "thenx (on_disp flip) (ret True) u = (Inr True, t)"
    using assms(1) unfolding update_rects_def bindx_gets o_apply
    by (rule bindx_returns) (simp add: ret_def split: if_splits)
  have "onward u t"
    using runs_strictD [OF onward.thenx [OF flip_progress onward.ret]] u(2) by (metis fst_conv snd_conv)
  with rect_loop_progress [OF u(1) assms(2)] assms(2) show ?thesis
    by (auto simp: onward_def intro: forward_frame.trans)
qed

lemma shift8_position: "rQshift8 s = (Inr v, t) \<Longrightarrow> rQi t = rQi s + 1 \<and> rQlen' t = rQlen' s \<and> rQ t = rQ s
    \<and> (length (rQ s) \<le> rQi s \<longrightarrow> v = 0)"
  by (auto simp: rQshift8_def rQshift_def rQ_at_def js_shl_nonneg)

text \<open>A framebuffer update that ends with True.\<close>

lemma framebufferUpdate_progress:
  assumes "framebufferUpdate env s = (Inr True, t)" "0 \<le> rects (FBU s)"
  shows "forward (sock s) (sock t) \<and> rects (FBU t) = 0 \<and> (rects (FBU s) = 0 \<longrightarrow> 3 \<le> rQlen (sock s))"
proof (cases "rects (FBU s) = 0")
  case False
  then show ?thesis
    using assms update_rects_progress [of env s t] by (simp add: framebufferUpdate_def bindx_gets)
next
  case True
  let ?rest = "\<lambda>n. thenx (modify (\<lambda>s. s\<lparr>FBU := (FBU s)\<lparr>rects := n\<rparr>\<rparr>))
        (bindx (gets (pending \<circ> disp)) (\<lambda>p. if p then
             thenx (modify (\<lambda>s. s\<lparr>rfb_flushing := True\<rparr>)) (thenx (on_disp (modify flush_display)) (ret False))
           else update_rects env))"
  have "wait_else 3 1 (thenx (skip_bytes 1) (bindx (on_sock rQshift16) ?rest)) s = (Inr True, t)"
    using assms(1) True by (simp add: framebufferUpdate_def bindx_gets)
  from wait_returns [OF this] have 3: "3 \<le> rQlen (sock s)" and
      r: "bindx (on_sock rQshift16) ?rest (s\<lparr>sock := rQskipBytes 1 (sock s)\<rparr>) = (Inr True, t)"
    by (auto simp: on_sock_def zoom_def skip_bytes_def thenx_def bindx_def modify_def split: prod.splits sum.splits)
  obtain n u where n: "on_sock rQshift16 (s\<lparr>sock := rQskipBytes 1 (sock s)\<rparr>) = (Inr n, u)"
      "?rest n u = (Inr True, t)"
    by (rule bindx_returns [OF r])
  obtain k where k: "rQshift16 (rQskipBytes 1 (sock s)) = (Inr n, k)" "u = s\<lparr>sock := k\<rparr>"
    using n(1) by (auto simp: on_sock_def zoom_def split: prod.splits)
  have n0: "0 \<le> n" using shift16_range [OF k(1)] by simp
  have "forward (rQskipBytes 1 (sock s)) k"
    using runs_strictD [OF forward.shifts(2)] k(1) by (metis fst_conv snd_conv)
  then have f: "forward (sock s) k" by (rule forward_frame.trans [OF forward_skip])
  have "update_rects env (u\<lparr>FBU := (FBU u)\<lparr>rects := n\<rparr>\<rparr>) = (Inr True, t)"
    using n(2) by (cases "pending (disp u)")
      (simp_all add: thenx_modify bindx_gets, simp add: thenx_def bindx_def ret_def on_disp_def zoom_def modify_def)
  from update_rects_progress [OF this] n0 k(2) f 3 show ?thesis by (auto intro: forward_frame.trans)
qed

lemma handleFBU_progress:
  assumes "handleFBU env s = (Inr True, t)" "0 \<le> rects (FBU s)"
  shows "forward (sock s) (sock t) \<and> rects (FBU t) = 0 \<and> (rects (FBU s) = 0 \<longrightarrow> 3 \<le> rQlen (sock s))"
proof -
  let ?rest = "\<lambda>r. bindx (gets id) (\<lambda>s. thenx (if r \<and> \<not> enabledContinuousUpdates s
            then tell (fbUpdateRequest True 0 0 (fbW s) (fbH s)) else ret ()) (ret r))"
  obtain r u where u: "framebufferUpdate env s = (Inr r, u)" "?rest r u = (Inr True, t)"
    by (rule bindx_returns [OF assms(1) [unfolded handleFBU_def]])
  have "runs True onward (?rest r)"
    by (intro onward.rules calm_onward calm_rules)
  then have "onward u t" using u(2) runs_strictD [of onward "?rest r" u True] by simp
  moreover from u(2) have r
    by (auto simp: bindx_gets thenx_def bindx_def ret_def split: prod.splits sum.splits)
  ultimately show ?thesis
    using framebufferUpdate_progress [of env s u] u(1) assms(2) by (auto simp: onward_def intro: forward_frame.trans)
qed

lemma ends_message:
  assumes "msgType \<noteq> 0"
  shows "ends (normal_message env msgType)"
proof -
  have c: "ends endOfContinuousUpdates"
    unfolding endOfContinuousUpdates_def by (intro ends_rules onward.rules onward_modify calm_onward calm_rules) simp_all
  have d: "ends (thenx fail (bindx (gets sock) (\<lambda>t. bindx (lift_result (rQslice 0 30 t)) (\<lambda>_. ret True))))"
    unfolding lift_result_def by (intro ends_rules onward_fail onward.rules)
  show ?thesis
    unfolding normal_message_def setColourMap_def if_not_P [OF assms]
    by (intro ends_if c d ends_cutText ends_fence ends_xvp ends_failing ends_thenx ends_ret calm_onward calm_rules) simp_all
qed

section \<open>The turns\<close>

definition counted :: "rfb \<Rightarrow> bool" where
  "counted s \<longleftrightarrow> rQlen' (sock s) \<le> length (rQ (sock s)) \<and> 0 \<le> rects (FBU s)"

definition turns :: "rfb \<Rightarrow> nat" where
  "turns s = 2 * (length (rQ (sock s)) - rQi (sock s)) + of_bool (0 < rects (FBU s))"

lemma turn:
  assumes t: "normalMsg env s = (Inr True, t)" and s: "counted s"
  shows "counted t \<and> turns t < turns s"
proof (cases "0 < rects (FBU s)")
  case True
  have "handleFBU env s = (Inr True, t)"
    using t True by (simp add: normalMsg_def bindx_gets normal_message_def)
  from handleFBU_progress [OF this] True s show ?thesis
    by (auto simp: counted_def turns_def forward_def)
next
  case False
  with s have 0: "rects (FBU s) = 0" by (simp add: counted_def)
  obtain v u where v: "on_sock rQshift8 s = (Inr v, u)" "normal_message env v u = (Inr True, t)"
    using t False by (auto simp: normalMsg_def bindx_gets elim: bindx_returns)
  obtain k where k: "rQshift8 (sock s) = (Inr v, k)" "u = s\<lparr>sock := k\<rparr>"
    using v(1) by (auto simp: on_sock_def zoom_def split: prod.splits)
  note p = shift8_position [OF k(1)]
  have "forward k (sock t) \<and> rects (FBU t) = 0 \<and> (v = 0 \<longrightarrow> 3 \<le> rQlen k)"
  proof (cases "v = 0")
    case True
    with v(2) have "handleFBU env u = (Inr True, t)" by (simp add: normal_message_def)
    from handleFBU_progress [OF this] k(2) 0 True show ?thesis by simp
  next
    case False
    from ends_message [OF this, of env] v(2) have "onward u t" unfolding ends_def by (metis fst_conv snd_conv)
    with k(2) 0 False show ?thesis by (simp add: onward_def)
  qed
  with p s show ?thesis
    by (cases "rQi (sock s) < length (rQ (sock s))")
      (auto simp: counted_def turns_def forward_def rQlen_def 0)
qed

lemma message_loop_agree:
  "counted s \<Longrightarrow> turns s < n \<Longrightarrow> message_loop stop n env s = message_loop stop' n env s"
proof (induction n arbitrary: s)
  case (Suc n)
  have "message_loop stop n env t = message_loop stop' n env t" if "normalMsg env s = (Inr True, t)" for t
    using turn [OF that Suc.prems(1)] Suc.prems(2) by (intro Suc.IH) auto
  then show ?case
    by (auto simp: bindx_gets bindx_def [of "normalMsg env"] ret_def split: prod.splits sum.splits)
qed simp

text \<open>C6. The loop over the received messages ends in every reached session, whatever the server sends:
  \<open>message_fuel\<close> turns are enough, so it does not matter what a turn more would do. The handlers it calls return
  as well, with one exception: the value \<open>no_return\<close>, which stands for the loop of \<open>clientCutText\<close> running forever
  (C36), is possible only where the channel is not open any more. (The server can bring that about: after a message of
  unknown type the channel is closing and the loop goes on with the messages that have arrived.)\<close>

theorem message_loop_returns:
  assumes "reached env s"
  shows "message_loop stop (message_fuel s) env s = message_loop stop' (message_fuel s) env s
    \<and> (\<forall>t. message_loop stop (message_fuel s) env s = (Inl no_return, t) \<longrightarrow> \<not> ws_open (sock t))"
proof -
  have "counted s" using reached_consistent [OF assms] by (simp add: consistent_def fbu_ok_def counted_def)
  moreover have "turns s < message_fuel s"
  proof -
    have "length (rQ (sock s)) - rQi (sock s) \<le> length (rQ (sock s))" by simp
    moreover have "of_bool (0 < rects (FBU s)) \<le> (1 :: nat)" by simp
    ultimately show ?thesis unfolding turns_def message_fuel_def by linarith
  qed
  ultimately have same: "message_loop stop (message_fuel s) env s = message_loop stop' (message_fuel s) env s" for stop stop'
    by (rule message_loop_agree)
  have "polite (message_loop (ret ()) (message_fuel s) env)" by (rule polite_message_loop)
  then have "\<not> ws_open (sock t)" if "message_loop stop (message_fuel s) env s = (Inl no_return, t)" for t
    using that same [of stop "ret ()"] reached_buffered [OF assms] unfolding spares_def by fastforce
  with same show ?thesis by blast
qed

text \<open>A session whose channel has opened.\<close>

definition opened :: rfb where
  "opened = inputs plain_env [SocketOpens] started"

theorem message_loop_returns_witness:
  "message_loop (throw no_return) (message_fuel opened) plain_env opened =
   message_loop (ret ()) (message_fuel opened) plain_env opened
   \<and> \<not> (fst (message_loop (throw no_return) (message_fuel opened) plain_env opened) = Inl no_return
      \<and> ws_open (sock (snd (message_loop (throw no_return) (message_fuel opened) plain_env opened))))"
proof -
  have "reached plain_env opened" unfolding opened_def by (rule reached_inputs [OF started_reached])
  from message_loop_returns [OF this, of "throw no_return" "ret ()"] show ?thesis
    by (metis prod.collapse)
qed

end
