(* ===== verification/Session_Handshake.thy ===== *)
theory Session_Handshake
  imports Session_Progress
begin

text \<open>
  The dialogue of the handshake, from the opened channel to the request for the description of the
  framebuffer: what the session sends for what it receives, message by message.
\<close>

section \<open>Receiving and sending one message\<close>

text \<open>A channel on which everything received has been read and everything written has been sent.\<close>

definition clear_sock :: "websock \<Rightarrow> bool" where
  "clear_sock t \<longleftrightarrow> ws_open t \<and> ws_onmessage t \<and> ws_handler t EvMessage \<and> rQi t = 0 \<and> rQlen' t = 0 \<and>
     int (length (rQ t)) = rQbufferSize t \<and> rQbufferSize t \<le> MAX_RQ_GROW_SIZE \<and>
     sQlen t = 0 \<and> length (sQ t) = sQbufferSize t"

definition loaded :: "byte list \<Rightarrow> websock \<Rightarrow> websock" where
  "loaded d t = t\<lparr>rQ := write_at (rQ t) 0 d, rQlen' := length d\<rparr>"

lemma decode_loads:
  assumes "clear_sock t" "length d \<le> length (rQ t)"
  shows "DecodeMessage d t = (Inr (), loaded d t)"
  using assms by (simp add: DecodeMessage_def bindx_def clear_sock_def ta_set_def loaded_def)

lemma loaded_queue:
  assumes "clear_sock t" "length d \<le> length (rQ t)"
  shows "rq_inv (loaded d t)" "unread (loaded d t) = d"
  using assms take_write_at [of 0 d "rQ t"] by (simp_all add: clear_sock_def loaded_def rq_inv_def unread_def)

lemma rQshiftStr_short:
  assumes "rq_inv t" "n \<le> length (unread t)" "0 < n" "n \<le> 4096"
  shows "rQshiftStr (int n) t = (Inr (str_of_bytes (take n (unread t))), rQskipBytes n t)"
proof -
  have "rQshiftStr_loop 4096 (int n) str u = (Inr str, u)" for str u
    using assms(4) by (subst rQshiftStr_loop.simps) (simp del: rQshiftStr_loop.simps)
  then show ?thesis
    using assms rQshiftBytes_unread [OF assms(1,2)]
    by (simp add: rQshiftStr_def del: rQshiftStr_loop.simps)
      (subst rQshiftStr_loop.simps, simp add: min_absorb2 del: rQshiftStr_loop.simps)
qed

lemma send_at_once:
  assumes "ws_open t" "sQlen t = 0" "length (sQ t) = sQbufferSize t" "0 < length arr" "length arr \<le> sQbufferSize t"
  shows "send arr t = (Inr (), t\<lparr>sQ := write_at (sQ t) 0 arr, sQlen := 0, ws_sent := ws_sent t @ [arr]\<rparr>)"
  using assms take_write_at [of 0 arr "sQ t"]
  by (simp add: send_def ta_set_def flush_def readyState_open ws_open_def encodeMessage_def)

text \<open>The channel after a message \<open>d\<close> has been read and \<open>arr\<close> sent in reply.\<close>

definition replied :: "byte list \<Rightarrow> byte list \<Rightarrow> websock \<Rightarrow> websock" where
  "replied d arr t = t\<lparr>rQ := write_at (rQ t) 0 d, sQ := write_at (sQ t) 0 arr, sQlen := 0, ws_sent := ws_sent t @ [arr]\<rparr>"

lemma replied_clear: "clear_sock t \<Longrightarrow> clear_sock (replied d arr t)"
  by (simp add: clear_sock_def replied_def ws_open_def)

lemma replied_sent [simp]: "ws_sent (replied d arr t) = ws_sent t @ [arr]"
  by (simp add: replied_def)

lemma replied_sizes [simp]: "length (rQ (replied d arr t)) = length (rQ t)" "sQbufferSize (replied d arr t) = sQbufferSize t"
  by (simp_all add: replied_def)

text \<open>Reading all of \<open>d\<close> and then sending \<open>arr\<close>.\<close>

lemma send_replied:
  assumes "clear_sock t" "0 < length arr" "length arr \<le> sQbufferSize t"
  shows "send arr (rQskipBytes n (loaded d t)) = (Inr (), (replied d arr t)\<lparr>rQi := n, rQlen' := length d\<rparr>)"
  using assms
  by (subst send_at_once) (simp_all add: clear_sock_def rQskipBytes_def loaded_def replied_def ws_open_def)

text \<open>A message to a session that is connecting, of which nothing stays in the queue.\<close>

lemma receive_init:
  assumes s: "rfbConnectionState s = Connecting" "clear_sock (sock s)"
    and d: "0 < length d" "length d \<le> length (rQ (sock s))"
    and m: "init_message env (s\<lparr>sock := loaded d (sock s)\<rparr>) = (Inr r, t)" "rQi (sock t) = rQlen' (sock t)"
  shows "snd (receive_data env d s) = t\<lparr>sock := (sock t)\<lparr>rQlen' := 0, rQi := 0\<rparr>\<rparr>"
proof -
  let ?l = "s\<lparr>sock := loaded d (sock s)\<rparr>"
  have l: "rQlen (sock ?l) = int (length d)" "ws_handler (sock ?l) EvMessage"
    using s(2) by (simp_all add: rQlen_def loaded_def clear_sock_def)
  have "thenx (init_message env) (ret ()) ?l = (Inr (), t)" by (simp add: thenx_def bindx_def m ret_def)
  then have h: "handleMessage env ?l = (Inr (), t)"
    using l(1) d(1) s(1) by (simp add: handleMessage_def bindx_gets)
  have "zoom sock (\<lambda>t s. s\<lparr>sock := t\<rparr>) (DecodeMessage d) s = (Inr (), ?l)"
    using decode_loads [OF s(2) d(2)] by (simp add: zoom_def)
  then show ?thesis
    using s(2) l d(1) h m(2)
    by (simp add: receive_data_def bindx_gets recvMessage_def thenx_ok bindx_ok clear_sock_def)
qed

text \<open>One that the handshake reads to its end and answers.\<close>

lemma receive_answers:
  assumes s: "rfbConnectionState s = Connecting" "clear_sock (sock s)"
    and d: "0 < length d" "length d \<le> length (rQ (sock s))"
    and m: "init_message env (s\<lparr>sock := loaded d (sock s)\<rparr>) =
      (Inr r, t\<lparr>sock := (replied d arr (sock s))\<lparr>rQi := length d, rQlen' := length d\<rparr>\<rparr>)"
  shows "snd (receive_data env d s) = t\<lparr>sock := replied d arr (sock s)\<rparr>"
proof -
  have "(replied d arr (sock s))\<lparr>rQlen' := 0, rQi := 0\<rparr> = replied d arr (sock s)"
    using s(2) by (simp add: replied_def clear_sock_def)
  then show ?thesis using receive_init [OF s d m] by simp
qed

section \<open>The four messages\<close>

text \<open>A string in bytes.\<close>

definition ascii :: "string \<Rightarrow> byte list" where
  "ascii cs = map (\<lambda>c. to_byte (int (of_char c))) cs"

definition version_line :: "string \<Rightarrow> string" where
  "version_line v = ''RFB '' @ v @ [CHR 0x0A]"

lemma str_of_ascii: "str_of_bytes (ascii cs) = cs"
proof -
  have "unat (to_byte (int (of_char c))) = of_char c" for c
    by (simp add: to_byte_def unsigned_of_nat take_bit_eq_mod nat_of_char_less_256)
  then show ?thesis by (simp add: str_of_bytes_def ascii_def comp_def)
qed

lemma length_ascii [simp]: "length (ascii cs) = length cs"
  by (simp add: ascii_def)

lemma sendString_ascii: "sendString str = send (ascii str)"
  by (simp add: sendString_def ascii_def)

lemma digit_3: "digit 3 = CHR ''3''"
  by code_simp

lemmas dialogue = bindx_sock thenx_sock bindx_gets thenx_modify wait_else_def Let_def set_init_def set_scheme_def ret_def

lemma answers_version:
  assumes s: "rfbInitState s = ProtocolVersion" "rfbMaxVersion s = 38" and c: "clear_sock (sock s)" "12 \<le> sQbufferSize (sock s)"
    and v: "map_of server_versions v = Some k" and d: "12 \<le> length (rQ (sock s))"
  shows "init_message env (s\<lparr>sock := loaded (ascii (version_line v)) (sock s)\<rparr>) =
    (Inr False, s\<lparr>rfbVersion := k, rfbInitState := Security,
       sock := (replied (ascii (version_line v)) (ascii (version_line (''003.00'' @ [digit (k mod 10)]))) (sock s))
         \<lparr>rQi := 12, rQlen' := 12\<rparr>\<rparr>)"
proof -
  let ?d = "ascii (version_line v)"
  let ?t = "loaded ?d (sock s)"
  have len: "length v = 7" "v \<noteq> ''000.000''" "k div 10 = 3" "\<not> 38 < k"
    using v by (auto simp: server_versions_def split: if_splits)
  have ld: "length ?d = 12" using len by (simp add: version_line_def)
  note q = loaded_queue [OF c(1), of ?d, unfolded ld, OF d]
  have w: "rQlen ?t = 12" using q ld by (simp add: rQlen_unread)
  have r: "rQshiftStr 12 ?t = (Inr (version_line v), rQskipBytes 12 ?t)"
    using rQshiftStr_short [OF q(1), of 12] q(2) ld by (simp add: str_of_ascii)
  have v': "take 7 (drop 4 (version_line v)) = v" using len by (simp add: version_line_def)
  have a: "send (ascii (version_line (''003.00'' @ [digit (k mod 10)]))) (rQskipBytes 12 ?t) =
    (Inr (), (replied ?d (ascii (version_line (''003.00'' @ [digit (k mod 10)]))) (sock s))\<lparr>rQi := 12, rQlen' := 12\<rparr>)"
    using send_replied [OF c(1), of "ascii (version_line (''003.00'' @ [digit (k mod 10)]))" 12 ?d] c(2) ld
    by (simp add: version_line_def)
  have b: "''RFB 00'' @ [digit (k div 10)] @ ''.00'' @ [digit (k mod 10)] @ [CHR 0x0A] = version_line (''003.00'' @ [digit (k mod 10)])"
    by (simp add: version_line_def len digit_3)
  show ?thesis
    unfolding init_message_def init_fuel_def numeral_3_eq_3 initMsg.simps bindx_gets
    by (simp add: dialogue s negotiateProtocolVersion_def rQwait_def w r v' len(2,4) v
      b [simplified append_Cons append_Nil] sendString_ascii a [simplified append_Cons append_Nil])
qed

lemma skip_queue:
  assumes "clear_sock t" "length d \<le> length (rQ t)" "n \<le> length d"
  shows "rq_inv (rQskipBytes n (loaded d t)) \<and> unread (rQskipBytes n (loaded d t)) = drop n d"
  using loaded_queue [OF assms(1,2)] assms(3) by (simp add: rq_inv_skip unread_skip)

lemma answers_security:
  assumes s: "rfbInitState s = Security" "rfbVersion s \<ge> 37" and c: "clear_sock (sock s)" "1 \<le> sQbufferSize (sock s)"
    and ts: "ts \<noteq> []" "length ts < 256" "preferred_scheme ts = Some 2" and d: "length ts < length (rQ (sock s))"
  shows "init_message env (s\<lparr>sock := loaded (to_byte (int (length ts)) # ts) (sock s)\<rparr>) =
    (Inr False, s\<lparr>rfbAuthScheme := 2, rfbInitState := Authentication,
       sock := (replied (to_byte (int (length ts)) # ts) [2] (sock s))
         \<lparr>rQi := Suc (length ts), rQlen' := Suc (length ts)\<rparr>\<rparr>)"
proof -
  let ?d = "to_byte (int (length ts)) # ts"
  let ?t = "loaded ?d (sock s)"
  let ?r = "(replied ?d [2] (sock s))\<lparr>rQi := Suc (length ts), rQlen' := Suc (length ts)\<rparr>"
  have ld: "length ?d \<le> length (rQ (sock s))" using d by simp
  note q = loaded_queue [OF c(1) ld] and k = skip_queue [OF c(1) ld]
  have n: "rQshift8 ?t = (Inr (int (length ts)), rQskipBytes (Suc 0) ?t)"
    using rQshift_unread [OF q(1), of 1] q(2) ts(2) by (simp add: rQshift8_def shift_value_1 [simplified] uint_to_byte_id)
  have w: "rQlen (rQskipBytes (Suc 0) ?t) = int (length ts)"
    using k [of "Suc 0"] by (simp add: rQlen_unread)
  have b: "rQshiftBytes (int (length ts)) (rQskipBytes (Suc 0) ?t) = (Inr ts, rQskipBytes (Suc (length ts)) ?t)"
    using rQshiftBytes_unread [of "rQskipBytes (Suc 0) ?t" "length ts"] k [of "Suc 0"] by (simp add: skip_skip)
  have a: "send [2] (rQskipBytes (Suc (length ts)) ?t) = (Inr (), ?r)"
    using send_replied [OF c(1), of "[2]" "Suc (length ts)" ?d] c(2) by simp
  have l: "rQwait 16 0 ?r = (Inr True, ?r)" by (simp add: rQwait_def rQlen_def)
  have two: "to_byte 2 = 2" by (simp add: to_byte_def)
  have "rQwait (int (length ts)) (Suc 0) (rQskipBytes (Suc 0) ?t) = (Inr False, rQskipBytes (Suc 0) ?t)"
    using w by (simp add: rQwait_def)
  note wt = this
  show ?thesis
    unfolding init_message_def init_fuel_def numeral_3_eq_3 initMsg.simps bindx_gets
    by (simp add: dialogue s negotiateSecurity_def n wt ts b a authenticate_def negotiateAuthentication_def
      negotiateStdVNCAuth_def two l)
qed

lemma answers_challenge:
  assumes s: "rfbInitState s = Authentication" "rfbAuthScheme s = 2" "password (rfbCredentials s) = Some pw"
    and c: "clear_sock (sock s)" "16 \<le> sQbufferSize (sock s)" and ch: "length ch = 16" "16 \<le> length (rQ (sock s))"
  shows "init_message env (s\<lparr>sock := loaded ch (sock s)\<rparr>) =
    (Inr True, s\<lparr>rfbInitState := SecurityResult,
       sock := (replied ch (genDES pw ch) (sock s))\<lparr>rQi := 16, rQlen' := 16\<rparr>\<rparr>)"
proof -
  let ?t = "loaded ch (sock s)"
  have ld: "length ch \<le> length (rQ (sock s))" using ch by simp
  note q = loaded_queue [OF c(1) ld]
  have w: "rQwait 16 0 ?t = (Inr False, ?t)" using q ch(1) by (simp add: rQwait_here)
  have b: "rQshiftBytes 16 ?t = (Inr ch, rQskipBytes 16 ?t)"
    using rQshiftBytes_unread [OF q(1), of 16] q(2) ch(1) by simp
  have "length (genDES pw ch) = 16" by (simp add: genDES_def encrypt_def)
  then have a: "send (genDES pw ch) (rQskipBytes 16 ?t) =
    (Inr (), (replied ch (genDES pw ch) (sock s))\<lparr>rQi := 16, rQlen' := 16\<rparr>)"
    using send_replied [OF c(1), of "genDES pw ch" 16 ch] c(2) ch(1) by simp
  show ?thesis
    unfolding init_message_def init_fuel_def numeral_3_eq_3 initMsg.simps bindx_gets
    by (simp add: dialogue s negotiateAuthentication_def negotiateStdVNCAuth_def w b a)
qed

lemma answers_result:
  assumes s: "rfbInitState s = SecurityResult" and c: "clear_sock (sock s)" "1 \<le> sQbufferSize (sock s)" "4 \<le> length (rQ (sock s))"
  shows "init_message env (s\<lparr>sock := loaded [0, 0, 0, 0] (sock s)\<rparr>) =
    (Inr True, s\<lparr>rfbInitState := ServerInitialisation,
       sock := (replied [0, 0, 0, 0] [of_bool (shared s)] (sock s))\<lparr>rQi := 4, rQlen' := 4\<rparr>\<rparr>)"
proof -
  let ?t = "loaded [0, 0, 0, 0] (sock s)"
  have ld: "length [0, 0, 0, 0 :: byte] \<le> length (rQ (sock s))" using c(3) by simp
  note q = loaded_queue [OF c(1) ld]
  have w: "rQwait 4 0 ?t = (Inr False, ?t)" using q by (simp add: rQwait_here)
  have b: "rQshift32 ?t = (Inr 0, rQskipBytes 4 ?t)"
    using rQshift_unread [OF q(1), of 4] q(2) by (simp add: rQshift32_def shift_value_def take_4 of_be_4 toSigned32bit_nonneg)
  have a: "send [of_bool (shared s)] (rQskipBytes 4 ?t) =
    (Inr (), (replied [0, 0, 0, 0] [of_bool (shared s)] (sock s))\<lparr>rQi := 4, rQlen' := 4\<rparr>)"
    using send_replied [OF c(1), of "[of_bool (shared s)]" 4 "[0, 0, 0, 0]"] c(2) by simp
  have e: "[if shared s then 1 else 0] = [of_bool (shared s) :: byte]" by simp
  show ?thesis
    unfolding init_message_def init_fuel_def numeral_3_eq_3 initMsg.simps bindx_gets
    by (simp add: dialogue s handleSecurityResult_def w b clientInitialisation_def e [simplified] a del: of_bool_eq)
qed

section \<open>The dialogue\<close>

text \<open>A session whose channel has just opened.\<close>

definition greeting :: "rfb \<Rightarrow> bool" where
  "greeting s \<longleftrightarrow> rfbConnectionState s = Connecting \<and> rfbInitState s = ProtocolVersion \<and> rfbMaxVersion s = 38 \<and>
     clear_sock (sock s) \<and> 16 \<le> sQbufferSize (sock s) \<and> 256 \<le> length (rQ (sock s))"

text \<open>C4. The dialogue of VNC authentication. For a server that speaks version 3.7 or later in any of its
  spellings, offers any list of security types of which the session prefers VNC authentication, sends a
  challenge and accepts the response, the session answers with the version it will use, its choice, the
  DES encryption of the challenge under the password, and the flag for a shared desktop, one answer for
  each message, and waits for the description of the framebuffer.\<close>

theorem vnc_dialogue:
  assumes s: "greeting s" "password (rfbCredentials s) = Some pw"
    and v: "map_of server_versions v = Some k" "37 \<le> k"
    and ts: "ts \<noteq> []" "length ts < 256" "preferred_scheme ts = Some 2" and ch: "length ch = 16"
    and t: "t = inputs env [SocketData (ascii (version_line v)), SocketData (to_byte (int (length ts)) # ts),
      SocketData ch, SocketData [0, 0, 0, 0]] s"
  shows "rfbInitState t = ServerInitialisation \<and> rfbConnectionState t = Connecting \<and> rfbVersion t = k \<and>
    ws_sent (sock t) = ws_sent (sock s) @ [ascii (version_line (''003.00'' @ [digit (k mod 10)])), [2], genDES pw ch,
      [of_bool (shared s)]]"
proof -
  let ?d1 = "ascii (version_line v)" and ?a1 = "ascii (version_line (''003.00'' @ [digit (k mod 10)]))"
  let ?d2 = "to_byte (int (length ts)) # ts"
  have c: "rfbConnectionState s = Connecting" "rfbInitState s = ProtocolVersion" "rfbMaxVersion s = 38"
    "clear_sock (sock s)" "16 \<le> sQbufferSize (sock s)" "256 \<le> length (rQ (sock s))"
    using s(1) by (simp_all add: greeting_def)
  have "length v = 7" using v(1) by (auto simp: server_versions_def split: if_splits)
  then have l1: "length ?d1 = 12" by (simp add: version_line_def)
  define s1 where "s1 = s\<lparr>rfbVersion := k, rfbInitState := Security, sock := replied ?d1 ?a1 (sock s)\<rparr>"
  define s2 where "s2 = s1\<lparr>rfbAuthScheme := 2, rfbInitState := Authentication, sock := replied ?d2 [2] (sock s1)\<rparr>"
  define s3 where "s3 = s2\<lparr>rfbInitState := SecurityResult, sock := replied ch (genDES pw ch) (sock s2)\<rparr>"
  define s4 where "s4 = s3\<lparr>rfbInitState := ServerInitialisation, sock := replied [0, 0, 0, 0] [of_bool (shared s)] (sock s3)\<rparr>"
  have r1: "snd (receive_data env ?d1 s) = s1"
    unfolding s1_def using answers_version [OF c(2-4) _ v(1)] l1 c
    by (intro receive_answers [where r = False]) simp_all
  have c1: "clear_sock (sock s1)" "sQbufferSize (sock s1) = sQbufferSize (sock s)" "length (rQ (sock s1)) = length (rQ (sock s))"
    using c(4) by (simp_all add: s1_def replied_clear)
  have r2: "snd (receive_data env ?d2 s1) = s2"
    unfolding s2_def using answers_security [of s1 ts env] c1 c ts v(2)
    by (intro receive_answers [where r = False]) (simp_all, simp_all add: s1_def)
  have c2: "clear_sock (sock s2)" "sQbufferSize (sock s2) = sQbufferSize (sock s)" "length (rQ (sock s2)) = length (rQ (sock s))"
    using c1 by (simp_all add: s2_def replied_clear)
  have r3: "snd (receive_data env ch s2) = s3"
    unfolding s3_def using answers_challenge [of s2 pw ch env] c2 c ch s(2)
    by (intro receive_answers [where r = True]) (simp_all, simp_all add: s2_def s1_def)
  have c3: "clear_sock (sock s3)" "sQbufferSize (sock s3) = sQbufferSize (sock s)" "length (rQ (sock s3)) = length (rQ (sock s))"
    using c2 by (simp_all add: s3_def replied_clear)
  have r4: "snd (receive_data env [0, 0, 0, 0] s3) = s4"
    unfolding s4_def using answers_result [of s3 env] c3 c
    by (intro receive_answers [where r = True]) (simp_all, simp_all add: s3_def s2_def s1_def)
  have "t = s4" by (simp add: t r1 r2 r3 r4)
  then show ?thesis using c(1) by (simp add: s4_def s3_def s2_def s1_def)
qed

text \<open>A session that has been opened on small buffers, and a server of version 4.0 that offers four types.\<close>

definition small_sock :: websock where
  "small_sock = new_websock\<lparr>rQ := replicate 256 0, rQbufferSize := 256, sQ := replicate 16 0, sQbufferSize := 16,
     ws_channel := Some OPEN, ws_onmessage := True, ws_handler := (\<lambda>_. True)\<rparr>"

definition greeted :: rfb where
  "greeted = (new_rfb plain_env None \<lparr>username = None, password = Some (units ''secret''), cr_target = None\<rparr> True [] 800 600)
     \<lparr>rfbConnectionState := Connecting, rfbInitState := ProtocolVersion, sock := small_sock\<rparr>"

theorem vnc_dialogue_witness:
  "rfbInitState (inputs plain_env [SocketData (ascii (version_line ''004.000'')), SocketData (to_byte 3 # [18, 2, 5]),
     SocketData (replicate 16 7), SocketData [0, 0, 0, 0]] greeted) = ServerInitialisation"
proof -
  have g: "greeting greeted" "password (rfbCredentials greeted) = Some (units ''secret'')"
    by (simp_all add: greeting_def greeted_def new_rfb_def clear_sock_def small_sock_def new_websock_def ws_open_def
        MAX_RQ_GROW_SIZE_def)
  have v: "map_of server_versions ''004.000'' = Some 38" by (simp add: server_versions_def)
  show ?thesis
    using vnc_dialogue [OF g v, of "[18, 2, 5]" "replicate 16 7", OF _ _ _ _ _ HOL.refl] by (simp add: preferred_scheme_def)
qed

end
