(* ===== verification/Session_Limits.thy ===== *)
theory Session_Limits
  imports Session_Handshake
begin

text \<open>
  Three places where the session falls out of step with the server or the user: a long fence, an update
  without rectangles while an image is being decoded, and a change to view only while a key is held.
\<close>

lemma modify_at: "modify f t = (Inr (), f t)"
  by (simp add: modify_def)

lemma thenx_disp: "thenx (on_disp (modify f)) n s = n (s\<lparr>disp := f (disp s)\<rparr>)"
  by (simp add: thenx_def bindx_def on_disp_def zoom_def modify_def)

section \<open>View only\<close>

lemma handleKeyEvents_viewOnly: "viewOnly s \<Longrightarrow> handleKeyEvents as s = (Inr (), s)"
  by (induction as) (auto simp: handleKeyEvent_def sendKey_def exec_simps)

lemma release_deletes:
  "fst ` set (keyDownList (fold (\<lambda>c k. sendKeyEvent (held_keysym c k) c False k) cs k)) = fst ` set (keyDownList k) - set cs"
proof (induction cs arbitrary: k)
  case (Cons c cs)
  have "fst ` set (keyDownList (sendKeyEvent m c False k)) = fst ` set (keyDownList k) - {c}" for m
    by (auto simp: sendKeyEvent_def AList.delete_eq)
  with Cons show ?case by auto
qed simp

text \<open>C39. Making a connected session view only while keys are held: the keyboard reports all of them
  released and forgets them, but nothing is sent, since the session is view only already. For the server
  they stay pressed.\<close>

theorem view_only_keeps_keys_pressed:
  assumes "rfbConnectionState s = Connected"
  shows "sock (snd (set_viewOnly True s)) = sock s \<and> keyDownList (kb (snd (set_viewOnly True s))) = []"
proof -
  have "snd (set_viewOnly True s) = s\<lparr>viewOnly := True, kb := ungrab (kb s)\<rparr>"
    using assms by (simp add: set_viewOnly_def on_kb_def bindx_gets thenx_modify Let_def handleKeyEvents_viewOnly)
  moreover have "fst ` set (keyDownList (ungrab (kb s))) = {}"
    by (simp add: ungrab_def allKeysUp_def release_deletes)
  ultimately show ?thesis by simp
qed

section \<open>Fences\<close>

text \<open>C40. A fence may carry up to 255 bytes by its length, but the session takes at most 64 of them from the
  queue: the rest of a longer payload is read as the next message.\<close>

theorem long_fence_leaves_payload:
  assumes q: "rq_inv (sock s)" "unread (sock s) = [p, p', p''] @ be32 flags @ [to_byte (int (length payload))] @ payload @ rest"
    and p: "64 < length payload" "length payload < 256" and f: "bit flags 31"
  shows "fst (handleServerFenceMsg s) = Inr True \<and>
    unread (sock (snd (handleServerFenceMsg s))) = drop 64 payload @ rest"
proof -
  let ?t = "sock s" and ?f = "toSigned32bit flags"
  have l: "length (unread ?t) = 8 + length payload + length rest" using q(2) by (simp add: be32_def)
  have w8: "rQwait 8 (Suc 0) ?t = (Inr False, ?t)" using l by (simp add: rQwait_def rQlen_unread q(1))
  have sh4: "rQshift32 (rQskipBytes 3 ?t) = (Inr ?f, rQskipBytes 7 ?t)"
    using rq.shift_adv [OF q(1), of 3 4] l q(2) by (simp add: rQshift32_def shift_value_be32)
  have sh1: "rQshift8 (rQskipBytes 7 ?t) = (Inr (int (length payload)), rQskipBytes 8 ?t)"
    using rq.shift_adv [OF q(1), of 7 1] l q(2) p(2)
    by (simp add: rQshift8_def be32_def shift_value_1 [simplified] uint_to_byte_id)
  have k: "rq_inv (rQskipBytes 8 ?t)" "unread (rQskipBytes 8 ?t) = payload @ rest"
    using l q by (simp_all add: rq_inv_skip unread_skip be32_def)
  have w: "rQwait (int (length payload)) 9 (rQskipBytes 8 ?t) = (Inr False, rQskipBytes 8 ?t)"
    using k by (simp add: rQwait_def rQlen_unread)
  have st: "rQshiftStr 64 (rQskipBytes 8 ?t) = (Inr (str_of_bytes (take 64 payload)), rQskipBytes 72 ?t)"
    using rQshiftStr_short [OF k(1), of 64] k(2) p by (simp add: skip_skip)
  have u: "unread (rQskipBytes 72 ?t) = drop 64 payload @ rest"
    using q l p by (simp add: unread_skip be32_def)
  have "bit (js_and ?f (js_shl 1 31)) 31"
    using f by (simp add: js_and_def js_shl_def toSigned32bit_def bit_and_iff bit_signed_take_bit_iff bit_push_bit_iff)
  then have b: "has_bit ?f (js_shl 1 31)" by (auto simp: has_bit_def)
  show ?thesis
    using p(1) b
    by (simp add: handleServerFenceMsg_def dialogue modify_at skip_bytes_def w8 sh4 sh1 w st tell_def u clientFence_def)
qed

section \<open>Updates without rectangles\<close>

text \<open>An update without rectangles that arrives while an image is still being decoded: the session
  waits for the display, and when the display has been flushed it does nothing more. The update is over
  (no rectangle is to come, nothing is left to read), but the request for the next one is never sent.\<close>

theorem empty_update_stalls:
  assumes q: "rq_inv (sock s)" "unread (sock s) = [p, 0, 0]" and r: "rects (FBU s) = 0" "renderQ (disp s) \<noteq> []"
  shows "fst (handleFBU env s) = Inr False \<and>
    (let t = snd (onFlush env (snd (handleFBU env s))) in
      sent_stream (sock t) = sent_stream (sock s) \<and> unread (sock t) = [] \<and> rects (FBU t) = 0 \<and> \<not> rfb_flushing t)"
proof -
  let ?t = "sock s"
  let ?d = "(disp s)\<lparr>flushing := True\<rparr>"
  let ?u = "s\<lparr>sock := rQskipBytes 3 ?t, FBU := (FBU s)\<lparr>rects := 0\<rparr>, rfb_flushing := True, disp := ?d\<rparr>"
  have w: "rQwait 3 (Suc 0) ?t = (Inr False, ?t)" using q by (simp add: rQwait_def rQlen_unread)
  have sh: "rQshift16 (rQskipBytes (Suc 0) ?t) = (Inr 0, rQskipBytes 3 ?t)"
    using rq.shift_adv [OF q(1), of "Suc 0" 2] q(2) by (simp add: rQshift16_def shift_value_2 numeral_3_eq_3)
  have u: "rq_inv (rQskipBytes 3 ?t)" "unread (rQskipBytes 3 ?t) = []" using q by (simp_all add: rq_inv_skip unread_skip)
  have f: "framebufferUpdate env s = (Inr False, ?u)"
    using r by (simp add: framebufferUpdate_def dialogue modify_at skip_bytes_def w sh pending_def thenx_disp flush_display_def)
  have h: "handleFBU env s = (Inr False, ?u)" by (simp add: handleFBU_def bindx_ok [where m = "framebufferUpdate env", OF f] bindx_gets thenx_ok ret_def)
  have "snd (onFlush env ?u) = ?u\<lparr>rfb_flushing := False\<rparr>"
    using u by (simp add: onFlush_def dialogue rQlen_unread)
  then show ?thesis using u by (simp add: h Let_def sent_stream_def rQskipBytes_def)
qed

section \<open>Witnesses\<close>

lemma small_clear: "clear_sock small_sock"
  by (simp add: clear_sock_def small_sock_def new_websock_def ws_open_def MAX_RQ_GROW_SIZE_def)

lemma small_queue: "length d \<le> 256 \<Longrightarrow> rq_inv (loaded d small_sock) \<and> unread (loaded d small_sock) = d"
  using loaded_queue [OF small_clear, of d] by (simp add: small_sock_def)

text \<open>A connected session with a key held down.\<close>

definition holding :: rfb where
  "holding = greeted\<lparr>rfbConnectionState := Connected,
     kb := new_keyboard\<lparr>kb_grabbed := True, keyDownList := [(Code ''KeyA'', Some 97)], kb_out := [(Some 97, Code ''KeyA'', True)]\<rparr>\<rparr>"

theorem view_only_keeps_keys_pressed_witness:
  "keyDownList (kb holding) = [(Code ''KeyA'', Some 97)] \<and> sock (snd (set_viewOnly True holding)) = sock holding \<and>
   keyDownList (kb (snd (set_viewOnly True holding))) = []"
  using view_only_keeps_keys_pressed [of holding] by (simp add: holding_def new_keyboard_def)

theorem long_fence_leaves_payload_witness:
  "unread (sock (snd (handleServerFenceMsg
     (greeted\<lparr>sock := loaded ([0, 0, 0] @ be32 (2 ^ 31) @ [to_byte 65] @ replicate 65 7) small_sock\<rparr>)))) = [7]"
  using long_fence_leaves_payload [of "greeted\<lparr>sock := loaded ([0, 0, 0] @ be32 (2 ^ 31) @ [to_byte 65] @ replicate 65 7) small_sock\<rparr>"
      0 0 0 "2 ^ 31" "replicate 65 7" "[]"] small_queue [of "[0, 0, 0] @ be32 (2 ^ 31) @ [to_byte 65] @ replicate 65 7"]
  by (simp add: be32_def bit_push_bit_iff)

theorem empty_update_stalls_witness:
  "fst (handleFBU plain_env (greeted\<lparr>sock := loaded [0, 0, 0] small_sock, disp := (disp greeted)\<lparr>renderQ := [Flip]\<rparr>\<rparr>))
    = Inr False"
  using empty_update_stalls [of "greeted\<lparr>sock := loaded [0, 0, 0] small_sock, disp := (disp greeted)\<lparr>renderQ := [Flip]\<rparr>\<rparr>"
      0 plain_env] small_queue [of "[0, 0, 0]"]
  by (simp add: greeted_def new_rfb_def new_fbu_def)

end
