(* ===== verification/Session_Retry.thy ===== *)
theory Session_Retry
  imports Session_Handshake
begin

text \<open>
  A message of which a part is missing is left in the queue as a whole: its handler gives back what it has
  read and changes nothing, so that the message is handled again when more data has come.
\<close>

section \<open>Giving back\<close>

text \<open>The session after \<open>k\<close> bytes have been taken from the queue.\<close>

definition taken :: "nat \<Rightarrow> rfb \<Rightarrow> rfb" where
  "taken k s = s\<lparr>sock := rQskipBytes k (sock s)\<rparr>"

text \<open>From \<open>taken k s\<close>, a run that returns False and leaves the session connected ends in \<open>s\<close>.\<close>

definition restores :: "nat \<Rightarrow> rfb \<Rightarrow> bool session \<Rightarrow> bool" where
  "restores k s m \<longleftrightarrow> (\<forall>t. m (taken k s) = (Inr False, t) \<longrightarrow> rfbConnectionState t = Connected \<longrightarrow> t = s)"

text \<open>A computation that returns False only when it has ended the connection.\<close>

definition decisive :: "bool session \<Rightarrow> bool" where
  "decisive m \<longleftrightarrow> (\<forall>s t. m s = (Inr False, t) \<longrightarrow> rfbConnectionState t \<noteq> Connected)"

lemma decisive_restores: "decisive m \<Longrightarrow> restores k s m"
  by (auto simp: decisive_def restores_def)

lemma decisive_bindx: "(\<And>a. decisive (f a)) \<Longrightarrow> decisive (bindx m f)"
  unfolding decisive_def by (blast elim: bindx_returns)

lemma decisive_thenx: "decisive n \<Longrightarrow> decisive (thenx m n)"
  unfolding thenx_def by (rule decisive_bindx)

lemma decisive_True: "decisive (ret True)"
  by (simp add: decisive_def ret_def)

lemma decisive_if: "(P \<Longrightarrow> decisive m) \<Longrightarrow> (\<not> P \<Longrightarrow> decisive n) \<Longrightarrow> decisive (if P then m else n)"
  by simp

lemma decisive_option: "(x = None \<Longrightarrow> decisive m) \<Longrightarrow> (\<And>a. x = Some a \<Longrightarrow> decisive (f a)) \<Longrightarrow>
    decisive (case x of None \<Rightarrow> m | Some a \<Rightarrow> f a)"
  by (cases x) simp_all

lemma decisive_Let: "decisive (f x) \<Longrightarrow> decisive (let a = x in f a)"
  by simp

text \<open>Failing leads to \<open>Disconnecting\<close> or beyond.\<close>

lemma decisive_failing: "decisive failing"
proof -
  have "rfbConnectionState (snd (fail s)) \<noteq> Connected" for s
    by (simp add: fail_def thenx_def bindx_def modify_def to_disconnecting_eq to_disconnected_eq transition_ok_def
        ret_def split: conn.split)
  then show ?thesis unfolding decisive_def failing_def by (metis snd_conv)
qed

lemmas decisive_rules = decisive_failing decisive_True decisive_if decisive_option decisive_Let decisive_thenx decisive_bindx

section \<open>Readers\<close>

lemma restores_back:
  assumes "restores k s m" shows "restores k s (wait_else n k m)"
proof (cases "k = 0")
  case True
  with assms show ?thesis by (auto simp: restores_def wait_here taken_def skip_0 ret_def)
next
  case False
  have "rQskipBytes k (sock s)\<lparr>rQi := rQi (sock s)\<rparr> = sock s" by (simp add: rQskipBytes_def)
  with False assms show ?thesis
    by (auto simp: restores_def wait_else_def bindx_sock taken_def rQwait_def ret_def rQskipBytes_def)
qed

lemma restores_wait: "g = k \<Longrightarrow> restores k s m \<Longrightarrow> restores k s (wait_else n g m)"
  by (simp add: restores_back)

lemma taken_skip: "(taken k s)\<lparr>sock := rQskipBytes n (sock (taken k s))\<rparr> = taken (k + n) s"
  by (simp add: taken_def skip_skip)

lemma restores_skip: "restores (k + nat n) s m \<Longrightarrow> restores k s (thenx (skip_bytes n) m)"
  using taken_skip [where n = "nat n"] by (simp add: restores_def thenx_sock skip_bytes_def modify_def)

text \<open>A number is read whatever the queue holds.\<close>

lemma shift_taken: "\<exists>v. rQshift n t = (Inr v, rQskipBytes n t)"
proof -
  have "snd (rQshift_loop n r t) = rQskipBytes n t" for r
    by (induction n r t rule: rQshift_loop.induct) (simp_all add: rQskipBytes_def)
  then show ?thesis by (simp add: rQshift_def case_prod_unfold)
qed

lemma restores_shift: "(\<And>v. restores (k + n) s (f v)) \<Longrightarrow> restores k s (bindx (on_sock (rQshift n)) f)"
  using taken_skip [where n = n] shift_taken [of n "sock (taken k s)"] by (auto simp: restores_def bindx_sock)

lemmas restores_shifts = restores_shift [where n = 1, folded rQshift8_def] restores_shift [where n = 4, folded rQshift32_def]

lemma restores_Let: "restores k s (f x) \<Longrightarrow> restores k s (let a = x in f a)"
  by simp

section \<open>Messages\<close>

lemma restores_cutText: "restores 1 s (handleServerCutText env)"
proof -
  have e: "decisive (extended_clipboard env l)" for l
    unfolding extended_clipboard_def clipboard_caps_def clipboard_request_def clipboard_peek_def clipboard_notify_def
      clipboard_provide_def by (intro decisive_rules)
  show ?thesis unfolding handleServerCutText_def
    by (intro restores_wait restores_skip restores_shifts restores_Let decisive_restores decisive_rules e) simp_all
qed

lemma restores_fence: "restores 1 s handleServerFenceMsg"
  unfolding handleServerFenceMsg_def
  by (intro restores_wait restores_skip restores_shifts decisive_restores decisive_rules) simp_all

lemma restores_xvp: "restores 1 s handleXvpMsg"
  unfolding handleXvpMsg_def by (intro restores_wait decisive_restores decisive_rules) simp

lemma restores_message:
  assumes "msgType \<noteq> 0"
  shows "restores 1 s (normal_message env msgType)"
proof -
  have "decisive (thenx fail (bindx (gets sock) (\<lambda>t. bindx (lift_result (rQslice 0 30 t)) (\<lambda>_. ret True))))"
    by (intro decisive_rules)
  moreover have "decisive endOfContinuousUpdates" unfolding endOfContinuousUpdates_def by (intro decisive_rules)
  moreover have "decisive (thenx (dispatch EvBell) (ret True))" by (intro decisive_rules)
  ultimately show ?thesis
    using assms unfolding normal_message_def setColourMap_def
    by (auto intro: restores_cutText [unfolded One_nat_def] restores_fence [unfolded One_nat_def]
      restores_xvp [unfolded One_nat_def] decisive_restores decisive_failing)
qed

text \<open>C7. A message is handled as a whole or not at all. When the handler of a message other than a framebuffer
  update asks for more data and the connection has not failed, the session is exactly as it was before the
  type of the message was read: nothing is consumed, answered, announced or remembered of the part that has
  come. (An update keeps what it has drawn; for the rectangles see the properties of the decoders.)\<close>

theorem message_whole_or_untouched:
  assumes "normalMsg env s = (Inr False, t)" "rects (FBU s) = 0" "rQpeek8 (sock s) \<noteq> 0" "rfbConnectionState t = Connected"
  shows "t = s"
proof -
  have p: "rQshift8 (sock s) = (Inr (rQpeek8 (sock s)), rQskipBytes 1 (sock s))"
    by (simp add: rQshift8_def rQshift_def rQskipBytes_def rQpeek8_def rQ_at_def js_shl_byte js_shl_nonneg)
  then have "normal_message env (rQpeek8 (sock s)) (taken 1 s) = (Inr False, t)"
    using assms(1,2) by (simp add: normalMsg_def bindx_gets bindx_sock taken_def)
  with restores_message [OF assms(3), of s env] assms(4) show ?thesis by (simp add: restores_def)
qed

text \<open>A connected session that has received the first two bytes of a message about the power of the server.\<close>

definition half_message :: rfb where
  "half_message = greeted\<lparr>rfbConnectionState := Connected, sock := loaded [250, 0] small_sock\<rparr>"

theorem message_whole_or_untouched_witness: "normalMsg plain_env half_message = (Inr False, half_message)"
proof -
  have n: "rects (FBU half_message) = 0" "rQpeek8 (sock half_message) = 250"
    by (simp_all add: half_message_def greeted_def new_rfb_def new_fbu_def rQpeek8_def rQ_at_def loaded_def small_sock_def
        new_websock_def)
  obtain t where t: "normalMsg plain_env half_message = (Inr False, t)" "rfbConnectionState t = Connected"
    using n by (simp add: normalMsg_def bindx_gets bindx_sock normal_message_def handleXvpMsg_def wait_else_def rQwait_def
        rQshift8_def rQshift_def rQskipBytes_def rQlen_def half_message_def rQ_at_def loaded_def small_sock_def
        new_websock_def js_shl_nonneg ret_def)
  from message_whole_or_untouched [OF t(1) n(1) _ t(2)] n(2) t(1) show ?thesis by simp
qed

end
