(* ===== verification/Session_Start.thy ===== *)
theory Session_Start
  imports Session_Handshake Display_Viewport
begin

text \<open>
  The end of the handshake: the server describes its framebuffer, and the session becomes connected. What the
  page is told, what the display becomes, and the three messages that start the dialogue of updates.
\<close>

section \<open>Steps that cannot fail\<close>

lemma on_disp_run: "fst (m (disp s)) = Inr a \<Longrightarrow> on_disp m s = (Inr a, s\<lparr>disp := snd (m (disp s))\<rparr>)"
  by (cases "m (disp s)") (simp add: on_disp_def zoom_def)

lemma resize_ok: "fst (resize w h d) = Inr ()"
  unfolding resize_def by (simp add: thenx_modify bindx_gets thenx_ok viewportChangeSize_ok viewportChangePos_ok Let_def)

lemma set_clipViewport_ok: "fst (set_clipViewport b d) = Inr ()"
  unfolding set_clipViewport_def by (simp add: thenx_modify bindx_gets thenx_ok viewportChangeSize_ok viewportChangePos_ok)

text \<open>A part of the session that only changes the display.\<close>

definition display_only :: "unit session \<Rightarrow> bool" where
  "display_only m \<longleftrightarrow> (\<forall>s. \<exists>d. m s = (Inr (), s\<lparr>disp := d\<rparr>))"

lemma display_onlyI: "(\<And>s. \<exists>d. m s = (Inr (), s\<lparr>disp := d\<rparr>)) \<Longrightarrow> display_only m"
  by (simp add: display_only_def)

lemma display_ret: "display_only (ret ())"
proof (rule display_onlyI)
  fix s :: rfb
  show "\<exists>d. ret () s = (Inr (), s\<lparr>disp := d\<rparr>)" by (intro exI [of _ "disp s"]) (simp add: ret_def)
qed

lemma display_call: "(\<And>d. fst (m d) = Inr ()) \<Longrightarrow> display_only (on_disp m)"
  by (rule display_onlyI) (auto simp: on_disp_run)

lemma display_thenx: "display_only m \<Longrightarrow> display_only n \<Longrightarrow> display_only (thenx m n)"
  unfolding display_only_def
proof
  fix s assume m: "\<forall>s. \<exists>d. m s = (Inr (), s\<lparr>disp := d\<rparr>)" and n: "\<forall>s. \<exists>d. n s = (Inr (), s\<lparr>disp := d\<rparr>)"
  obtain d where "m s = (Inr (), s\<lparr>disp := d\<rparr>)" using m by blast
  moreover obtain e where "n (s\<lparr>disp := d\<rparr>) = (Inr (), s\<lparr>disp := d, disp := e\<rparr>)" using n by blast
  ultimately have "thenx m n s = (Inr (), s\<lparr>disp := e\<rparr>)" by (simp add: thenx_ok)
  then show "\<exists>d. thenx m n s = (Inr (), s\<lparr>disp := d\<rparr>)" by blast
qed

lemma display_gets: "(\<And>a. display_only (f a)) \<Longrightarrow> display_only (bindx (gets g) f)"
  by (simp add: display_only_def bindx_gets)

lemma display_if: "display_only m \<Longrightarrow> display_only n \<Longrightarrow> display_only (if b then m else n)"
  by simp

lemma display_Let: "display_only (f x) \<Longrightarrow> display_only (let a = x in f a)"
  by simp

lemmas display_rules = display_gets display_Let display_thenx display_if display_ret display_call

lemma display_updateClip: "display_only updateClip"
  unfolding updateClip_def fixScrollbars_def
  by (intro display_rules set_clipViewport_ok viewportChangeSize_ok)

lemma display_updateScale: "display_only updateScale"
  unfolding updateScale_def fixScrollbars_def by (intro display_rules) (simp_all add: modify_def)

text \<open>Without continuous updates a new size changes the size and the display.\<close>

lemma resize_session:
  assumes "\<not> enabledContinuousUpdates s"
  shows "\<exists>d. rfb_resize w h s = (Inr (), s\<lparr>fbW := w, fbH := h, disp := d\<rparr>)"
proof -
  have "display_only (thenx (on_disp (resize w h)) (thenx updateClip updateScale))"
    by (intro display_rules resize_ok display_updateClip display_updateScale)
  then obtain d where d: "thenx (on_disp (resize w h)) (thenx updateClip updateScale) (s\<lparr>fbW := w, fbH := h\<rparr>) =
      (Inr (), s\<lparr>fbW := w, fbH := h, disp := d\<rparr>)"
    unfolding display_only_def by blast
  have "rfb_resize w h s = thenx (thenx (on_disp (resize w h)) (thenx updateClip updateScale)) updateContinuousUpdates
      (s\<lparr>fbW := w, fbH := h\<rparr>)"
    by (simp only: rfb_resize_def thenx_assoc thenx_modify)
  also have "\<dots> = (Inr (), s\<lparr>fbW := w, fbH := h, disp := d\<rparr>)"
    using d assms by (simp add: thenx_ok updateContinuousUpdates_def bindx_gets ret_def)
  finally show ?thesis by blast
qed

lemma grab_run: "on_kb grab s = (Inr (), s\<lparr>kb := grab (kb s)\<rparr>)"
  by (simp add: on_kb_def bindx_gets thenx_modify grab_def ret_def)

section \<open>Writers on an idle channel\<close>

definition unsent :: "websock \<Rightarrow> bool" where
  "unsent t \<longleftrightarrow> ws_open t \<and> sQlen t = 0 \<and> length (sQ t) = sQbufferSize t"

lemma put_at_once:
  assumes "unsent t" "0 < length vs" "length vs \<le> sQbufferSize t"
  shows "\<exists>q. length q = length (sQ t) \<and>
    put_msg vs t = t\<lparr>sQ := q, sQlen := 0, ws_sent := ws_sent t @ [map to_byte vs]\<rparr>"
proof (intro exI [of _ "write_at (sQ t) 0 (map to_byte vs)"] conjI)
  let ?q = "write_at (sQ t) 0 (map to_byte vs)"
  have "take (length vs) ?q = map to_byte vs"
    using assms take_write_at [of 0 "map to_byte vs" "sQ t"] by (simp add: unsent_def)
  moreover have "readyState t = ''open''" using assms(1) by (simp add: unsent_def readyState_open)
  ultimately show "put_msg vs t = t\<lparr>sQ := ?q, sQlen := 0, ws_sent := ws_sent t @ [map to_byte vs]\<rparr>"
    using assms by (simp add: put_msg_def flush_def unsent_def encodeMessage_def readyState_def)
qed simp

text \<open>A writer given by the bytes of its message.\<close>

definition writes :: "(websock \<Rightarrow> websock) \<Rightarrow> byte list \<Rightarrow> bool" where
  "writes f bs \<longleftrightarrow> (\<exists>vs. f = put_msg vs \<and> map to_byte vs = bs)"

lemma tell_writes:
  assumes "writes f bs" "unsent (sock s)" "0 < length bs" "length bs \<le> sQbufferSize (sock s)"
  shows "\<exists>q. length q = length (sQ (sock s)) \<and>
    tell f s = (Inr (), s\<lparr>sock := (sock s)\<lparr>sQ := q, sQlen := 0, ws_sent := ws_sent (sock s) @ [bs]\<rparr>\<rparr>)"
proof -
  obtain vs where f: "f = put_msg vs" "map to_byte vs = bs" using assms(1) by (auto simp: writes_def)
  then have "length vs = length bs" by auto
  with put_at_once [OF assms(2), of vs] assms(3,4) f obtain q where q: "length q = length (sQ (sock s))"
    "put_msg vs (sock s) = (sock s)\<lparr>sQ := q, sQlen := 0, ws_sent := ws_sent (sock s) @ [bs]\<rparr>" by auto
  then show ?thesis
    by (intro exI [of _ q]) (simp add: f(1) tell_def on_sock_def zoom_def modify_def)
qed

text \<open>The messages: the pixel format for a dep, the encodings, and the request for all of the framebuffer.\<close>

definition format_bytes :: "int \<Rightarrow> byte list" where
  "format_bytes dep = (if dep = 8 then [0, 0, 0, 0, 8, 8, 0, 1, 0, 3, 0, 3, 0, 3, 0, 2, 4, 0, 0, 0]
     else [0, 0, 0, 0, 32, 24, 0, 1, 0, 255, 0, 255, 0, 255, 0, 8, 16, 0, 0, 0])"

definition offered :: "int \<Rightarrow> int \<Rightarrow> int \<Rightarrow> int list" where
  "offered dep quality compression =
     (if dep = 24 then [1, 7, -260, 5, 2] else [1]) @
     [0, quality - 32, compression - 256, -223, -224, -258, -308, -309, -312, -313, -307, 0xc0a1e5ce] @
     (if dep = 24 then [0x574d5664, -239] else [])"

definition encodings_bytes :: "int list \<Rightarrow> byte list" where
  "encodings_bytes encs = [2, 0] @ be16 (int (length encs)) @ concat (map be32 encs)"

definition request_bytes :: "int \<Rightarrow> int \<Rightarrow> byte list" where
  "request_bytes w h = [3, 0, 0, 0, 0, 0] @ be16 w @ be16 h"

lemma writes_format: "dep = 8 \<or> dep = 24 \<Longrightarrow> writes (pixelFormat dep True) (format_bytes dep)"
  by (auto simp: writes_def pixelFormat_def format_bytes_def js_shl_nonneg to_byte_def intro!: exI)

lemma writes_encodings: "writes (clientEncodings encs) (encodings_bytes encs)"
proof -
  have c: "map to_byte (concat (map (\<lambda>enc. [js_sar enc 24, js_sar enc 16, js_sar enc 8, enc]) encs)) = concat (map be32 encs)"
    by (induction encs) (simp_all add: sent_be32 [symmetric])
  show ?thesis
    unfolding writes_def clientEncodings_def encodings_bytes_def
    by (intro exI conjI, rule HOL.refl) (simp add: c, simp add: sent_be16 [symmetric] to_byte_def)
qed

lemma writes_request: "writes (fbUpdateRequest False 0 0 w h) (request_bytes w h)"
  unfolding writes_def fbUpdateRequest_def request_bytes_def
  by (intro exI conjI, rule HOL.refl) (simp add: sent_be16 [symmetric] to_byte_and255, simp add: to_byte_def js_sar_nonneg js_and_nonneg)

lemma sendEncodings_tell: "sendEncodings s = tell (clientEncodings (offered (fbDepth s) (qualityLevel s) (compressionLevel s))) s"
  by (simp add: sendEncodings_def bindx_gets offered_def encoding_defs)

lemma length_offered: "length (encodings_bytes (offered d q c)) \<le> 80"
  by (simp add: encodings_bytes_def offered_def)

section \<open>The description of the framebuffer\<close>

definition server_init :: "int \<Rightarrow> int \<Rightarrow> byte list \<Rightarrow> byte list \<Rightarrow> byte list" where
  "server_init w h format nm = be16 w @ be16 h @ format @ be32 (int (length nm)) @ nm"

text \<open>What follows the reading of the message.\<close>

lemma started:
  assumes s: "rfbConnectionState s = Connecting" "\<not> enabledContinuousUpdates s" "\<not> disconnTimer s"
    and k: "unsent (sock s)" "80 \<le> sQbufferSize (sock s)"
    and dep: "dep = (if name = units ''Intel(r) AMT KVM'' then 8 else 24)"
  shows "\<exists>d q. length q = length (sQ (sock s)) \<and> server_init_done env w h name s = (Inr True,
    s\<lparr>fbName := name, events := events s @ [EvDesktopName name, EvConnect], fbW := w, fbH := h, disp := d,
      kb := (if viewOnly s then kb s else grab (kb s)), fbDepth := dep, rfbConnectionState := Connected,
      sock := (sock s)\<lparr>sQ := q, sQlen := 0, ws_sent := ws_sent (sock s) @
        [format_bytes dep, encodings_bytes (offered dep (qualityLevel s) (compressionLevel s)), request_bytes w h]\<rparr>\<rparr>)"
proof -
  let ?s1 = "s\<lparr>fbName := name, events := events s @ [EvDesktopName name]\<rparr>"
  obtain d where d: "rfb_resize w h ?s1 = (Inr (), ?s1\<lparr>fbW := w, fbH := h, disp := d\<rparr>)"
    using resize_session [of ?s1 w h] s(2) by auto
  define K where "K = (if viewOnly s then kb s else grab (kb s))"
  let ?s2 = "?s1\<lparr>fbW := w, fbH := h, disp := d, kb := K, fbDepth := dep\<rparr>"
  have b: "dep = 8 \<or> dep = 24" by (simp add: dep)
  have l: "length (format_bytes dep) = 20" "length (request_bytes w h) = 10"
    "0 < length (encodings_bytes (offered dep (qualityLevel s) (compressionLevel s)))"
    by (simp_all add: format_bytes_def request_bytes_def encodings_bytes_def)
  obtain q1 where q1: "length q1 = length (sQ (sock s))"
    "tell (pixelFormat dep True) ?s2 = (Inr (), ?s2\<lparr>sock := (sock s)\<lparr>sQ := q1, sQlen := 0, ws_sent := ws_sent (sock s) @ [format_bytes dep]\<rparr>\<rparr>)"
    using tell_writes [OF writes_format [OF b], of ?s2] k l by auto
  let ?s3 = "?s2\<lparr>sock := (sock s)\<lparr>sQ := q1, sQlen := 0, ws_sent := ws_sent (sock s) @ [format_bytes dep]\<rparr>\<rparr>"
  have k3: "unsent (sock ?s3)" using k(1) q1(1) by (simp add: unsent_def ws_open_def)
  let ?e = "encodings_bytes (offered dep (qualityLevel s) (compressionLevel s))"
  obtain q2 where q2: "length q2 = length (sQ (sock s))"
    "sendEncodings ?s3 = (Inr (), ?s3\<lparr>sock := (sock ?s3)\<lparr>sQ := q2, sQlen := 0, ws_sent := ws_sent (sock ?s3) @ [?e]\<rparr>\<rparr>)"
    using tell_writes [OF writes_encodings, of ?s3 "offered dep (qualityLevel s) (compressionLevel s)"] k3 k(2) l(3) q1(1)
      length_offered [of dep "qualityLevel s" "compressionLevel s"] by (auto simp: sendEncodings_tell)
  let ?s4 = "?s3\<lparr>sock := (sock ?s3)\<lparr>sQ := q2, sQlen := 0, ws_sent := ws_sent (sock ?s3) @ [?e]\<rparr>\<rparr>"
  have k4: "unsent (sock ?s4)" using k(1) q2(1) by (simp add: unsent_def ws_open_def)
  obtain q3 where q3: "length q3 = length (sQ (sock s))"
    "tell (fbUpdateRequest False 0 0 w h) ?s4 = (Inr (), ?s4\<lparr>sock := (sock ?s4)\<lparr>sQ := q3, sQlen := 0, ws_sent := ws_sent (sock ?s4) @ [request_bytes w h]\<rparr>\<rparr>)"
    using tell_writes [OF writes_request k4, of w h] k(2) l(2) q2(1) by auto
  let ?sd = "?s1\<lparr>fbW := w, fbH := h, disp := d\<rparr>"
  have g: "(if \<not> viewOnly s then on_kb grab else ret ()) ?sd = (Inr (), ?sd\<lparr>kb := K\<rparr>)"
    by (simp add: grab_run ret_def K_def)
  let ?s5 = "?s4\<lparr>sock := (sock ?s4)\<lparr>sQ := q3, sQlen := 0, ws_sent := ws_sent (sock ?s4) @ [request_bytes w h]\<rparr>\<rparr>"
  have n: "setDesktopName name s = (Inr (), ?s1)"
    by (simp add: setDesktopName_def dispatch_def thenx_def bindx_def modify_def)
  have c: "updateConnectionState env Connected ?s5 =
      (Inr (), ?s5\<lparr>rfbConnectionState := Connected, events := events s @ [EvDesktopName name, EvConnect]\<rparr>)"
    using s by (simp add: updateConnectionState_def change_state_def transition_ok_def thenx_def bindx_def gets_def dispatch_def modify_def)
  note run = thenx_run [of "setDesktopName name", OF n] thenx_run [of "rfb_resize w h", OF d]
    thenx_run [of "if \<not> viewOnly s then on_kb grab else ret ()", OF g] thenx_run [of "tell (pixelFormat dep True)", OF q1(2)]
    thenx_run [of sendEncodings, OF q2(2)] thenx_run [of "tell (fbUpdateRequest False 0 0 w h)", OF q3(2)]
    thenx_run [of "updateConnectionState env Connected", OF c]
  note run' = run [simplified]
  show ?thesis
    using q3(1)
    by (intro exI [of _ d] exI [of _ q3])
      (simp add: server_init_done_def run run' bindx_gets thenx_modify dep [symmetric] K_def [symmetric] ret_def)
qed

text \<open>Reading the message. Its parts lie one behind the other.\<close>

lemma server_init_parts:
  assumes "length format = 16"
  shows "length (server_init w h format nm) = 24 + length nm"
    "shift_value 2 (server_init w h format nm) = w mod 2 ^ 16"
    "shift_value 2 (drop 2 (server_init w h format nm)) = h mod 2 ^ 16"
    "shift_value 4 (drop 20 (server_init w h format nm)) = toSigned32bit (int (length nm))"
    "drop 24 (server_init w h format nm) = nm"
proof -
  show "length (server_init w h format nm) = 24 + length nm" using assms by (simp add: server_init_def)
  show "shift_value 2 (server_init w h format nm) = w mod 2 ^ 16" by (simp add: server_init_def shift_value_be16)
  have d: "drop 2 (server_init w h format nm) = be16 h @ format @ be32 (int (length nm)) @ nm"
    "drop 20 (server_init w h format nm) = be32 (int (length nm)) @ nm"
    using assms by (simp_all add: server_init_def)
  show "shift_value 2 (drop 2 (server_init w h format nm)) = h mod 2 ^ 16" unfolding d(1) by (rule shift_value_be16)
  show "shift_value 4 (drop 20 (server_init w h format nm)) = toSigned32bit (int (length nm))"
    unfolding d(2) by (rule shift_value_be32)
  show "drop 24 (server_init w h format nm) = nm" using assms by (simp add: server_init_def)
qed

lemma reads_server_init:
  assumes t: "rq_inv (sock t)" "unread (sock t) = server_init w h format nm" and i: "length format = 16"
    and nm: "0 < length nm" "length nm \<le> 4096" "decodeUTF8 (units (str_of_bytes nm)) True = Inr name"
    and w: "0 \<le> w" "w < 2 ^ 16" "0 \<le> h" "h < 2 ^ 16" and tight: "\<not> rfbTightVNC t"
  shows "negotiateServerInit env t = server_init_done env w h name (skip (24 + length nm) t)"
proof -
  note p = server_init_parts [OF i, of w h nm]
  have l: "length (unread (sock t)) = 24 + length nm" unfolding t(2) by (rule p(1))
  have b: "skip_bytes 16 = on_sock (modify (rQskipBytes 16))" by (simp add: skip_bytes_def)
  have sk: "thenx (skip_bytes 16) n (skip k t) = n (skip (k + 16) t)" for n k
    by (simp add: b thenx_sock modify_def skip_def skip_skip)
  have wt: "wait_else m g n (skip k t) = n (skip k t)" if "m + int k \<le> 24 + int (length nm)" "k \<le> 24 + length nm" for m g n k
    using that rq_inv_skip [OF t(1), of k] unread_skip [OF t(1), of k] l
    by (simp add: wait_else_def bindx_sock rQwait_def skip_def rQlen_unread)
  have n: "shift_value 4 (drop 20 (unread (sock t))) = int (length nm)"
    unfolding t(2) p(4) using nm(2) by (simp add: toSigned32bit_nonneg)
  have str: "bindx (on_sock (rQshiftStr (int (length nm)))) f (skip 24 t) = f (str_of_bytes nm) (skip (24 + length nm) t)" for f
  proof -
    have "unread (rQskipBytes 24 (sock t)) = nm" using unread_skip [OF t(1), of 24] l p(5) t(2) by simp
    then show ?thesis
      using rQshiftStr_short [of "rQskipBytes 24 (sock t)" "length nm"] rq_inv_skip [OF t(1), of 24] l nm(1,2)
      by (simp add: bindx_sock skip_def skip_skip)
  qed
  have p3: "shift_value 2 (drop (Suc (Suc 0)) (server_init w h format nm)) = h mod 2 ^ 16"
    by (metis p(3) numeral_2_eq_2)
  have "negotiateServerInit env t = negotiateServerInit env (skip 0 t)" by (simp add: dq.adv_0)
  also have "\<dots> = server_init_done env w h name (skip (24 + length nm) t)"
    using w tight
    by (simp add: negotiateServerInit_def wt shift16_step [OF t(1)] shift32_step [OF t(1)] l sk n str)
      (simp add: lift_result_def bindx_def nm(3) gets_def skip_def t(2) p p3)
  finally show ?thesis .
qed

text \<open>C5. The start of the session. Any server (not of the Tight security type, whose message goes on) that has accepted
  the client and describes its framebuffer, of any size and with any name of 1 to 4096 bytes, in one message, finds the session connected: the page is told the name and the
  connection, in this order; the size is kept and the keyboard is grabbed unless the session is view only;
  and exactly three messages are sent, the pixel format (24 bits, or 8 for the one server that cannot do
  better), the encodings with the chosen levels of quality and compression, and the request for all of the
  framebuffer. Nothing of the message stays in the queue.\<close>

theorem server_init_connects:
  assumes s: "rfbConnectionState s = Connecting" "rfbInitState s = ServerInitialisation" "\<not> rfbTightVNC s"
      "\<not> enabledContinuousUpdates s" "\<not> disconnTimer s"
    and k: "clear_sock (sock s)" "80 \<le> sQbufferSize (sock s)" "24 + length nm \<le> length (rQ (sock s))"
    and d: "length format = 16" "0 < length nm" "length nm \<le> 4096" "decodeUTF8 (units (str_of_bytes nm)) True = Inr name"
    and w: "0 \<le> w" "w < 2 ^ 16" "0 \<le> h" "h < 2 ^ 16"
    and t: "t = inputs env [SocketData (server_init w h format nm)] s"
    and dep: "dep = (if name = units ''Intel(r) AMT KVM'' then 8 else 24)"
  shows "rfbConnectionState t = Connected \<and> fbW t = w \<and> fbH t = h \<and> fbName t = name \<and>
    events t = events s @ [EvDesktopName name, EvConnect] \<and>
    kb t = (if viewOnly s then kb s else grab (kb s)) \<and>
    ws_sent (sock t) = ws_sent (sock s) @
      [format_bytes dep, encodings_bytes (offered dep (qualityLevel s) (compressionLevel s)), request_bytes w h] \<and>
    clear_sock (sock t)"
proof -
  let ?d = "server_init w h format nm"
  let ?n = "24 + length nm"
  note ld = server_init_parts(1) [OF d(1), of w h nm]
  let ?l = "s\<lparr>sock := loaded ?d (sock s)\<rparr>"
  have k': "length ?d \<le> length (rQ (sock s))" using k(3) ld by simp
  note q = loaded_queue [OF k(1) k']
  have r: "negotiateServerInit env ?l = server_init_done env w h name (skip ?n ?l)"
    using q d w s by (intro reads_server_init) simp_all
  let ?e = "[format_bytes dep, encodings_bytes (offered dep (qualityLevel s) (compressionLevel s)), request_bytes w h]"
  have u: "unsent (sock (skip ?n ?l))" using k(1) by (simp add: unsent_def loaded_def rQskipBytes_def clear_sock_def ws_open_def)
  obtain dd qq where dq: "length qq = length (sQ (sock s))"
    "server_init_done env w h name (skip ?n ?l) = (Inr True, (skip ?n ?l)\<lparr>fbName := name,
      events := events s @ [EvDesktopName name, EvConnect], fbW := w, fbH := h, disp := dd,
      kb := (if viewOnly s then kb s else grab (kb s)), fbDepth := dep, rfbConnectionState := Connected,
      sock := (sock (skip ?n ?l))\<lparr>sQ := qq, sQlen := 0, ws_sent := ws_sent (sock s) @ ?e\<rparr>\<rparr>)"
    using started [OF _ _ _ u _ dep, of env w h] s k(2)
    by (auto simp: skip_def loaded_def rQskipBytes_def cong: if_cong)
  define t' where "t' = (skip ?n ?l)\<lparr>fbName := name,
      events := events s @ [EvDesktopName name, EvConnect], fbW := w, fbH := h, disp := dd,
      kb := (if viewOnly s then kb s else grab (kb s)), fbDepth := dep, rfbConnectionState := Connected,
      sock := (sock (skip ?n ?l))\<lparr>sQ := qq, sQlen := 0, ws_sent := ws_sent (sock s) @ ?e\<rparr>\<rparr>"
  have m: "init_message env ?l = (Inr True, t')"
    using s(2) r dq(2) by (simp add: init_message_def init_fuel_def numeral_3_eq_3 bindx_gets t'_def)
  have e: "rQi (sock t') = rQlen' (sock t')" using k(1) ld by (simp add: t'_def loaded_def rQskipBytes_def clear_sock_def)
  have "t = t'\<lparr>sock := (sock t')\<lparr>rQlen' := 0, rQi := 0\<rparr>\<rparr>"
    using receive_init [OF s(1) k(1) _ k' m e] ld by (simp add: t)
  then show ?thesis
    using k(1) dq(1) by (simp add: t'_def clear_sock_def loaded_def rQskipBytes_def ws_open_def)
qed

text \<open>A session on small buffers, and a framebuffer of 1024 by 768 called "x".\<close>

definition roomy_sock :: websock where
  "roomy_sock = small_sock\<lparr>sQ := replicate 128 0, sQbufferSize := 128\<rparr>"

definition accepted :: rfb where
  "accepted = greeted\<lparr>rfbInitState := ServerInitialisation, sock := roomy_sock\<rparr>"

theorem server_init_connects_witness:
  "let t = inputs plain_env [SocketData (server_init 1024 768 (replicate 16 0) [120])] accepted in
    rfbConnectionState t = Connected \<and> fbW t = 1024 \<and> fbH t = 768 \<and> fbName t = [120] \<and>
    events t = [EvDesktopName [120], EvConnect] \<and> length (ws_sent (sock t)) = 3"
proof -
  let ?t = "inputs plain_env [SocketData (server_init 1024 768 (replicate 16 0) [120])] accepted"
  have n: "decodeUTF8 (units (str_of_bytes [120])) True = Inr [120]"
    by (simp add: decodeUTF8_def units_def str_of_bytes_def utf16_def)
  have g: "sock accepted = roomy_sock" by (simp add: accepted_def)
  have a: "rfbConnectionState accepted = Connecting" "rfbInitState accepted = ServerInitialisation" "\<not> rfbTightVNC accepted"
    "\<not> enabledContinuousUpdates accepted" "\<not> disconnTimer accepted" "events accepted = []"
    by (simp_all add: accepted_def greeted_def new_rfb_def)
  have k: "ws_sent (sock accepted) = []" "80 \<le> sQbufferSize (sock accepted)" "24 + length [120 :: byte] \<le> length (rQ (sock accepted))"
    by (simp_all add: g roomy_sock_def small_sock_def new_websock_def)
  have c: "clear_sock (sock accepted)"
    by (simp add: g clear_sock_def roomy_sock_def small_sock_def new_websock_def ws_open_def MAX_RQ_GROW_SIZE_def)
  have "rfbConnectionState ?t = Connected \<and> fbW ?t = 1024 \<and> fbH ?t = 768 \<and> fbName ?t = [120] \<and>
    events ?t = events accepted @ [EvDesktopName [120], EvConnect] \<and>
    kb ?t = (if viewOnly accepted then kb accepted else grab (kb accepted)) \<and>
    ws_sent (sock ?t) = ws_sent (sock accepted) @ [format_bytes 24,
      encodings_bytes (offered 24 (qualityLevel accepted) (compressionLevel accepted)), request_bytes 1024 768] \<and>
    clear_sock (sock ?t)"
    by (rule server_init_connects [OF a(1-5) c k(2,3) _ _ _ n _ _ _ _ HOL.refl]) (simp_all add: units_def)
  then show ?thesis by (simp add: Let_def a k del: inputs.simps)
qed

end
