(* ===== verification/Session_Refused.thy ===== *)
theory Session_Refused
  imports Session_Start
begin

text \<open>
  The other end of the handshake: a server that refuses the client, with its reason.
\<close>

definition refusal :: "int \<Rightarrow> byte list \<Rightarrow> byte list" where
  "refusal status reason = be32 status @ be32 (int (length reason)) @ reason"

lemma refusal_parts:
  "length (refusal status reason) = 8 + length reason"
  "shift_value 4 (refusal status reason) = toSigned32bit status"
  "shift_value 4 (drop 4 (refusal status reason)) = toSigned32bit (int (length reason))"
  "drop 8 (refusal status reason) = reason"
proof -
  have d: "drop 4 (refusal status reason) = be32 (int (length reason)) @ reason"
    by (simp add: refusal_def)
  show "length (refusal status reason) = 8 + length reason" by (simp add: refusal_def)
  show "shift_value 4 (refusal status reason) = toSigned32bit status" unfolding refusal_def by (rule shift_value_be32)
  show "shift_value 4 (drop 4 (refusal status reason)) = toSigned32bit (int (length reason))"
    unfolding d by (rule shift_value_be32)
  show "drop 8 (refusal status reason) = reason" by (simp add: refusal_def)
qed

lemma ws_close_reads: "rQi (ws_close t) = rQi t" "rQlen' (ws_close t) = rQlen' t"
  by (simp_all add: ws_close_def split: option.split)

text \<open>The end of a session that fails while it is connecting.\<close>

lemma failed:
  assumes "rfbConnectionState s = Connecting"
  shows "\<exists>t. failing s = (Inr False, t) \<and> rfbConnectionState t = Disconnected \<and>
    events t = events s @ [EvDisconnect False] \<and> ws_sent (sock t) = ws_sent (sock s) \<and> \<not> ws_open (sock t) \<and>
    rQi (sock t) = rQi (sock s) \<and> rQlen' (sock t) = rQlen' (sock s)"
  using assms ws_close_closed [of "sock s"]
  by (auto simp: failing_def fail_def thenx_modify thenx_run [of to_disconnecting, OF to_disconnecting_eq]
      thenx_run [of to_disconnected, OF to_disconnected_eq] transition_ok_def ret_def ws_open_def off_def ws_close_reads)

lemma skip_init: "rfbInitState (skip n s) = rfbInitState s"
  by (simp add: skip_def)

lemma reads_refusal:
  assumes s: "rq_inv (sock s)" "unread (sock s) = refusal status reason" "rfbInitState s = SecurityResult" "38 \<le> rfbVersion s"
    and r: "toSigned32bit status \<noteq> 0" "0 < length reason" "length reason \<le> 4096"
  shows "init_message env s = failing ((skip (8 + length reason) s)\<lparr>rfbInitState := SecurityReason,
    securityStatus := toSigned32bit status,
    events := events s @ [EvSecurityFailure (toSigned32bit status) (str_of_bytes reason)]\<rparr>)"
proof -
  let ?u = "s\<lparr>rfbInitState := SecurityReason, securityStatus := toSigned32bit status\<rparr>"
  have l: "length (unread (sock s)) = 8 + length reason" unfolding s(2) by (rule refusal_parts)
  have u: "rq_inv (sock ?u)" "unread (sock ?u) = refusal status reason" using s by simp_all
  have n: "toSigned32bit (int (length reason)) = int (length reason)"
    using r(3) by (intro toSigned32bit_nonneg) simp_all
  have str: "bindx (on_sock (rQshiftStr (int (length reason)))) f (skip 8 ?u) = f (str_of_bytes reason) (skip (8 + length reason) ?u)" for f
  proof -
    have "unread (rQskipBytes 8 (sock s)) = reason" using unread_skip [OF s(1), of 8] l refusal_parts(4) s(2) by simp
    then show ?thesis
      using rQshiftStr_short [of "rQskipBytes 8 (sock s)" "length reason"] rq_inv_skip [OF s(1), of 8] l r(2,3)
      by (simp add: bindx_sock skip_def skip_skip)
  qed
  have wt: "wait_else m g k' (skip k t) = k' (skip k t)"
    if "rq_inv (sock t)" "unread (sock t) = refusal status reason" "m + int k \<le> 8 + int (length reason)"
      "k \<le> 8 + length reason" for m g k' k t
    using that rq_inv_skip [OF that(1), of k] unread_skip [OF that(1), of k] refusal_parts(1)
    by (simp add: wait_else_def bindx_sock rQwait_def skip_def rQlen_unread)
  have two: "initMsg stop 2 env (skip 4 ?u) = failing ((skip (8 + length reason) ?u)\<lparr>
    events := events s @ [EvSecurityFailure (toSigned32bit status) (str_of_bytes reason)]\<rparr>)" for stop
    using r(2) l
    by (simp add: numeral_2_eq_2 bindx_gets skip_init handleSecurityReason_def wt [OF u] shift32_step [OF u(1)] Let_def s(2)
        refusal_parts(3) n str dispatch_def thenx_modify)
      (simp add: skip_def)
  have eq: "s\<lparr>sock := t, rfbInitState := SecurityReason, securityStatus := x\<rparr> =
      s\<lparr>rfbInitState := SecurityReason, securityStatus := x, sock := t\<rparr>" for t x
    by (cases s) simp
  have one: "initMsg stop (Suc k) env s = initMsg stop k env (skip 4 ?u)" for stop k
    using s(3,4) r(1) l
    by (simp add: bindx_gets handleSecurityResult_def security_reason_def wait_else_def first_steps [OF s(1)] s(2) refusal_parts(2)
        thenx_modify)
      (simp add: skip_def bindx_gets thenx_modify eq)
  have "init_message env s = initMsg (throw no_return) (Suc 2) env s"
    by (simp add: init_message_def init_fuel_def numeral_3_eq_3 numeral_2_eq_2)
  then show ?thesis unfolding one two by (simp add: skip_def eq)
qed

text \<open>C15. A refusal. A server of version 3.8 that rejects the client after the authentication, with any reason of 1 to 4096
  bytes in the same message, ends the session: the page is told the status and the reason, and then that the connection ended without
  having been asked to; the channel is closed and nothing more is sent.\<close>

theorem refusal_reported:
  assumes s: "rfbConnectionState s = Connecting" "rfbInitState s = SecurityResult" "38 \<le> rfbVersion s"
    and k: "clear_sock (sock s)" "8 + length reason \<le> length (rQ (sock s))"
    and r: "toSigned32bit status \<noteq> 0" "0 < length reason" "length reason \<le> 4096"
    and t: "t = inputs env [SocketData (refusal status reason)] s"
  shows "rfbConnectionState t = Disconnected \<and>
    events t = events s @ [EvSecurityFailure (toSigned32bit status) (str_of_bytes reason), EvDisconnect False] \<and>
    ws_sent (sock t) = ws_sent (sock s) \<and> \<not> ws_open (sock t)"
proof -
  let ?d = "refusal status reason"
  let ?l = "s\<lparr>sock := loaded ?d (sock s)\<rparr>"
  have k': "length ?d \<le> length (rQ (sock s))" using k(2) by (simp add: refusal_parts(1))
  note q = loaded_queue [OF k(1) k']
  let ?f = "(skip (8 + length reason) ?l)\<lparr>rfbInitState := SecurityReason, securityStatus := toSigned32bit status,
    events := events s @ [EvSecurityFailure (toSigned32bit status) (str_of_bytes reason)]\<rparr>"
  have i: "init_message env ?l = failing ?f"
    using reads_refusal [of ?l status reason env] q s r by simp
  have "rfbConnectionState ?f = Connecting" using s(1) by (simp add: skip_def)
  from failed [OF this] obtain t' where f: "failing ?f = (Inr False, t')" "rfbConnectionState t' = Disconnected"
    "events t' = events ?f @ [EvDisconnect False]" "ws_sent (sock t') = ws_sent (sock ?f)" "\<not> ws_open (sock t')"
    "rQi (sock t') = rQi (sock ?f)" "rQlen' (sock t') = rQlen' (sock ?f)"
    by blast
  have e: "rQi (sock t') = rQlen' (sock t')"
    using k(1) by (simp add: f(6,7) loaded_def rQskipBytes_def clear_sock_def refusal_parts(1))
  have "t = t'\<lparr>sock := (sock t')\<lparr>rQlen' := 0, rQi := 0\<rparr>\<rparr>"
    using receive_init [OF s(1) k(1) _ k' i [unfolded f(1)] e] by (simp add: t refusal_parts(1))
  then show ?thesis
    using f(2-5) by (simp add: loaded_def rQskipBytes_def ws_open_def)
qed

text \<open>"No", with status 2.\<close>

definition judged :: rfb where
  "judged = greeted\<lparr>rfbInitState := SecurityResult, rfbVersion := 38\<rparr>"

theorem refusal_reported_witness:
  "events (inputs plain_env [SocketData (refusal 2 (ascii ''No''))] judged) = [EvSecurityFailure 2 ''No'', EvDisconnect False]"
proof -
  have two: "toSigned32bit 2 = 2" by (simp add: toSigned32bit_nonneg)
  show ?thesis
    using refusal_reported [of judged "ascii ''No''" 2, OF _ _ _ _ _ _ _ _ HOL.refl]
    by (simp add: str_of_ascii two judged_def greeted_def new_rfb_def clear_sock_def small_sock_def new_websock_def ws_open_def
        MAX_RQ_GROW_SIZE_def)
qed

end
