(* ===== verification/Mouse_Moves.thy ===== *)
theory Mouse_Moves
  imports Session_Handshake
begin

text \<open>
  Moves of the mouse are thinned out: at most one is sent in each interval, the others wait for a timer.
  What is sent last is always where the mouse is.
\<close>

text \<open>A session that sends what the mouse does.\<close>

definition pointing :: "rfb \<Rightarrow> bool" where
  "pointing s \<longleftrightarrow> rfbConnectionState s = Connected \<and> \<not> viewOnly s \<and> \<not> viewportDragging s \<and>
     (mouseMoveTimer s \<longleftrightarrow> mouseMovePending s)"

definition point_at :: "rat \<Rightarrow> rat \<Rightarrow> rfb \<Rightarrow> websock \<Rightarrow> websock" where
  "point_at x y s = pointerEvent (absX x (disp s)) (absY y (disp s)) (mouseButtonMask s)"

lemma send_now_eq:
  "rfbConnectionState s = Connected \<Longrightarrow> \<not> viewOnly s \<Longrightarrow> send_now x y s = (Inr (), s\<lparr>sock := point_at x y s (sock s)\<rparr>)"
  by (simp add: send_now_def sendMouse_def bindx_gets tell_def on_sock_def zoom_def modify_def point_at_def)

lemma move_eq:
  assumes "pointing s"
  shows "handleMouseMove env now x y s = (Inr (),
    if mouseMoveTimer s then s\<lparr>mousePos := (x, y)\<rparr>
    else if now - mouseLastMoveTime s > MOUSE_MOVE_DELAY
    then s\<lparr>mousePos := (x, y), sock := point_at x y s (sock s), mouseLastMoveTime := now\<rparr>
    else s\<lparr>mousePos := (x, y), mouseMoveTimer := True, mouseMovePending := True\<rparr>)"
  using assms send_now_eq [of "s\<lparr>mousePos := (x, y)\<rparr>" x y]
  by (simp add: handleMouseMove_def pointing_def bindx_gets thenx_modify thenx_ok ret_def modify_def point_at_def)

lemma delayed_eq:
  assumes "pointing s"
  shows "handleDelayedMouseMove now s = (Inr (), s\<lparr>mouseMoveTimer := False, mouseMovePending := False,
    sock := point_at (fst (mousePos s)) (snd (mousePos s)) s (sock s), mouseLastMoveTime := now\<rparr>)"
  using assms send_now_eq [of "s\<lparr>mouseMoveTimer := False, mouseMovePending := False\<rparr>"]
  by (cases "mousePos s")
    (simp add: handleDelayedMouseMove_def pointing_def bindx_gets thenx_modify thenx_ok modify_def point_at_def)

text \<open>Moves, each with its time and position.\<close>

primrec mouse_moves :: "rfb_env \<Rightarrow> (int \<times> rat \<times> rat) list \<Rightarrow> rfb \<Rightarrow> rfb" where
  "mouse_moves env [] s = s"
| "mouse_moves env (m # ms) s = (case m of (now, x, y) \<Rightarrow> mouse_moves env ms (snd (handleMouseMove env now x y s)))"

lemma mouse_moves_append: "mouse_moves env (ms @ ns) s = mouse_moves env ns (mouse_moves env ms s)"
  by (induction ms arbitrary: s) (auto split: prod.split)

lemma moves_pointing:
  "pointing s \<Longrightarrow> pointing (mouse_moves env ms s) \<and> disp (mouse_moves env ms s) = disp s \<and>
    mouseButtonMask (mouse_moves env ms s) = mouseButtonMask s"
proof (induction ms rule: rev_induct)
  case (snoc m ms)
  obtain now x y where m: "m = (now, x, y)" by (cases m)
  from snoc show ?case
    by (auto simp: mouse_moves_append m move_eq) (simp_all add: pointing_def)
qed simp

lemma moves_wait:
  "pointing s \<Longrightarrow> \<forall>(now, x, y) \<in> set ms. now - mouseLastMoveTime s \<le> MOUSE_MOVE_DELAY \<Longrightarrow>
    sock (mouse_moves env ms s) = sock s \<and> mouseLastMoveTime (mouse_moves env ms s) = mouseLastMoveTime s \<and>
    (ms \<noteq> [] \<longrightarrow> mouseMovePending (mouse_moves env ms s))"
proof (induction ms rule: rev_induct)
  case (snoc m ms)
  obtain now x y where m: "m = (now, x, y)" by (cases m)
  have p: "pointing (mouse_moves env ms s)" using moves_pointing [OF snoc.prems(1)] by blast
  from snoc m p show ?case
    by (auto simp: mouse_moves_append m move_eq) (simp_all add: pointing_def)
qed simp

text \<open>C8. In a connected session that is neither view only nor dragging the viewport, whatever moves the mouse makes,
  however close together: when the timer that is waiting afterwards, if
  there is one, has fired, the last pointer event written to the socket is for the last position of the
  mouse, with the buttons that are held. And while no move comes later than \<open>MOUSE_MOVE_DELAY\<close> after the
  last one that was sent, nothing is written at all: they wait for the timer, which is running.\<close>

theorem last_mouse_position_sent:
  assumes "pointing s" and t: "t = mouse_moves env (ms @ [(now, x, y)]) s"
  shows "(\<exists>u. sock (snd ((if mouseMovePending t then handleDelayedMouseMove later else ret ()) t)) =
      pointerEvent (absX x (disp s)) (absY y (disp s)) (mouseButtonMask s) u)
    \<and> ((\<forall>(n, _) \<in> set (ms @ [(now, x, y)]). n - mouseLastMoveTime s \<le> MOUSE_MOVE_DELAY) \<longrightarrow>
      sock t = sock s \<and> mouseMovePending t)"
proof -
  let ?u = "mouse_moves env ms s"
  have u: "pointing ?u" "disp ?u = disp s" "mouseButtonMask ?u = mouseButtonMask s"
    using moves_pointing [OF assms(1)] by blast+
  have p: "pointing t" "disp t = disp s" "mouseButtonMask t = mouseButtonMask s"
    unfolding t using moves_pointing [OF assms(1)] by blast+
  have m: "mousePos t = (x, y)" and w: "mouseMovePending t \<or> sock t = point_at x y ?u (sock ?u)"
    unfolding t using u(1) by (simp_all add: mouse_moves_append move_eq) (simp add: pointing_def)
  have "\<exists>v. sock (snd ((if mouseMovePending t then handleDelayedMouseMove later else ret ()) t)) = point_at x y s v"
  proof (cases "mouseMovePending t")
    case True
    then show ?thesis using delayed_eq [OF p(1), of later] m p by (auto simp: point_at_def)
  next
    case False
    then show ?thesis using w u by (auto simp: ret_def point_at_def)
  qed
  moreover have "(\<forall>(n, _) \<in> set (ms @ [(now, x, y)]). n - mouseLastMoveTime s \<le> MOUSE_MOVE_DELAY) \<longrightarrow>
      sock t = sock s \<and> mouseMovePending t"
    unfolding t using moves_wait [OF assms(1), of "ms @ [(now, x, y)]" env] by auto
  ultimately show ?thesis by (simp add: point_at_def)
qed

definition pointed :: rfb where
  "pointed = greeted\<lparr>rfbConnectionState := Connected\<rparr>"

theorem last_mouse_position_sent_witness:
  "let t = mouse_moves plain_env [(5, 1, 1), (9, 3, 4)] pointed in sock t = sock pointed \<and> mouseMovePending t"
  using last_mouse_position_sent [of pointed _ plain_env "[(5, 1, 1)]" 9 3 4]
  by (simp add: pointed_def greeted_def new_rfb_def pointing_def MOUSE_MOVE_DELAY_def)

end
