(* ===== verification/Raw_Pixels.thy ===== *)
theory Raw_Pixels
  imports Rect_Streams
begin







end
