(* ===== verification/Deflate_Stream.thy ===== *)
theory Deflate_Stream
  imports JS_Prelude
begin

text \<open>
  \<^verbatim>\<open>core/deflator.js\<close>: the wrapper of the stream that compresses what the session provides for the clipboard.
  zlib is vendored code: a stream is the list of the calls made on it, and \<open>zdeflate\<close> says what the last of
  them returned (its code, how much of the input is left, and the bytes it put in the output). The loop over
  the chunks ends only if the stream makes progress.
\<close>

datatype dcall = DInput "byte list" | DFlush | DNoInput

type_synonym deflator = "dcall list"

type_synonym zdeflate = "dcall list \<Rightarrow> int \<times> nat \<times> byte list"

definition new_deflator :: deflator where
  "new_deflator = []"

definition deflate_error :: js_error where
  "deflate_error = JsError ''zlib deflate failed''"

text \<open>The chunks after the first; \<open>acc\<close> holds those read so far.\<close>

partial_function (option) deflate_loop ::
    "zdeflate \<Rightarrow> byte list \<Rightarrow> deflator \<Rightarrow> ((js_error + byte list) \<times> deflator) option" where
  "deflate_loop z acc d =
     (let d = d @ [DFlush] in
      case z d of (lastRet, avail_in, chunk) \<Rightarrow>
        if lastRet < 0 then Some (Inl deflate_error, d)
        else if avail_in > 0 then deflate_loop z (acc @ chunk) d
        else Some (Inr (acc @ chunk), d))"

definition deflate :: "zdeflate \<Rightarrow> byte list \<Rightarrow> deflator \<Rightarrow> ((js_error + byte list) \<times> deflator) option" where
  "deflate z inData d =
     (let d = d @ [DInput inData, DFlush] in
      case z d of (lastRet, avail_in, outData) \<Rightarrow>
        if lastRet < 0 then Some (Inl deflate_error, d)
        else map_option (\<lambda>(r, d). (r, case r of Inl _ \<Rightarrow> d | Inr _ \<Rightarrow> d @ [DNoInput]))
          (if avail_in > 0 then deflate_loop z outData d else Some (Inr outData, d)))"

section \<open>The chunks\<close>

text \<open>What the stream puts out over \<open>n\<close> calls.\<close>

primrec flushed :: "zdeflate \<Rightarrow> nat \<Rightarrow> deflator \<Rightarrow> byte list" where
  "flushed z 0 d = []"
| "flushed z (Suc n) d = snd (snd (z (d @ [DFlush]))) @ flushed z n (d @ [DFlush])"

text \<open>\<open>n\<close> calls that succeed and leave input, except the last one.\<close>

primrec drains :: "zdeflate \<Rightarrow> nat \<Rightarrow> deflator \<Rightarrow> bool" where
  "drains z 0 d = False"
| "drains z (Suc n) d = (case z (d @ [DFlush]) of (r, left, _) \<Rightarrow>
     0 \<le> r \<and> (if left = 0 then n = 0 else drains z n (d @ [DFlush])))"

lemma deflate_loop_drains:
  "drains z n d \<Longrightarrow> deflate_loop z acc d = Some (Inr (acc @ flushed z n d), d @ replicate n DFlush)"
proof (induction n arbitrary: acc d)
  case (Suc n)
  obtain r left chunk where z: "z (d @ [DFlush]) = (r, left, chunk)" by (cases "z (d @ [DFlush])") auto
  with Suc.prems have r: "0 \<le> r" by simp
  show ?case
  proof (cases "left = 0")
    case True
    with Suc.prems z have "n = 0" by simp
    with True z r show ?thesis by (subst deflate_loop.simps) simp
  next
    case False
    with Suc.prems z have "drains z n (d @ [DFlush])" by simp
    from Suc.IH [OF this, of "acc @ chunk"] False z r show ?thesis
      by (subst deflate_loop.simps) simp
  qed
qed simp

lemma deflate_drains:
  assumes "drains z n (d @ [DInput inData])"
  shows "deflate z inData d = Some (Inr (flushed z n (d @ [DInput inData])), d @ [DInput inData] @ replicate n DFlush @ [DNoInput])"
proof -
  obtain m where m: "n = Suc m" using assms by (cases n) auto
  obtain r left out where z: "z (d @ [DInput inData, DFlush]) = (r, left, out)"
    by (cases "z (d @ [DInput inData, DFlush])") auto
  with assms m have r: "0 \<le> r" by simp
  show ?thesis
  proof (cases "left = 0")
    case True
    with assms m z have "m = 0" by simp
    with True z r m show ?thesis by (simp add: deflate_def)
  next
    case False
    with assms m z have "drains z m (d @ [DInput inData, DFlush])" by simp
    from deflate_loop_drains [OF this, of out] False z r m show ?thesis by (simp add: deflate_def)
  qed
qed

text \<open>A stream whose calls succeed, and take some of the input or all of it, drains it, so that \<open>deflate\<close> returns
  everything it puts out.\<close>

definition input_left :: "zdeflate \<Rightarrow> deflator \<Rightarrow> nat" where
  "input_left z d = fst (snd (z d))"

lemma progress_drains:
  assumes "\<And>d. 0 \<le> fst (z (d @ [DFlush]))"
    and "\<And>d. input_left z (d @ [DFlush]) \<noteq> 0 \<Longrightarrow> input_left z (d @ [DFlush]) < input_left z d"
  shows "\<exists>n. drains z n d"
proof (induction "input_left z d" arbitrary: d rule: less_induct)
  case less
  obtain r left out where z: "z (d @ [DFlush]) = (r, left, out)" by (cases "z (d @ [DFlush])") auto
  show ?case
  proof (cases "left = 0")
    case True
    then have "drains z 1 d" using assms(1) [of d] z by simp
    then show ?thesis by blast
  next
    case False
    then have "input_left z (d @ [DFlush]) < input_left z d" using assms(2) [of d] z by (simp add: input_left_def)
    from less [OF this] obtain n where "drains z n (d @ [DFlush])" by blast
    then have "drains z (Suc n) d" using assms(1) [of d] z False by simp
    then show ?thesis by blast
  qed
qed

lemma deflate_returns:
  assumes "\<And>d. 0 \<le> fst (z (d @ [DFlush]))"
    and "\<And>d. input_left z (d @ [DFlush]) \<noteq> 0 \<Longrightarrow> input_left z (d @ [DFlush]) < input_left z d"
  shows "\<exists>n. deflate z inData d = Some (Inr (flushed z n (d @ [DInput inData])), d @ [DInput inData] @ replicate n DFlush @ [DNoInput])"
proof -
  obtain n where "drains z n (d @ [DInput inData])" using progress_drains [of z, OF assms] by blast
  from deflate_drains [OF this] show ?thesis by blast
qed

end
