(* ===== verification/Mouse_Capture.thy ===== *)
theory Mouse_Capture
  imports JS_Prelude
begin

text \<open>
  \<^verbatim>\<open>core/util/events.js\<close>: the emulation of \<open>setCapture\<close>. While an element has the mouse, an invisible element
  covers the page and the listeners of the window send every mouse event on to it; a button release ends
  the capture. Elements are numbers; \<open>cap_log\<close> records which element was given which event.
\<close>

datatype mouse_type = MouseMove | MouseUp | ContextMenu

record capture =
  captureElement :: "nat option"
  elementForUnflushed :: "nat option"
  captureRecursion :: bool
  proxy_exists :: bool
  proxy_shown :: bool
  window_listens :: bool
  observed :: "nat option"
  cap_log :: "(nat \<times> mouse_type) list"

definition no_capture :: capture where
  "no_capture = \<lparr>captureElement = None, elementForUnflushed = None, captureRecursion = False, proxy_exists = False,
     proxy_shown = False, window_listens = False, observed = None, cap_log = []\<rparr>"

text \<open>Without the browser's own \<open>releaseCapture\<close>.\<close>

definition releaseCapture :: "capture \<Rightarrow> capture" where
  "releaseCapture c = (case captureElement c of
     None \<Rightarrow> c
   | Some e \<Rightarrow> c\<lparr>elementForUnflushed := Some e, captureElement := None, observed := None, proxy_shown := False,
       window_listens := False\<rparr>)"

definition setCapture :: "nat \<Rightarrow> capture \<Rightarrow> capture" where
  "setCapture target c = (releaseCapture c)\<lparr>proxy_exists := True, captureElement := Some target, observed := Some target,
     proxy_shown := True, window_listens := True\<rparr>"

text \<open>A copy of the event goes to the element; its handlers are \<open>h\<close>, which may use the capture themselves.
  Before anything was captured there is no element, and the call on it throws.\<close>

definition captureProxy :: "(mouse_type \<Rightarrow> capture \<Rightarrow> capture) \<Rightarrow> mouse_type \<Rightarrow> (capture, unit) exec" where
  "captureProxy h ty = bindx (gets id) (\<lambda>c. if captureRecursion c then ret () else
     thenx (modify (\<lambda>c. c\<lparr>captureRecursion := True\<rparr>))
    (bindx (gets id) (\<lambda>c. case (case captureElement c of Some e \<Rightarrow> Some e | None \<Rightarrow> elementForUnflushed c) of
       None \<Rightarrow> throw TypeError
     | Some e \<Rightarrow>
         thenx (modify (\<lambda>c. h ty (c\<lparr>cap_log := cap_log c @ [(e, ty)]\<rparr>)))
        (thenx (modify (\<lambda>c. c\<lparr>captureRecursion := False\<rparr>))
          (modify (\<lambda>c. if ty = MouseUp then releaseCapture c else c))))))"

section \<open>The state of the capture\<close>

definition capture_ok :: "capture \<Rightarrow> bool" where
  "capture_ok c \<longleftrightarrow> proxy_shown c = (captureElement c \<noteq> None) \<and> window_listens c = (captureElement c \<noteq> None) \<and>
     observed c = captureElement c \<and>
     (captureElement c \<noteq> None \<or> elementForUnflushed c \<noteq> None \<longrightarrow> proxy_exists c)"

text \<open>What the page and the handlers of the captured element may do.\<close>

inductive capture_step :: "capture \<Rightarrow> capture \<Rightarrow> bool" where
  set: "capture_step c (setCapture e c)"
| release: "capture_step c (releaseCapture c)"

inductive_simps capture_step_simps: "capture_step c d"

lemma uncapture_ok: "capture_ok c \<Longrightarrow> capture_ok (releaseCapture c)"
  by (auto simp: capture_ok_def releaseCapture_def split: option.split)

lemma capture_set_ok: "capture_ok c \<Longrightarrow> capture_ok (setCapture e c)"
  using uncapture_ok [of c] by (simp add: capture_ok_def setCapture_def)

lemma steps_ok: "capture_step\<^sup>*\<^sup>* c d \<Longrightarrow> capture_ok c \<Longrightarrow> capture_ok d"
  by (induction rule: rtranclp_induct) (auto simp: capture_step_simps uncapture_ok capture_set_ok)

lemma release_quiet [simp]: "captureRecursion (releaseCapture c) = captureRecursion c" "cap_log (releaseCapture c) = cap_log c"
  by (simp_all add: releaseCapture_def split: option.split)

lemma step_quiet: "capture_step c d \<Longrightarrow> captureRecursion d = captureRecursion c \<and> cap_log d = cap_log c"
  by (auto simp: capture_step_simps setCapture_def)

lemma steps_quiet: "capture_step\<^sup>*\<^sup>* c d \<Longrightarrow> captureRecursion d = captureRecursion c \<and> cap_log d = cap_log c"
  by (induction rule: rtranclp_induct) (auto dest: step_quiet)

text \<open>An event that reaches the proxy of a consistent capture, outside another one, is given to the element
  that has the mouse, or had it last; it leaves the capture consistent, the guard down, and after a button
  release nothing captured.\<close>

lemma proxy_delivers:
  assumes "capture_ok c" "\<not> captureRecursion c" "captureElement c \<noteq> None \<or> elementForUnflushed c \<noteq> None"
    and h: "\<And>ty c. capture_step\<^sup>*\<^sup>* c (h ty c)"
  shows "\<exists>c'. captureProxy h ty c = (Inr (), c') \<and> capture_ok c' \<and> \<not> captureRecursion c' \<and>
    cap_log c' = cap_log c @ [(case captureElement c of Some e \<Rightarrow> e | None \<Rightarrow> the (elementForUnflushed c), ty)] \<and>
    (ty = MouseUp \<longrightarrow> captureElement c' = None \<and> \<not> proxy_shown c')"
proof -
  let ?e = "case captureElement c of Some e \<Rightarrow> e | None \<Rightarrow> the (elementForUnflushed c)"
  let ?d = "c\<lparr>captureRecursion := True, cap_log := cap_log c @ [(?e, ty)]\<rparr>"
  let ?u = "(h ty ?d)\<lparr>captureRecursion := False\<rparr>"
  have e: "(case captureElement c of Some e \<Rightarrow> Some e
      | None \<Rightarrow> elementForUnflushed (id (c\<lparr>captureRecursion := True\<rparr>))) = Some ?e"
    using assms(3) by (auto split: option.split)
  have p: "captureProxy h ty c = (Inr (), if ty = MouseUp then releaseCapture ?u else ?u)"
    using assms(2) by (simp add: captureProxy_def bindx_gets e thenx_modify run_modify)
  have "capture_ok ?d" using assms(1) by (simp add: capture_ok_def)
  with steps_ok [OF h] have "capture_ok (h ty ?d)" by blast
  then have u: "capture_ok ?u" by (simp add: capture_ok_def)
  have l: "cap_log ?u = cap_log c @ [(?e, ty)]" using steps_quiet [OF h [of ?d ty]] by simp
  have n: "captureElement (releaseCapture ?u) = None" by (simp add: releaseCapture_def split: option.split)
  define v where "v = ?u"
  have r: "capture_ok (releaseCapture v)" "\<not> proxy_shown (releaseCapture v)" "captureElement (releaseCapture v) = None"
    using uncapture_ok [OF u] n by (simp_all add: v_def [symmetric] capture_ok_def)
  have v: "capture_ok v" "\<not> captureRecursion v" "cap_log v = cap_log c @ [(?e, ty)]" using u l by (simp_all add: v_def)
  show ?thesis
    using p [folded v_def] r v by (cases "ty = MouseUp") simp_all
qed

end
