(* ===== verification/Event_Target.thy ===== *)
theory Event_Target
  imports JS_Prelude
begin

text \<open>
  \<^verbatim>\<open>core/util/eventtarget.js\<close>: the registry of listeners of the client object. The listeners of a type are a
  \<open>Set\<close> of the language, which is a list whose deleted entries stay as holes until the end: \<open>forEach\<close> walks
  over the positions and reads the list anew at each, so a listener deleted before its turn is not called
  and one added meanwhile is. What listeners do is an argument (\<open>call\<close>): a computation on the object, which
  may register and unregister listeners, throw, and prevent the default action of the event.
\<close>

section \<open>Sets of the language\<close>

type_synonym 'cb js_set = "'cb option list"

definition set_add :: "'cb \<Rightarrow> 'cb js_set \<Rightarrow> 'cb js_set" where
  "set_add c s = (if Some c \<in> set s then s else s @ [Some c])"

definition set_delete :: "'cb \<Rightarrow> 'cb js_set \<Rightarrow> 'cb js_set" where
  "set_delete c s = map (\<lambda>e. if e = Some c then None else e) s"

section \<open>The registry\<close>

record 'cb event_target =
  listeners :: "string \<Rightarrow> 'cb js_set option"

definition no_listeners :: "'cb event_target" where
  "no_listeners = \<lparr>listeners = (\<lambda>_. None)\<rparr>"

definition addEventListener :: "string \<Rightarrow> 'cb \<Rightarrow> ('cb, 'z) event_target_scheme \<Rightarrow> ('cb, 'z) event_target_scheme" where
  "addEventListener ty cb t =
     (let t = (if listeners t ty = None then t\<lparr>listeners := (listeners t)(ty \<mapsto> [])\<rparr> else t)
      in t\<lparr>listeners := (listeners t)(ty \<mapsto> set_add cb (the (listeners t ty)))\<rparr>)"

definition removeEventListener :: "string \<Rightarrow> 'cb \<Rightarrow> ('cb, 'z) event_target_scheme \<Rightarrow> ('cb, 'z) event_target_scheme" where
  "removeEventListener ty cb t = (case listeners t ty of
     None \<Rightarrow> t
   | Some s \<Rightarrow> t\<lparr>listeners := (listeners t)(ty \<mapsto> set_delete cb s)\<rparr>)"

text \<open>The walk over the listeners from position \<open>k\<close>; \<open>p\<close> tells whether the default action has been prevented. A
  listener that throws ends it.\<close>

partial_function (option) forEach ::
    "('cb \<Rightarrow> bool \<Rightarrow> (('cb, 'z) event_target_scheme, bool) exec) \<Rightarrow> string \<Rightarrow> nat \<Rightarrow> bool \<Rightarrow>
     ('cb, 'z) event_target_scheme \<Rightarrow> ((js_error + bool) \<times> ('cb, 'z) event_target_scheme) option" where
  "forEach call ty k p t =
     (let s = the (listeners t ty) in
      if length s \<le> k then Some (Inr p, t)
      else case s ! k of
          None \<Rightarrow> forEach call ty (Suc k) p t
        | Some cb \<Rightarrow> (case call cb p t of
              (Inl e, t') \<Rightarrow> Some (Inl e, t')
            | (Inr p', t') \<Rightarrow> forEach call ty (Suc k) p' t'))"

definition dispatchEvent ::
    "('cb \<Rightarrow> bool \<Rightarrow> (('cb, 'z) event_target_scheme, bool) exec) \<Rightarrow> string \<Rightarrow> bool \<Rightarrow>
     ('cb, 'z) event_target_scheme \<Rightarrow> ((js_error + bool) \<times> ('cb, 'z) event_target_scheme) option" where
  "dispatchEvent call ty p t =
     (if listeners t ty = None then Some (Inr True, t)
      else map_option (\<lambda>(r, t). (map_sum id Not r, t)) (forEach call ty 0 p t))"

section \<open>The contents of the registry\<close>

definition entries :: "'cb js_set \<Rightarrow> 'cb list" where
  "entries s = List.map_filter id s"

lemma entries_simps [simp]:
  "entries [] = []" "entries (None # s) = entries s" "entries (Some c # s) = c # entries s" "entries (s @ r) = entries s @ entries r"
  by (simp_all add: entries_def List.map_filter_def)

lemma set_entries: "c \<in> set (entries s) \<longleftrightarrow> Some c \<in> set s"
  by (induction s rule: list.induct) (auto simp: entries_def List.map_filter_def)

lemma entries_add: "entries (set_add c s) = (if c \<in> set (entries s) then entries s else entries s @ [c])"
  by (simp add: set_add_def set_entries)

lemma entries_delete: "entries (set_delete c s) = removeAll c (entries s)"
proof (induction s)
  case (Cons e s)
  then show ?case by (cases e) (auto simp: set_delete_def)
qed (simp add: set_delete_def)

text \<open>The listeners of a type in the order of their registration, each once.\<close>

definition registered :: "('cb, 'z) event_target_scheme \<Rightarrow> string \<Rightarrow> 'cb list" where
  "registered t ty = (case listeners t ty of None \<Rightarrow> [] | Some s \<Rightarrow> entries s)"

lemma registered_add: "registered (addEventListener ty cb t) ty' =
    (if ty' = ty \<and> cb \<notin> set (registered t ty) then registered t ty @ [cb] else registered t ty')"
  by (auto simp: registered_def addEventListener_def Let_def entries_add split: option.split)

lemma registered_remove: "registered (removeEventListener ty cb t) ty' =
    (if ty' = ty then removeAll cb (registered t ty) else registered t ty')"
  by (auto simp: registered_def removeEventListener_def entries_delete split: option.split)

definition registry_ok :: "('cb, 'z) event_target_scheme \<Rightarrow> bool" where
  "registry_ok t \<longleftrightarrow> (\<forall>ty. distinct (registered t ty))"

lemma registry_ok_add: "registry_ok t \<Longrightarrow> registry_ok (addEventListener ty cb t)"
  by (auto simp: registry_ok_def registered_add)

lemma registry_ok_remove: "registry_ok t \<Longrightarrow> registry_ok (removeEventListener ty cb t)"
  by (auto simp: registry_ok_def registered_remove distinct_removeAll)

section \<open>Dispatching\<close>

text \<open>A walk over a copy of the listeners that asks before each call whether it is still registered.\<close>

primrec notify ::
    "('cb \<Rightarrow> bool \<Rightarrow> (('cb, 'z) event_target_scheme, bool) exec) \<Rightarrow> string \<Rightarrow> 'cb list \<Rightarrow> bool \<Rightarrow>
     ('cb, 'z) event_target_scheme \<Rightarrow> (js_error + bool) \<times> ('cb, 'z) event_target_scheme" where
  "notify call ty [] p t = (Inr p, t)"
| "notify call ty (cb # cbs) p t =
     (if cb \<in> set (registered t ty) then (case call cb p t of
          (Inl e, t') \<Rightarrow> (Inl e, t')
        | (Inr p', t') \<Rightarrow> notify call ty cbs p' t')
      else notify call ty cbs p t)"

text \<open>Only deletions.\<close>

definition prunes :: "'cb js_set \<Rightarrow> 'cb js_set \<Rightarrow> bool" where
  "prunes s r \<longleftrightarrow> list_all2 (\<lambda>a b. b = a \<or> b = None) s r"

lemma prunes_refl: "prunes s s"
  by (simp add: prunes_def list_all2_same)

lemma prunes_trans: "prunes s r \<Longrightarrow> prunes r q \<Longrightarrow> prunes s q"
  unfolding prunes_def list_all2_conv_all_nth by metis

lemma prunes_delete: "prunes s (set_delete c s)"
  by (auto simp: prunes_def set_delete_def list_all2_conv_all_nth)

lemma prunes_nth: "prunes s r \<Longrightarrow> k < length s \<Longrightarrow> r ! k = s ! k \<or> r ! k = None"
  by (auto simp: prunes_def list_all2_conv_all_nth)

lemma prunes_length: "prunes s r \<Longrightarrow> length r = length s"
  by (simp add: prunes_def list_all2_lengthD)

lemma entries_distinct_nth:
  assumes "distinct (entries s)" "i < length s" "k < length s" "s ! i = Some c" "s ! k = Some c"
  shows "i = k"
  using assms
proof (induction s arbitrary: i k)
  case (Cons e s)
  have later: "c \<in> set (entries s)" if "j < length s" "s ! j = Some c" for j
    using that by (metis nth_mem set_entries)
  show ?case
    using Cons.prems Cons.IH [of "i - 1" "k - 1"] later [of "i - 1"] later [of "k - 1"]
    by (cases e; cases i; cases k) auto
qed simp

text \<open>An entry that was deleted is not elsewhere.\<close>

lemma pruned_gone:
  assumes "prunes s r" "distinct (entries s)" "k < length s" "s ! k = Some c" "r ! k = None"
  shows "c \<notin> set (entries r)"
proof
  assume "c \<in> set (entries r)"
  then obtain i where i: "i < length r" "r ! i = Some c" by (metis set_entries in_set_conv_nth)
  with assms(1) have "s ! i = Some c" "i < length s" using prunes_nth [of s r i] prunes_length [of s r] by auto
  from entries_distinct_nth [OF assms(2) this(2) assms(3) this(1) assms(4)] i assms(5) show False by simp
qed

lemma forEach_notify:
  assumes call: "\<And>cb p t s. listeners t ty = Some s \<Longrightarrow> \<exists>r. listeners (snd (call cb p t)) ty = Some r \<and> prunes s r"
    and d: "distinct (entries s)"
  shows "listeners t ty = Some r \<Longrightarrow> prunes s r \<Longrightarrow> k \<le> length s \<Longrightarrow>
    forEach call ty k p t = Some (notify call ty (entries (drop k s)) p t)"
proof (induction "length s - k" arbitrary: k p t r)
  case 0
  then have "length r \<le> k" using prunes_length [of s r] by simp
  with 0 show ?case by (subst forEach.simps) simp
next
  case (Suc n)
  then have k: "k < length s" "k < length r" using prunes_length [of s r] by auto
  have nx: "n = length s - Suc k" "Suc k \<le> length s" using Suc.hyps(2) by auto
  have s: "drop k s = s ! k # drop (Suc k) s" using k by (simp add: Cons_nth_drop_Suc)
  have reg: "registered t ty = entries r" using Suc.prems by (simp add: registered_def)
  note IH = Suc.hyps(1) [OF nx(1) _ _ nx(2)]
  show ?case
  proof (cases "r ! k")
    case None
    have "notify call ty (entries (drop k s)) p t = notify call ty (entries (drop (Suc k) s)) p t"
      using pruned_gone [OF Suc.prems(2) d k(1) _ None] by (cases "s ! k") (simp_all add: s reg)
    then show ?thesis
      using IH [OF Suc.prems(1,2)] None k Suc.prems(1) by (subst forEach.simps) simp
  next
    case (Some cb)
    then have e: "s ! k = Some cb" using prunes_nth [OF Suc.prems(2) k(1)] by simp
    have m: "cb \<in> set (entries r)" using Some k(2) by (metis nth_mem set_entries)
    obtain q t' where c: "call cb p t = (q, t')" by (cases "call cb p t")
    obtain r' where r': "listeners t' ty = Some r'" "prunes r r'" using call [OF Suc.prems(1), of cb p] c by auto
    note go = IH [OF r'(1) prunes_trans [OF Suc.prems(2) r'(2)]]
    show ?thesis
      using Some Suc.prems(1) k go by (subst forEach.simps) (simp add: s e reg m c split: sum.split)
  qed
qed

text \<open>C20. Dispatching an event. When listeners may unregister themselves and others of the type while the event
  is dispatched, but register none, the dispatch returns, and is the same as going over the listeners
  registered at the start, in the order of their registration, calling those that are still registered when
  their turn comes, up to one that throws; the result tells whether no listener prevented the default
  action.\<close>

theorem dispatch_to_registered:
  assumes "registry_ok t"
    and "\<And>cb p t s. listeners t ty = Some s \<Longrightarrow> \<exists>r. listeners (snd (call cb p t)) ty = Some r \<and> prunes s r"
  shows "dispatchEvent call ty p t = Some (if listeners t ty = None then (Inr True, t)
    else map_prod (map_sum id Not) id (notify call ty (registered t ty) p t))"
proof (cases "listeners t ty")
  case (Some s)
  with assms(1) have "distinct (entries s)" by (auto simp: registry_ok_def registered_def dest: spec [of _ ty])
  from forEach_notify [where call = call, OF assms(2) this Some prunes_refl, of 0 p] Some
  show ?thesis by (simp add: dispatchEvent_def registered_def map_prod_def)
qed (simp add: dispatchEvent_def)

text \<open>Three listeners, of which the first unregisters itself and the second.\<close>

record noted = "nat event_target" +
  calls :: "nat list"

definition once :: "nat \<Rightarrow> bool \<Rightarrow> (noted, bool) exec" where
  "once cb p t =
     (let t = t\<lparr>calls := calls t @ [cb]\<rparr>
      in (Inr p, if cb = 1 then removeEventListener ''connect'' 2 (removeEventListener ''connect'' 1 t) else t))"

definition three :: noted where
  "three = fold (addEventListener ''connect'') [1, 2, 3] \<lparr>listeners = (\<lambda>_. None), calls = []\<rparr>"

theorem dispatch_to_registered_witness:
  "map_option (\<lambda>(r, t). (r, calls t)) (dispatchEvent once ''connect'' False three) = Some (Inr True, [1, 3])"
proof -
  have ok: "registry_ok three"
    unfolding three_def fold.simps comp_apply id_apply
    by (intro registry_ok_add) (simp add: registry_ok_def registered_def)
  have p: "\<exists>r. listeners (snd (once cb p t)) ''connect'' = Some r \<and> prunes s r" if "listeners t ''connect'' = Some s" for cb p t s
    using that by (auto simp: once_def Let_def removeEventListener_def prunes_refl intro: prunes_trans [OF prunes_delete prunes_delete])
  have d: "dispatchEvent once ''connect'' False three = Some (if listeners three ''connect'' = None then (Inr True, three)
      else map_prod (map_sum id Not) id (notify once ''connect'' (registered three ''connect'') False three))"
    by (rule dispatch_to_registered) (use ok p in blast)+
  show ?thesis
    unfolding d by (simp add: three_def addEventListener_def set_add_def once_def removeEventListener_def set_delete_def registered_def)
qed

text \<open>A listener that unregisters itself and registers itself again while it is called is called for ever: its
  new entry is behind the one that is being visited.\<close>

definition again :: "nat \<Rightarrow> bool \<Rightarrow> (nat event_target, bool) exec" where
  "again cb p t = (Inr p, addEventListener ''connect'' cb (removeEventListener ''connect'' cb t))"

lemma again_step:
  assumes "listeners t ''connect'' = Some (replicate k None @ [Some cb])"
  shows "listeners (snd (again cb p t)) ''connect'' = Some (replicate (Suc k) None @ [Some cb])"
proof -
  have "set_delete cb (replicate k None @ [Some cb]) = replicate (Suc k) None"
    by (simp add: set_delete_def replicate_append_same)
  then show ?thesis
    using assms by (simp add: again_def removeEventListener_def addEventListener_def set_add_def)
qed

lemma again_never_returns:
  assumes "listeners t ''connect'' = Some (replicate k None @ [Some cb])"
  shows "forEach again ''connect'' k p t = None"
proof -
  let ?P = "\<lambda>call ty k p t y. \<forall>cb. call = again \<longrightarrow> ty = ''connect'' \<longrightarrow>
    listeners t ty \<noteq> Some (replicate k None @ [Some cb])"
  have "?P call ty k p t y"
    if "forEach call ty k p t = Some y" for call :: "nat \<Rightarrow> bool \<Rightarrow> (nat event_target, bool) exec" and ty k p t y
  proof (rule forEach.raw_induct [where P = ?P, OF _ that], intro allI impI notI)
    fix f :: "(nat \<Rightarrow> bool \<Rightarrow> (nat event_target, bool) exec) \<Rightarrow> string \<Rightarrow> nat \<Rightarrow> bool \<Rightarrow> nat event_target \<Rightarrow>
        ((js_error + bool) \<times> nat event_target) option"
      and call :: "nat \<Rightarrow> bool \<Rightarrow> (nat event_target, bool) exec" and ty k p t y cb
    assume IH: "\<And>call ty k p t y. f call ty k p t = Some y \<Longrightarrow> ?P call ty k p t y"
      and f: "(let s = the (listeners t ty) in
        if length s \<le> k then Some (Inr p, t)
        else case s ! k of None \<Rightarrow> f call ty (Suc k) p t
          | Some cb \<Rightarrow> (case call cb p t of (Inl e, t') \<Rightarrow> Some (Inl e, t') | (Inr p', t') \<Rightarrow> f call ty (Suc k) p' t')) = Some y"
      and c: "call = again" "ty = ''connect''" and l: "listeners t ty = Some (replicate k None @ [Some cb])"
    have "f again ''connect'' (Suc k) p (snd (again cb p t)) = Some y"
      using f l c by (simp add: nth_append again_def)
    with IH again_step l c show False by blast
  qed
  with assms show ?thesis by (cases "forEach again ''connect'' k p t") blast+
qed

end
