(* ===== verification/Log_Levels.thy ===== *)
theory Log_Levels
  imports JS_Prelude
begin

text \<open>
  \<^verbatim>\<open>core/util/logging.js\<close>: the level of the log and the four functions that write it, each either bound to the
  console or doing nothing. The cases of the switch fall through to the next.
\<close>

record logging =
  logLevel :: string
  Debug :: bool
  Info :: bool
  Warn :: bool
  Error :: bool

text \<open>The state before the module's own call.\<close>

definition unset_logging :: logging where
  "unset_logging = \<lparr>logLevel = ''warn'', Debug = False, Info = False, Warn = False, Error = False\<rparr>"

definition initLogging :: "bool \<Rightarrow> string option \<Rightarrow> (logging, unit) exec" where
  "initLogging console level s =
     (let s = (case level of None \<Rightarrow> s | Some l \<Rightarrow> s\<lparr>logLevel := l\<rparr>);
          level = logLevel s;
          s = s\<lparr>Debug := False, Info := False, Warn := False, Error := False\<rparr>
      in if \<not> console then (Inr (), s)
         else if level = ''debug'' then (Inr (), s\<lparr>Debug := True, Info := True, Warn := True, Error := True\<rparr>)
         else if level = ''info'' then (Inr (), s\<lparr>Info := True, Warn := True, Error := True\<rparr>)
         else if level = ''warn'' then (Inr (), s\<lparr>Warn := True, Error := True\<rparr>)
         else if level = ''error'' then (Inr (), s\<lparr>Error := True\<rparr>)
         else if level = ''none'' then (Inr (), s)
         else (Inl (JsError (''invalid logging type '' @ [CHR 0x27] @ level @ [CHR 0x27])), s))"

definition getLogging :: "logging \<Rightarrow> string" where
  "getLogging s = logLevel s"

text \<open>The module after it was loaded, and after calls of which some may have thrown.\<close>

definition logging_calls :: "bool \<Rightarrow> string option list \<Rightarrow> logging" where
  "logging_calls console ls = fold (\<lambda>l s. snd (initLogging console l s)) (None # ls) unset_logging"

section \<open>What is logged\<close>

definition severities :: "string list" where
  "severities = [''debug'', ''info'', ''warn'', ''error'', ''none'']"

text \<open>The place of a level among them; an unknown one is behind them all.\<close>

primrec place :: "string list \<Rightarrow> string \<Rightarrow> nat" where
  "place [] l = 0"
| "place (x # xs) l = (if l = x then 0 else Suc (place xs l))"

definition sinks :: "logging \<Rightarrow> bool list" where
  "sinks s = [Debug s, Info s, Warn s, Error s]"

lemma initLogging_sinks:
  "sinks (snd (initLogging console l s)) =
    map (\<lambda>k. console \<and> place severities (getLogging (snd (initLogging console l s))) \<le> k) [0, 1, 2, 3]"
  by (cases l) (simp_all add: initLogging_def Let_def sinks_def severities_def getLogging_def)

lemma initLogging_throws:
  "isl (fst (initLogging console l s)) \<longleftrightarrow>
    console \<and> getLogging (snd (initLogging console l s)) \<notin> set severities"
  by (cases l) (auto simp: initLogging_def Let_def severities_def getLogging_def)

text \<open>The functions that write the log agree with the level that \<open>getLogging\<close> gives, after every sequence of
  calls: on a page with a console, each writes exactly if the level is its own or a lower one, and none
  without. A level that is not one of the five is kept although the call throws: from then on nothing is
  written, not even errors, and every call without a level throws.\<close>

theorem log_matches_level:
  "sinks (logging_calls console ls) =
     map (\<lambda>k. console \<and> place severities (getLogging (logging_calls console ls)) \<le> k) [0, 1, 2, 3] \<and>
   (getLogging (logging_calls console ls) \<in> set severities \<or>
     sinks (logging_calls console ls) = [False, False, False, False] \<and>
     (isl (fst (initLogging console None (logging_calls console ls))) \<longleftrightarrow> console))"
proof -
  have snoc: "\<exists>l s. logging_calls console ls = snd (initLogging console l s)"
    by (cases ls rule: rev_cases) (auto simp: logging_calls_def)
  then have m: "sinks (logging_calls console ls) =
     map (\<lambda>k. console \<and> place severities (getLogging (logging_calls console ls)) \<le> k) [0, 1, 2, 3]"
    using initLogging_sinks by metis
  have none: "getLogging (snd (initLogging console None s)) = getLogging s" for s
    by (simp add: initLogging_def Let_def getLogging_def)
  have far: "place severities l = 5" if "l \<notin> set severities" for l
    using that by (simp add: severities_def)
  show ?thesis
    using m far by (auto simp: initLogging_throws none)
qed

end
