(* ===== verification/Browser_Features.thy ===== *)
theory Browser_Features
  imports Key_Input Complex_Main
begin

text \<open>
  \<^verbatim>\<open>core/util/browser.js\<close>: what the client wants to know about the browser, as functions of what the browser
  answers: \<open>browser\<close> holds the values read, and for the two trials (a cursor from an image, the width of a
  scrollbar) what the browser gave back or threw.
\<close>

record browser =
  ontouchstart_in_document :: bool
  document_ontouchstart :: bool
  maxTouchPoints :: int
  msMaxTouchPoints :: int
  devicePixelRatio :: "rat option"
  cursor_style :: "js_error + js_string"
  scroll_widths :: "js_error + int \<times> int"
  nav_platform :: js_string
  userAgent :: js_string
  toUpperCase :: "nat \<Rightarrow> nat"

text \<open>The first touch that the window sees settles the question; later ones are not listened to.\<close>

record touch_state =
  isTouchDevice :: bool
  first_touch_listens :: bool

definition touch_detection :: "browser \<Rightarrow> touch_state" where
  "touch_detection b = \<lparr>isTouchDevice = ontouchstart_in_document b \<or> document_ontouchstart b \<or>
     maxTouchPoints b > 0 \<or> msMaxTouchPoints b > 0, first_touch_listens = True\<rparr>"

definition onFirstTouch :: "touch_state \<Rightarrow> touch_state" where
  "onFirstTouch t = (if first_touch_listens t then t\<lparr>isTouchDevice := True, first_touch_listens := False\<rparr> else t)"

definition dragThreshold :: "browser \<Rightarrow> rat" where
  "dragThreshold b = 10 * (case devicePixelRatio b of None \<Rightarrow> 1 | Some r \<Rightarrow> if r = 0 then 1 else r)"

text \<open>\<open>indexOf\<close>, and the search for a regular expression that is a word of ASCII letters, ignoring case.\<close>

fun indexOf :: "'a list \<Rightarrow> 'a list \<Rightarrow> int" where
  "indexOf s [] = (if s = [] then 0 else -1)"
| "indexOf s (x # xs) = (if take (length s) (x # xs) = s then 0
     else let i = indexOf s xs in if i = -1 then -1 else 1 + i)"

definition fold_case :: "nat \<Rightarrow> nat" where
  "fold_case c = (if 97 \<le> c \<and> c \<le> 122 then c - 32 else c)"

definition exec_i :: "string \<Rightarrow> js_string \<Rightarrow> bool" where
  "exec_i w s = (indexOf (map fold_case (units w)) (map fold_case s) \<noteq> -1)"

definition supportsCursorURIs :: "browser \<Rightarrow> bool" where
  "supportsCursorURIs b = (case cursor_style b of Inl _ \<Rightarrow> False | Inr c \<Rightarrow> indexOf (units ''url'') c = 0)"

definition hasScrollbarGutter :: "browser \<Rightarrow> bool" where
  "hasScrollbarGutter b = (case scroll_widths b of Inl _ \<Rightarrow> True | Inr (outer, inner) \<Rightarrow> outer - inner \<noteq> 0)"

definition nav_isMac :: "browser \<Rightarrow> bool" where
  "nav_isMac b = exec_i ''mac'' (nav_platform b)"

definition nav_isWindows :: "browser \<Rightarrow> bool" where
  "nav_isWindows b = exec_i ''win'' (nav_platform b)"

definition nav_isIOS :: "browser \<Rightarrow> bool" where
  "nav_isIOS b = (exec_i ''ipad'' (nav_platform b) \<or> exec_i ''iphone'' (nav_platform b) \<or> exec_i ''ipod'' (nav_platform b))"

definition isSafari :: "browser \<Rightarrow> bool" where
  "isSafari b = (indexOf (units ''Safari'') (userAgent b) \<noteq> -1 \<and> indexOf (units ''Chrome'') (userAgent b) = -1)"

definition isFirefox :: "browser \<Rightarrow> bool" where
  "isFirefox b = exec_i ''firefox'' (userAgent b)"

text \<open>The platform of the keyboard.\<close>

definition platform_of :: "browser \<Rightarrow> platform" where
  "platform_of b = \<lparr>isMac = nav_isMac b, isIOS = nav_isIOS b, isWindows = nav_isWindows b, to_upper = toUpperCase b\<rparr>"

section \<open>Searching\<close>

lemma indexOf_cases: "indexOf s xs = -1 \<or> 0 \<le> indexOf s xs"
  by (induction s xs rule: indexOf.induct) (auto simp: Let_def)

lemma indexOf_found: "indexOf s xs \<noteq> -1 \<longleftrightarrow> (\<exists>a b. xs = a @ s @ b)"
proof (induction s xs rule: indexOf.induct)
  case (2 s x xs)
  have t: "take (length s) (x # xs) = s \<longleftrightarrow> (\<exists>b. x # xs = s @ b)"
    by (metis append_eq_conv_conj append_take_drop_id)
  have c: "(\<exists>a b. x # xs = a @ s @ b) \<longleftrightarrow> (\<exists>b. x # xs = s @ b) \<or> (\<exists>a b. xs = a @ s @ b)"
    by (metis append_Cons append_Nil list.exhaust list.inject)
  show ?case
    using 2 indexOf_cases [of s xs] unfolding c t [symmetric]
    by (cases "take (length s) (x # xs) = s") (auto simp: Let_def simp del: take_Cons_numeral)
qed auto

text \<open>On what browsers report for their platform, at most one of the
  three is found.\<close>

definition known_platforms :: "(string \<times> bool \<times> bool \<times> bool) list" where
  "known_platforms =
     [(''MacIntel'', True, False, False), (''Win32'', False, False, True), (''iPhone'', False, True, False),
      (''iPad'', False, True, False), (''Linux x86_64'', False, False, False), (''Android'', False, False, False)]"

lemma known_platforms_found:
  "list_all (\<lambda>(p, m, i, w). exec_i ''mac'' (units p) = m \<and>
     (exec_i ''ipad'' (units p) \<or> exec_i ''iphone'' (units p) \<or> exec_i ''ipod'' (units p)) = i \<and>
     exec_i ''win'' (units p) = w) known_platforms"
  by code_simp

end
