(* ===== verification/Keysym_Names.thy ===== *)
theory Keysym_Names
  imports Key_Input
begin







section \<open>The constants and the table of named keys\<close>














section \<open>What the keyboard can send\<close>





section \<open>What the keyboard reports\<close>


















text \<open>The steps of the keyboard, with events whose key is a string of 16-bit code units, as every string is.\<close>

inductive typed :: "platform \<Rightarrow> keyboard \<Rightarrow> bool" for pf where
  typed_new: "typed pf new_keyboard"
| typed_down: "typed pf k \<Longrightarrow> kb_grabbed k \<Longrightarrow> \<forall>c \<in> set (getKey pf e). c < 2 ^ 16 \<Longrightarrow> typed pf (handleKeyDown pf e k)"
| typed_up: "typed pf k \<Longrightarrow> kb_grabbed k \<Longrightarrow> typed pf (handleKeyUp pf e k)"
| typed_blur: "typed pf k \<Longrightarrow> kb_grabbed k \<Longrightarrow> typed pf (allKeysUp k)"
| typed_timer: "typed pf k \<Longrightarrow> altGrTimeout k \<Longrightarrow> typed pf (handleAltGrTimeout k)"
| typed_grab: "typed pf k \<Longrightarrow> typed pf (grab k)"
| typed_ungrab: "typed pf k \<Longrightarrow> typed pf (ungrab k)"

lemma typed_reachable: "typed pf k \<Longrightarrow> (kb_step pf)\<^sup>*\<^sup>* new_keyboard k"
  by (induction rule: typed.induct) (auto intro: rtranclp.rtrancl_into_rtrancl kb_step.intros)











end
