(* ===== verification/Adler_Checksum.thy ===== *)
theory Adler_Checksum
  imports JS_Prelude
begin

text \<open>
  \<^verbatim>\<open>pako/lib/zlib/adler32.js\<close>, the checksum behind every compressed stream. Its two sums are kept as 32-bit
  numbers and reduced once for every 2000 bytes. An element outside the array is \<open>undefined\<close>, which a sum
  turns into \<open>NaN\<close> and the following operator into zero.
\<close>

definition js_remainder :: "int \<Rightarrow> int \<Rightarrow> int" where
  "js_remainder a b = sgn a * (\<bar>a\<bar> mod \<bar>b\<bar>)"

definition adler_byte :: "byte list \<Rightarrow> nat \<Rightarrow> int \<times> int \<Rightarrow> int \<times> int" where
  "adler_byte buf pos = (\<lambda>(s1, s2).
     let s1 = (if pos < length buf then toSigned32bit (s1 + uint (buf ! pos)) else 0);
         s2 = toSigned32bit (s2 + s1)
     in (s1, s2))"

text \<open>The inner loop, \<open>n\<close> turns from a position.\<close>

primrec adler_block :: "byte list \<Rightarrow> nat \<Rightarrow> nat \<Rightarrow> int \<times> int \<Rightarrow> int \<times> int" where
  "adler_block buf pos 0 s = s"
| "adler_block buf pos (Suc n) s = adler_block buf (Suc pos) n (adler_byte buf pos s)"

function adler_loop :: "byte list \<Rightarrow> nat \<Rightarrow> nat \<Rightarrow> int \<times> int \<Rightarrow> int \<times> int" where
  "adler_loop buf pos len s =
     (if len = 0 then s
      else let n = (if len > 2000 then 2000 else len); (s1, s2) = adler_block buf pos n s
           in adler_loop buf (pos + n) (len - n) (js_remainder s1 65521, js_remainder s2 65521))"
  by pat_completeness auto
termination by (relation "measure (\<lambda>(buf, pos, len, s). len)") auto

declare adler_loop.simps [simp del]

definition adler32 :: "int \<Rightarrow> byte list \<Rightarrow> nat \<Rightarrow> nat \<Rightarrow> int" where
  "adler32 adler buf len pos =
     (let s1 = js_or (js_and adler 0xffff) 0;
          s2 = js_or (js_and (js_shr adler 16) 0xffff) 0;
          (s1, s2) = adler_loop buf pos len (s1, s2)
      in js_or (js_or s1 (js_shl s2 16)) 0)"

section \<open>The sums\<close>

text \<open>The definition of the checksum: sums modulo 65521 that are reduced after every byte.\<close>

definition adler_add :: "byte \<Rightarrow> int \<times> int \<Rightarrow> int \<times> int" where
  "adler_add x = (\<lambda>(a, b). let a = (a + uint x) mod 65521 in (a, (b + a) mod 65521))"

definition pack :: "int \<times> int \<Rightarrow> int" where
  "pack = (\<lambda>(a, b). toSigned32bit (b * 2 ^ 16 + a))"

text \<open>The same sums without reduction.\<close>

definition plain_add :: "byte \<Rightarrow> int \<times> int \<Rightarrow> int \<times> int" where
  "plain_add x = (\<lambda>(a, b). (a + uint x, b + (a + uint x)))"

definition reduce :: "int \<times> int \<Rightarrow> int \<times> int" where
  "reduce = (\<lambda>(a, b). (a mod 65521, b mod 65521))"

lemma reduce_idem [simp]: "reduce (reduce s) = reduce s"
  by (simp add: reduce_def case_prod_beta)

lemma adler_add_reduce: "adler_add x (reduce s) = reduce (plain_add x s)"
proof (cases s)
  case (Pair a b)
  have "(a mod 65521 + uint x) mod 65521 = (a + uint x) mod 65521" by (rule mod_add_left_eq)
  moreover have "(b mod 65521 + (a + uint x) mod 65521) mod 65521 = (b + (a + uint x)) mod 65521" by (rule mod_add_eq)
  ultimately show ?thesis unfolding Pair adler_add_def reduce_def plain_add_def Let_def prod.case by metis
qed

lemma fold_reduce: "fold adler_add xs (reduce s) = reduce (fold plain_add xs s)"
  by (induction xs arbitrary: s) (simp_all add: adler_add_reduce)

text \<open>Over a block the sums stay below 31 bits, so that the operators do not change them.\<close>

definition small :: "nat \<Rightarrow> int \<times> int \<Rightarrow> bool" where
  "small k = (\<lambda>(a, b). 0 \<le> a \<and> a \<le> 65535 + int k * 255 \<and> 0 \<le> b \<and> b \<le> 65535 + int k * 575535)"

lemma small_step:
  assumes "small k s" "k < 2000" "pos < length buf"
  shows "adler_byte buf pos s = plain_add (buf ! pos) s \<and> small (Suc k) (plain_add (buf ! pos) s)"
proof (cases s)
  case (Pair a b)
  have x: "0 \<le> uint (buf ! pos)" "uint (buf ! pos) \<le> 255"
    using uint_byte_range [of "buf ! pos"] by linarith+
  have k: "int k \<le> 1999" using assms(2) by linarith
  have ab: "0 \<le> a" "a \<le> 65535 + int k * 255" "0 \<le> b" "b \<le> 65535 + int k * 575535"
    using assms(1) Pair by (simp_all add: small_def)
  have a': "0 \<le> a + uint (buf ! pos)" "a + uint (buf ! pos) \<le> 65535 + int (Suc k) * 255" "a + uint (buf ! pos) \<le> 575535"
    using ab x k by (simp_all add: algebra_simps)
  have b': "0 \<le> b + (a + uint (buf ! pos))" "b + (a + uint (buf ! pos)) \<le> 65535 + int (Suc k) * 575535"
    using ab a' by (simp_all add: algebra_simps)
  have "int (Suc k) * 575535 \<le> 2000 * 575535" using k by (intro mult_right_mono) simp_all
  with a' b' have r: "toSigned32bit (a + uint (buf ! pos)) = a + uint (buf ! pos)"
    "toSigned32bit (b + (a + uint (buf ! pos))) = b + (a + uint (buf ! pos))"
    by (auto intro!: toSigned32bit_nonneg)
  show ?thesis
    using assms(3) a' b' Pair by (simp add: adler_byte_def Let_def r plain_add_def small_def)
qed

lemma adler_block_plain:
  assumes "small k s" "k + n \<le> 2000" "pos + n \<le> length buf"
  shows "adler_block buf pos n s = fold plain_add (take n (drop pos buf)) s \<and>
    small (k + n) (fold plain_add (take n (drop pos buf)) s)"
  using assms
proof (induction n arbitrary: pos s k)
  case (Suc n)
  have d: "take (Suc n) (drop pos buf) = buf ! pos # take n (drop (Suc pos) buf)"
    using Suc.prems(3) by (simp add: Cons_nth_drop_Suc [symmetric])
  note st = small_step [OF Suc.prems(1), of pos buf]
  show ?case using Suc.prems Suc.IH [of "Suc k" _ "Suc pos"] st by (simp add: d)
qed simp

lemma small_bounds: "small k s \<Longrightarrow> k \<le> 2000 \<Longrightarrow> 0 \<le> fst s \<and> 0 \<le> snd s"
  by (auto simp: small_def)

lemma small_reduce: "small 0 (reduce s)"
proof -
  have "x mod 65521 \<le> 65535" for x :: int using pos_mod_bound [of 65521 x] by linarith
  then show ?thesis by (simp add: small_def reduce_def case_prod_beta)
qed

lemma js_remainder_nonneg: "0 \<le> a \<Longrightarrow> 0 < b \<Longrightarrow> js_remainder a b = a mod b"
  by (cases "a = 0") (simp_all add: js_remainder_def)

lemma adler_loop_fold:
  assumes "small 0 s" "pos + len \<le> length buf" "0 < len"
  shows "adler_loop buf pos len s = fold adler_add (take len (drop pos buf)) (reduce s)"
  using assms
proof (induction len arbitrary: pos s rule: less_induct)
  case (less len)
  define n where "n = (if len > 2000 then 2000 else len)"
  have n: "0 < n" "n \<le> 2000" "n \<le> len" using less.prems(3) by (auto simp: n_def)
  define t where "t = fold plain_add (take n (drop pos buf)) s"
  have b: "adler_block buf pos n s = t" "small n t"
    using adler_block_plain [OF less.prems(1), of n pos buf] n less.prems(2) by (simp_all add: t_def)
  have r: "(js_remainder (fst t) 65521, js_remainder (snd t) 65521) = reduce t"
    using small_bounds [OF b(2) n(2)] by (simp add: js_remainder_nonneg reduce_def case_prod_beta)
  have step: "adler_loop buf pos len s = adler_loop buf (pos + n) (len - n) (reduce t)"
    using less.prems(3) b(1) r by (subst adler_loop.simps) (simp add: n_def [symmetric] case_prod_beta)
  have split: "take len (drop pos buf) = take n (drop pos buf) @ take (len - n) (drop (pos + n) buf)"
    using n(3) take_add [of n "len - n" "drop pos buf"] by (simp add: add.commute)
  have t': "fold adler_add (take n (drop pos buf)) (reduce s) = reduce t"
    by (simp add: fold_reduce t_def)
  show ?case
  proof (cases "len = n")
    case True
    then show ?thesis using step split t' by (subst (asm) (2) adler_loop.simps) simp
  next
    case False
    with n less.IH [of "len - n" "reduce t" "pos + n"] less.prems(2) small_reduce [of t] show ?thesis
      by (simp add: step split t')
  qed
qed

section \<open>Packing\<close>

lemma js_or_0 [simp]: "js_or a 0 = toSigned32bit a"
  by (simp add: js_or_def toSigned32bit_def)

lemma toSigned_idem [simp]: "toSigned32bit (toSigned32bit a) = toSigned32bit a"
  by (simp add: toSigned32bit_def)

lemma signed_mod: "toSigned32bit x mod 2 ^ 16 = x mod 2 ^ 16"
proof -
  have "take_bit 16 (toSigned32bit x) = take_bit 16 x" by (simp add: toSigned32bit_def take_bit_signed_take_bit)
  then show ?thesis by (simp only: take_bit_eq_mod)
qed

lemma low_half: "js_and x 0xffff = x mod 2 ^ 16"
proof -
  have "toSigned32bit 65535 = mask 16" by (simp add: toSigned32bit_id mask_eq_exp_minus_1)
  then have "js_and x 65535 = take_bit 16 (toSigned32bit x)" by (simp add: js_and_def take_bit_eq_mask)
  then show ?thesis using signed_mod [of x] by (simp add: take_bit_eq_mod)
qed

lemma pack_or:
  assumes "0 \<le> a" "a < 2 ^ 16"
  shows "js_or (js_or a (js_shl b 16)) 0 = pack (a, b)"
proof -
  have a: "toSigned32bit a = a" using assms by (intro toSigned32bit_nonneg) simp_all
  have "\<not> bit (push_bit 16 b) k \<or> \<not> bit a k" for k
    using assms by (metis bit_push_bit_iff bit_take_bit_iff linorder_not_le take_bit_int_eq_self)
  then have "push_bit 16 b OR a = push_bit 16 b + a" by (intro disjunctive_add [symmetric]) blast
  moreover have "a OR toSigned32bit (push_bit 16 b) = toSigned32bit (push_bit 16 b OR a)"
    using a unfolding toSigned32bit_def
    by (intro bit_eqI) (metis bit_or_iff bit_signed_take_bit_iff)
  ultimately show ?thesis
    by (simp add: js_or_def js_shl_def a pack_def push_bit_eq_mult toSigned32bit_nonneg [of 0])
qed

lemma unpack:
  assumes "0 \<le> a" "a < 2 ^ 16" "0 \<le> b" "b < 2 ^ 16"
  shows "js_and (pack (a, b)) 0xffff = a" "js_and (js_shr (pack (a, b)) 16) 0xffff = b"
proof -
  show "js_and (pack (a, b)) 0xffff = a"
    using assms signed_mod [of "b * 2 ^ 16 + a"] by (simp add: low_half pack_def)
  have "toUnsigned32bit (toSigned32bit x) = toUnsigned32bit x" for x
    by (simp add: toSigned32bit_def toUnsigned32bit_def take_bit_signed_take_bit)
  moreover have "0 \<le> b * 2 ^ 16 + a" "b * 2 ^ 16 + a < 2 ^ 32" using assms by simp_all
  ultimately have "js_shr (pack (a, b)) 16 = b"
    using assms by (simp add: js_shr_def pack_def toUnsigned32bit_id drop_bit_eq_div)
  then show "js_and (js_shr (pack (a, b)) 16) 0xffff = b"
    using assms by (simp add: low_half)
qed

text \<open>C28. The checksum is the one of the format: on a checksum of earlier data and bytes that lie in the array,
  the result is that of adding the bytes one by one modulo 65521. The deferred reduction never overflows.
  So a checksum that is continued over the pieces of the data is that of the whole.\<close>

theorem adler32_sums:
  assumes "0 \<le> a" "a < 65521" "0 \<le> b" "b < 65521" "pos + len \<le> length buf"
  shows "adler32 (pack (a, b)) buf len pos = pack (fold adler_add (take len (drop pos buf)) (a, b))"
proof -
  have s: "small 0 (a, b)" "reduce (a, b) = (a, b)" using assms by (simp_all add: small_def reduce_def)
  define t where "t = fold adler_add (take len (drop pos buf)) (a, b)"
  have l: "adler_loop buf pos len (a, b) = t"
    using adler_loop_fold [OF s(1) assms(5)] s(2) by (cases "len = 0") (simp_all add: t_def adler_loop.simps)
  have "t = reduce (fold plain_add (take len (drop pos buf)) (a, b))"
    using fold_reduce [of "take len (drop pos buf)" "(a, b)"] s(2) by (simp add: t_def)
  then have t: "0 \<le> fst t" "fst t < 65521"
    by (simp_all add: reduce_def case_prod_beta)
  have "toSigned32bit a = a" "toSigned32bit b = b" using assms by (simp_all add: toSigned32bit_nonneg)
  then have "adler32 (pack (a, b)) buf len pos = js_or (js_or (fst t) (js_shl (snd t) 16)) 0"
    using unpack [of a b] assms l by (simp add: adler32_def case_prod_beta)
  also have "\<dots> = pack t" using pack_or [of "fst t" "snd t"] t by simp
  finally show ?thesis by (simp add: t_def)
qed

theorem adler32_sums_witness: "adler32 1 (map to_byte [0x57, 0x69, 0x6b, 0x69]) 4 0 = 0x3da0195"
proof -
  have "pack (1, 0) = 1" by (simp add: pack_def toSigned32bit_nonneg)
  moreover have "pack (fold adler_add (take 4 (drop 0 (map to_byte [0x57, 0x69, 0x6b, 0x69]))) (1, 0)) = 0x3da0195"
    by (simp add: adler_add_def pack_def to_byte_def toSigned32bit_nonneg)
  ultimately show ?thesis using adler32_sums [of 1 0 0 4 "map to_byte [0x57, 0x69, 0x6b, 0x69]"] by simp
qed

end
