(* ===== verification/Spec2Isabelle.thy ===== *)
theory Spec2Isabelle
  imports JS_Prelude Byte_Queue Websock_Queues Utf8_Strings Client_Messages Base64_Codec DES_Cipher
    Canvas_Display Draw_Queue Display_Order Display_Viewport Stream_Decoder Rect_Decoders Decoder_Steps Rect_Streams
    Hextile_Decoder Hextile_Streams Tight_Decoder Tight_Streams Key_Tables Key_Input Key_Safety Gesture_Handler Gesture_Safety
    Cursor_Image RFB_State RFB_Handshake Exec_Frames RFB_Messages RFB_Input
    RFB_Session Socket_Frames Session_Frames Session_Steps Session_Safety Session_Types Session_Returns Session_Progress
    Session_Handshake Session_Limits Session_Retry Session_Start Session_Refused Mouse_Moves Raw_Pixels
    Deflate_Stream Mouse_Capture Event_Target Log_Levels Browser_Features Keysym_Names Adler_Checksum
begin

text \<open>
  A model of the VNC client that the repository serves to the browser: the JavaScript under
  \<^verbatim>\<open>src/html/static/js/core\<close> (an adapted noVNC). The server of the repository is written in Go and is not modelled.

  \<^bold>\<open>The program.\<close> A page constructs an \<^verbatim>\<open>RFB\<close> object (\<^verbatim>\<open>rfb.js\<close>), which owns a socket with its two queues
  (\<^verbatim>\<open>websock.js\<close>), a display with a queue of drawing requests (\<^verbatim>\<open>display.js\<close>), a decoder for each encoding of
  rectangles (\<^verbatim>\<open>decoders\<close>), a keyboard (\<^verbatim>\<open>input/keyboard.js\<close> with its tables), a recogniser of touch gestures
  (\<^verbatim>\<open>input/gesturehandler.js\<close>) and a local cursor (\<^verbatim>\<open>util/cursor.js\<close>). Data from the server goes through the
  receive queue to the handshake or to the messages, which draw on the display; a message of which a part is
  missing leaves the queue where it was and is handled again when more has come. Events of the user become
  messages in the send queue. The display holds requests back while an image is being decoded, and the
  session pauses for it between updates.

  \<^bold>\<open>How it is modelled.\<close> A computation that reads and changes a state and may throw is an \<open>exec\<close>: a function from
  the state to a result (\<open>Inl\<close> the exception, \<open>Inr\<close> the value) and the new state, which an exception leaves as
  it is. Objects are records with the fields of the classes; a part works on its own record, and \<open>zoom\<close> runs
  it inside a larger one (\<open>on_sock\<close>, \<open>on_disp\<close>, \<open>on_kb\<close>). Numbers are \<open>int\<close> with the 32-bit conversions of the
  bitwise operators written out (\<open>js_shl\<close>, \<open>js_and\<close>, ...), \<open>rat\<close> for positions in the page, bytes \<open>8 word\<close>, the
  words of DES \<open>32 word\<close>, strings lists of UTF-16 code units (\<open>js_string\<close>). Calls on the canvas are recorded in
  the display (\<open>canvas_cmd\<close>), data given to the channel in \<open>ws_sent\<close>, events for the page in \<open>events\<close>.

  \<^bold>\<open>The theories\<close>, with the files they model:
  \<^item> \<open>JS_Prelude\<close>: \<^verbatim>\<open>util/int.js\<close>, the operators of the language, typed arrays, \<open>exec\<close>; \<open>Exec_Frames\<close>: what a
    computation may change, by its structure (locale \<open>frame\<close>).
  \<^item> \<open>Byte_Queue\<close>: the interface of a queue of bytes (locales \<open>byte_queue\<close>, \<open>fed_byte_queue\<close>);
    \<open>Websock_Queues\<close>: \<^verbatim>\<open>websock.js\<close>, which interprets it, and the interface \<open>message_sink\<close> of the send queue.
  \<^item> \<open>Utf8_Strings\<close>: \<^verbatim>\<open>util/strings.js\<close>; \<open>Base64_Codec\<close>: \<^verbatim>\<open>base64.js\<close>; \<open>DES_Cipher\<close>: \<^verbatim>\<open>des.js\<close>;
    \<open>Deflate_Stream\<close>: \<^verbatim>\<open>deflator.js\<close>; \<open>Adler_Checksum\<close>: \<^verbatim>\<open>adler32.js\<close> of the vendored zlib.
  \<^item> \<open>Event_Target\<close>: \<^verbatim>\<open>util/eventtarget.js\<close>; \<open>Log_Levels\<close>: \<^verbatim>\<open>util/logging.js\<close>; \<open>Browser_Features\<close>: \<^verbatim>\<open>util/browser.js\<close>.
  \<^item> \<open>Client_Messages\<close>: \<open>RFB.messages\<close> of \<^verbatim>\<open>rfb.js\<close>.
  \<^item> \<open>Canvas_Display\<close>: \<^verbatim>\<open>display.js\<close>; \<open>Draw_Queue\<close>: the contract of a display that may draw later (locale), which
    \<open>Display_Order\<close> discharges; \<open>Display_Viewport\<close>: the viewport and what is shown.
  \<^item> \<open>Rect_Decoders\<close> (\<^verbatim>\<open>copyrect.js\<close>, \<^verbatim>\<open>rre.js\<close>, \<^verbatim>\<open>raw.js\<close>), \<open>Hextile_Decoder\<close> (\<^verbatim>\<open>hextile.js\<close>), \<open>Tight_Decoder\<close>
    (\<^verbatim>\<open>inflator.js\<close>, \<^verbatim>\<open>tight.js\<close>, \<^verbatim>\<open>tightpng.js\<close>); \<open>Stream_Decoder\<close> and \<open>Decoder_Steps\<close>: the contract of a decoder
    whose input may be cut anywhere, which \<open>Rect_Streams\<close> and \<open>Hextile_Streams\<close> discharge; \<open>Tight_Streams\<close>: the
    compact length; \<open>Raw_Pixels\<close>: what a raw rectangle shows.
  \<^item> \<open>Key_Tables\<close>, \<open>Key_Input\<close>, \<open>Key_Safety\<close>: \<^verbatim>\<open>input/keyboard.js\<close>, \<^verbatim>\<open>util.js\<close> and the tables of keys;
    \<open>Keysym_Names\<close>: \<^verbatim>\<open>input/keysym.js\<close> and the keysyms the keyboard reports;
    \<open>Gesture_Handler\<close>, \<open>Gesture_Safety\<close>: \<^verbatim>\<open>input/gesturehandler.js\<close>; \<open>Cursor_Image\<close>: \<^verbatim>\<open>util/cursor.js\<close>;
    \<open>Mouse_Capture\<close>: \<^verbatim>\<open>util/events.js\<close>.
  \<^item> The session, \<^verbatim>\<open>rfb.js\<close>: \<open>RFB_State\<close> (the object, its life cycle, its properties and calls),
    \<open>RFB_Handshake\<close> (\<open>_initMsg\<close> and what it calls), \<open>RFB_Messages\<close> (\<open>_handleMessage\<close>, \<open>_normalMsg\<close> and what they
    call), \<open>RFB_Input\<close> (mouse, wheel, gestures, with \<^verbatim>\<open>util/element.js\<close>), \<open>RFB_Session\<close> (all of it as one state
    machine: \<open>session_step\<close>, \<open>reached\<close>).
  \<^item> What holds of every session: \<open>Socket_Frames\<close>, \<open>Session_Frames\<close> and \<open>Session_Steps\<close> carry a relation from the
    parts to every step (locales \<open>socket_frame\<close>, \<open>session_frame\<close>, \<open>session_steps\<close>); \<open>Session_Safety\<close> and
    \<open>Session_Types\<close> instantiate them for the life of a connection and the types of its counters;
    \<open>Session_Progress\<close> for the progress of its loops, with \<open>Session_Returns\<close> for the writers that may not
    return; \<open>Session_Handshake\<close>, \<open>Session_Start\<close>, \<open>Session_Refused\<close> and \<open>Session_Limits\<close> follow single
    dialogues, \<open>Session_Retry\<close> the messages that wait for data, \<open>Mouse_Moves\<close> the delayed moves of the mouse.

  \<^bold>\<open>What the theorems show.\<close>
  \<^item> Of the session: the connection states follow each other in one direction and the page is told exactly
    once; nothing is sent once it is ending; the dialogue of VNC authentication message by message; the
    handshake returns, and so do the message loop and its handlers while the channel is open; the counters keep their
    types; an incomplete message leaves the session as it was; the last position of the mouse is sent; a start and a
    refusal of the session event by event.
  \<^item> Of the parts: the display shows what the requests would have drawn at once and in order; the decoders of
    RRE, the data of Tight and, while nothing is queued, Hextile do not depend on how the network cuts their input; keys and
    gestures stay consistent under every sequence of events, and the keysyms reported are known ones; DES, Base64,
    UTF-8, RRE and the compact length have their inverses; the checksum is that of its definition; listeners that
    unregister each other are not called.
  \<^item> Of the places where the code does not do what it means to: a queue that overflows, a loop that never
    ends on a closed channel, images of the wrong size, tiles without colours, negative counts, long fences,
    empty updates, keys that stay pressed, gestures that are lost, alpha bytes in the wrong place, blocks of pixels
    whose offset a queue forgets.

  \<^bold>\<open>Bounds and fuel.\<close> Loops over a count take the count as fuel, which every turn decreases. The handlers of
  the handshake call the dispatcher again at most three deep (\<open>init_fuel\<close>), and the loop over the messages runs
  at most \<open>message_fuel\<close> turns, twice the length of the receive buffer and three; what happens beyond is an
  argument (\<open>stop\<close>) of which \<open>handshake_returns\<close> and \<open>message_loop_returns\<close> show that it does not matter. The
  loops that may not end (\<open>clientCutText\<close>, the chunks of the deflator) are \<open>while_option\<close> and
  \<open>partial_function (option)\<close>: a result None stands for not returning.

  \<^bold>\<open>Parameters.\<close> The vendored zlib (\<^verbatim>\<open>pako\<close>): a function of the calls made on a stream (\<open>pako\<close>, \<open>zdeflate\<close>), and in
  the session the bytes of a compressed text (\<open>env_deflate\<close>); \<open>Math.hypot\<close> and \<open>Math.atan2\<close> (\<open>js_math\<close>); what the
  browser can do (\<open>platform\<close>, the fields of \<open>rfb_env\<close>); clocks and positions in the page, with each event.

  \<^bold>\<open>Not modelled.\<close> The streams of zlib (vendored; of its sources only the checksum is modelled), the text of the log
  output, the tree of DOM elements with focus and style, and the pixels of a canvas:
  a canvas is the list of calls on it. \<open>rQlen'\<close> is a natural number: reading beyond the end of the queue (which
  only the VMware cursor does, by one byte) is followed, but a later compaction of the full buffer in that
  state, whose length the code would make negative, is not.
\<close>

end
